(* ===== verification/Prelude.thy ===== *)
theory Prelude
  imports Main "HOL-Library.Word"
begin

text \<open>
  Shared ground of the development: the machine types of the C++ sources, the ways a run of
  the program can go wrong, reading and writing a block of memory, and the byte order of a
  little-endian host (the layout that the bit-fields of \<open>include/websocket_frame.h\<close> need).
\<close>

unbundle bit_operations_syntax

section \<open>Machine types\<close>

type_synonym byte = "8 word"
type_synonym bytes = "8 word list"
type_synonym u16 = "16 word"
type_synonym u32 = "32 word"
type_synonym u64 = "64 word"

text \<open>
  A \<open>std::string\<close> and a \<open>char\<close> array are lists of bytes; a literal of the sources is
  written \<open>str ''...''\<close>.
\<close>

type_synonym cstring = "8 word list"

definition str :: "string \<Rightarrow> cstring" where
  "str s = map of_char s"

section \<open>Faults\<close>

text \<open>
  \<open>fswError\<close> logs and calls \<open>exit(-1)\<close>: \<open>ExitError\<close>. The other faults are the
  undefined behaviours that a run of the sources can reach; a definition that reaches one
  returns it instead of a value.
\<close>

datatype fault =
    ExitError
  | AssertFailed
  | NullPointer
  | OutOfBounds
  | UseAfterFree
  | StaleContext
  | Uninitialised

type_synonym 'a res = "fault + 'a"

named_theorems res_simps \<open>evaluation of fault-propagating code\<close>
named_theorems byte_order \<open>byte-order conversions as lists of bytes\<close>
named_theorems wf_intros \<open>operations keep the representation invariants\<close>

definition res_bind :: "'a res \<Rightarrow> ('a \<Rightarrow> 'b res) \<Rightarrow> 'b res" where
  "res_bind m f = (case m of Inl e \<Rightarrow> Inl e | Inr x \<Rightarrow> f x)"

definition res_guard :: "bool \<Rightarrow> fault \<Rightarrow> unit res" where
  "res_guard b e = (if b then Inr () else Inl e)"

lemma res_bind_Inl [simp, res_simps]: "res_bind (Inl e) f = Inl e"
  by (simp add: res_bind_def)

lemma res_bind_Inr [simp, res_simps]: "res_bind (Inr x) f = f x"
  by (simp add: res_bind_def)

lemma res_bind_right [simp]: "res_bind m Inr = m"
  by (simp add: res_bind_def split: sum.splits)

lemma res_bind_assoc: "res_bind (res_bind m f) g = res_bind m (\<lambda>x. res_bind (f x) g)"
  by (simp add: res_bind_def split: sum.splits)

lemma res_bind_eq_Inr [res_simps]:
  "res_bind m f = Inr y \<longleftrightarrow> (\<exists>x. m = Inr x \<and> f x = Inr y)"
  by (auto simp: res_bind_def split: sum.splits)

lemma res_bind_eq_Inl [res_simps]:
  "res_bind m f = Inl e \<longleftrightarrow> m = Inl e \<or> (\<exists>x. m = Inr x \<and> f x = Inl e)"
  by (auto simp: res_bind_def split: sum.splits)

lemma res_guard_Inr [simp, res_simps]: "res_guard b e = Inr u \<longleftrightarrow> b"
  by (simp add: res_guard_def)

lemma res_guard_Inl [simp, res_simps]: "res_guard b e = Inl e' \<longleftrightarrow> \<not> b \<and> e' = e"
  by (auto simp: res_guard_def)

lemma res_guard_True [simp]: "res_guard True e = Inr ()"
  by (simp add: res_guard_def)

lemma res_guard_False [simp]: "res_guard False e = Inl e"
  by (simp add: res_guard_def)

text \<open>A chain of calls that each take the state on, stopping at the first fault.\<close>

fun res_fold :: "('b \<Rightarrow> 's \<Rightarrow> 'b res) \<Rightarrow> 'b \<Rightarrow> 's list \<Rightarrow> 'b res" where
  "res_fold f b [] = Inr b"
| "res_fold f b (s # ss) = res_bind (f b s) (\<lambda>b'. res_fold f b' ss)"

lemma res_fold_append: "res_fold f b (xs @ ys) = res_bind (res_fold f b xs) (\<lambda>b'. res_fold f b' ys)"
  by (induction xs arbitrary: b) (simp_all add: res_bind_assoc)

section \<open>Actions\<close>

text \<open>
  Code that may not return: \<open>None\<close> is a run that has not ended within its fuel, \<open>Inl\<close> one
  that ended in a fault.
\<close>

type_synonym 's action = "'s \<Rightarrow> 's res option"

definition act_then :: "'s action \<Rightarrow> 's action \<Rightarrow> 's action" where
  "act_then m f s = (case m s of None \<Rightarrow> None | Some (Inl e) \<Rightarrow> Some (Inl e) | Some (Inr s') \<Rightarrow> f s')"

definition act_fault :: "fault \<Rightarrow> 's action" where
  "act_fault e s = Some (Inl e)"

definition act_skip :: "'s action" where
  "act_skip s = Some (Inr s)"

lemma act_then_returns [res_simps]:
  "act_then m f s = Some (Inr s') \<longleftrightarrow> (\<exists>t. m s = Some (Inr t) \<and> f t = Some (Inr s'))"
  by (simp add: act_then_def split: option.splits sum.splits)

lemma act_fault_returns [simp]: "act_fault e s \<noteq> Some (Inr s')" "act_fault e s \<noteq> None"
  by (simp_all add: act_fault_def)

lemma act_skip_returns [simp]: "act_skip s = Some (Inr s)"
  by (simp add: act_skip_def)

text \<open>Calls with a result, on a state that they may change.\<close>

type_synonym ('s, 'a) call = "'s \<Rightarrow> ('a \<times> 's) res option"

definition call_return :: "'a \<Rightarrow> ('s, 'a) call" where
  "call_return x s = Some (Inr (x, s))"

definition call_fault :: "fault \<Rightarrow> ('s, 'a) call" where
  "call_fault e s = Some (Inl e)"

definition call_bind :: "('s, 'a) call \<Rightarrow> ('a \<Rightarrow> ('s, 'b) call) \<Rightarrow> ('s, 'b) call" where
  "call_bind m f s =
     (case m s of None \<Rightarrow> None | Some (Inl e) \<Rightarrow> Some (Inl e) | Some (Inr (x, s')) \<Rightarrow> f x s')"

definition call_then :: "('s, 'a) call \<Rightarrow> ('s, 'b) call \<Rightarrow> ('s, 'b) call" where
  "call_then m f = call_bind m (\<lambda>_. f)"

definition call_get :: "('s \<Rightarrow> 'a) \<Rightarrow> ('s, 'a) call" where
  "call_get f s = Some (Inr (f s, s))"

definition call_modify :: "('s \<Rightarrow> 's) \<Rightarrow> ('s, unit) call" where
  "call_modify f s = Some (Inr ((), f s))"

definition call_res :: "'a res \<Rightarrow> ('s, 'a) call" where
  "call_res r s = (case r of Inl e \<Rightarrow> Some (Inl e) | Inr x \<Rightarrow> Some (Inr (x, s)))"

text \<open>A call on a part of the state.\<close>

definition call_on :: "('s \<Rightarrow> 'e) \<Rightarrow> ('e \<Rightarrow> 's \<Rightarrow> 's) \<Rightarrow> ('e, 'a) call \<Rightarrow> ('s, 'a) call" where
  "call_on get put m s =
     (case m (get s) of
        None \<Rightarrow> None | Some (Inl e) \<Rightarrow> Some (Inl e) | Some (Inr (x, e)) \<Rightarrow> Some (Inr (x, put e s)))"

lemma call_bind_returns [res_simps]:
  "call_bind m f s = Some (Inr r) \<longleftrightarrow> (\<exists>x t. m s = Some (Inr (x, t)) \<and> f x t = Some (Inr r))"
  by (auto simp: call_bind_def split: option.splits sum.splits prod.splits)

lemma call_bind_return [simp]: "call_bind (call_return x) f s = f x s"
  by (simp add: call_bind_def call_return_def)

lemma call_bind_fault [simp]: "call_bind (call_fault e) f s = Some (Inl e)"
  by (simp add: call_bind_def call_fault_def)

lemma call_bind_get [simp]: "call_bind (call_get g) f s = f (g s) s"
  by (simp add: call_bind_def call_get_def)

lemma call_then_modify [simp]: "call_then (call_modify g) m s = m (g s)"
  by (simp add: call_then_def call_bind_def call_modify_def)

lemma call_bind_res [simp]:
  "call_bind (call_res r) f s = (case r of Inl e \<Rightarrow> Some (Inl e) | Inr x \<Rightarrow> f x s)"
  by (simp add: call_bind_def call_res_def split: sum.splits)

text \<open>That a call returns, as a test that computes.\<close>

definition call_returned :: "('a \<Rightarrow> 's \<Rightarrow> bool) \<Rightarrow> ('s, 'a) call \<Rightarrow> 's \<Rightarrow> bool" where
  "call_returned P m s = (case m s of Some (Inr (x, t)) \<Rightarrow> P x t | _ \<Rightarrow> False)"

lemma call_returned_iff: "call_returned P m s \<longleftrightarrow> (\<exists>x t. m s = Some (Inr (x, t)) \<and> P x t)"
  by (auto simp: call_returned_def split: option.splits sum.splits)

lemma res_case_returns [res_simps]:
  "(case r of Inl e \<Rightarrow> Some (Inl e) | Inr x \<Rightarrow> f x) = Some (Inr y) \<longleftrightarrow> (\<exists>x. r = Inr x \<and> f x = Some (Inr y))"
  by (cases r) auto

lemma res_case_ok [res_simps]: "(case r of Inl e \<Rightarrow> False | Inr x \<Rightarrow> P x) \<longleftrightarrow> (\<exists>x. r = Inr x \<and> P x)"
  by (cases r) auto

lemma option_res_cases:
  obtains "r = None" | f where "r = Some (Inl f)" | x s where "r = Some (Inr (x, s))"
  by (metis option.exhaust sum.exhaust prod.exhaust)

lemma call_bind_cong:
  "m s = Some (Inr (x, t)) \<Longrightarrow> call_bind m f s = f x t"
  by (simp add: call_bind_def)

lemmas call_defs = call_return_def call_fault_def call_bind_def call_then_def call_get_def
  call_modify_def call_res_def call_on_def

text \<open>A statement about the state that a call keeps whenever it returns.\<close>

definition call_keeps :: "('s \<Rightarrow> bool) \<Rightarrow> ('s, 'a) call \<Rightarrow> bool" where
  "call_keeps I m \<longleftrightarrow> (\<forall>s x t. I s \<longrightarrow> m s = Some (Inr (x, t)) \<longrightarrow> I t)"

lemma call_keeps_bind: "call_keeps I m \<Longrightarrow> (\<And>x. call_keeps I (f x)) \<Longrightarrow> call_keeps I (call_bind m f)"
  unfolding call_keeps_def call_bind_returns by (metis prod.collapse)

lemma call_keeps_then: "call_keeps I m \<Longrightarrow> call_keeps I m' \<Longrightarrow> call_keeps I (call_then m m')"
  by (simp add: call_then_def call_keeps_bind)

lemma call_keeps_basic [simp]:
  "call_keeps I (call_return x)" "call_keeps I (call_fault e)" "call_keeps I (call_get g)" "call_keeps I (call_res r)"
  by (auto simp: call_keeps_def call_defs split: sum.splits)

lemma call_keeps_modify: "(\<And>s. I s \<Longrightarrow> I (g s)) \<Longrightarrow> call_keeps I (call_modify g)"
  by (auto simp: call_keeps_def call_modify_def)

lemma call_keeps_on: "(\<And>e s. I s \<Longrightarrow> I (put e s)) \<Longrightarrow> call_keeps I (call_on get put m)"
  by (auto simp: call_keeps_def call_on_def split: option.splits sum.splits)

lemmas call_keeps_intros = call_keeps_bind call_keeps_then call_keeps_modify call_keeps_on

lemma call_keepsD: "call_keeps I m \<Longrightarrow> I s \<Longrightarrow> m s = Some (Inr (x, t)) \<Longrightarrow> I t"
  by (auto simp: call_keeps_def)

section \<open>Blocks of memory\<close>

text \<open>Reading and writing \<open>n\<close> bytes at offset \<open>off\<close> of a block, as \<open>memcpy\<close> does.\<close>

definition mem_read :: "bytes \<Rightarrow> nat \<Rightarrow> nat \<Rightarrow> bytes res" where
  "mem_read m off n =
     (if off + n \<le> length m then Inr (take n (drop off m)) else Inl OutOfBounds)"

definition mem_write :: "bytes \<Rightarrow> nat \<Rightarrow> bytes \<Rightarrow> bytes res" where
  "mem_write m off bs =
     (if off + length bs \<le> length m
      then Inr (take off m @ bs @ drop (off + length bs) m) else Inl OutOfBounds)"

lemma mem_read_Inr [res_simps]:
  "mem_read m off n = Inr bs \<longleftrightarrow> off + n \<le> length m \<and> bs = take n (drop off m)"
  by (auto simp: mem_read_def)

lemma mem_write_Inr [res_simps]:
  "mem_write m off bs = Inr m' \<longleftrightarrow>
     off + length bs \<le> length m \<and> m' = take off m @ bs @ drop (off + length bs) m"
  by (auto simp: mem_write_def)

lemma mem_write_length: "mem_write m off bs = Inr m' \<Longrightarrow> length m' = length m"
  by (auto simp: mem_write_Inr)

lemma mem_write_single:
  "off < length m \<Longrightarrow> mem_write m off [b] = Inr (m[off := b])"
  by (simp add: mem_write_def upd_conv_take_nth_drop)

lemma mem_read_write:
  "mem_write m off bs = Inr m' \<Longrightarrow> mem_read m' off (length bs) = Inr bs"
  by (auto simp: mem_write_Inr mem_read_def)

lemma mem_read_middle:
  "length pre = off \<Longrightarrow> length bs = n \<Longrightarrow> mem_read (pre @ bs @ rest) off n = Inr bs"
  by (auto simp: mem_read_def)

lemma mem_write_middle:
  "length pre = off \<Longrightarrow> length bs = length cs \<Longrightarrow>
   mem_write (pre @ bs @ rest) off cs = Inr (pre @ cs @ rest)"
  by (auto simp: mem_write_def)

section \<open>Byte order of a little-endian host\<close>

text \<open>The number a run of bytes stands for, least significant byte first, and back.\<close>

fun le_nat :: "bytes \<Rightarrow> nat" where
  "le_nat [] = 0"
| "le_nat (b # bs) = unat b + 256 * le_nat bs"

fun nat_le :: "nat \<Rightarrow> nat \<Rightarrow> bytes" where
  "nat_le 0 n = []"
| "nat_le (Suc k) n = of_nat n # nat_le k (n div 256)"

lemma length_nat_le [simp]: "length (nat_le k n) = k"
  by (induction k arbitrary: n) auto

lemma le_nat_append: "le_nat (xs @ ys) = le_nat xs + 256 ^ length xs * le_nat ys"
  by (induction xs) (auto simp: algebra_simps)

lemma unat_byte: "unat (b :: byte) < 256"
  using unsigned_less [where 'a = nat, of b] by simp

lemma le_nat_bound: "le_nat bs < 256 ^ length bs"
proof (induction bs)
  case Nil
  then show ?case by simp
next
  case (Cons b bs)
  have "unat b < 256" by (rule unat_byte)
  with Cons show ?case by simp
qed

lemma unat_of_nat_byte: "unat (of_nat n :: byte) = n mod 256"
  by (simp add: unat_of_nat)

lemma le_nat_nat_le [byte_order]: "le_nat (nat_le k n) = n mod 256 ^ k"
proof (induction k arbitrary: n)
  case 0
  then show ?case by simp
next
  case (Suc k)
  have "n mod (256 * 256 ^ k) = 256 * (n div 256 mod 256 ^ k) + n mod 256"
    by (rule mod_mult2_eq)
  with Suc show ?case by (simp add: unat_of_nat_byte)
qed

lemma nat_le_mod: "nat_le k (n mod 256 ^ k) = nat_le k n"
proof (induction k arbitrary: n)
  case 0
  then show ?case by simp
next
  case (Suc k)
  have eq: "n mod (256 * 256 ^ k) = 256 * (n div 256 mod 256 ^ k) + n mod 256"
    by (rule mod_mult2_eq)
  have "(of_nat (n mod (256 * 256 ^ k)) :: byte) = of_nat n"
    by (rule word_unat_eq_iff [THEN iffD2]) (simp add: unat_of_nat_byte mod_mod_cancel)
  moreover have "n mod (256 * 256 ^ k) div 256 = n div 256 mod 256 ^ k"
    by (simp add: eq)
  ultimately show ?case by (simp add: Suc)
qed

lemma nat_le_le_nat [byte_order]: "nat_le (length bs) (le_nat bs) = bs"
proof (induction bs)
  case Nil
  then show ?case by simp
next
  case (Cons b bs)
  have b: "unat b < 256" by (rule unat_byte)
  then have "(of_nat (unat b + 256 * le_nat bs) :: byte) = b"
    by (simp only: word_unat_eq_iff unat_of_nat_byte) simp
  moreover have "(unat b + 256 * le_nat bs) div 256 = le_nat bs"
    using b by simp
  ultimately show ?case using Cons by simp
qed

text \<open>
  Loads and stores through a \<open>uint16_t *\<close>, \<open>uint32_t *\<close> or \<open>uint64_t *\<close>, and the
  network-order conversions of \<open>arpa/inet.h\<close>, which reverse the bytes on such a host.
\<close>

definition load_le :: "bytes \<Rightarrow> 'a::len word" where
  "load_le bs = of_nat (le_nat bs)"

definition store_le :: "nat \<Rightarrow> 'a::len word \<Rightarrow> bytes" where
  "store_le k w = nat_le k (unat w)"

definition bswap :: "nat \<Rightarrow> 'a::len word \<Rightarrow> 'a word" where
  "bswap k w = load_le (rev (store_le k w))"

definition htons :: "u16 \<Rightarrow> u16" where "htons = bswap 2"
definition ntohs :: "u16 \<Rightarrow> u16" where "ntohs = bswap 2"
definition htonl :: "u32 \<Rightarrow> u32" where "htonl = bswap 4"
definition ntohl :: "u32 \<Rightarrow> u32" where "ntohl = bswap 4"

lemma length_store_le [simp]: "length (store_le k w) = k"
  by (simp add: store_le_def)

lemma store_load [byte_order]:
  assumes "length bs = k" and "LENGTH('a) = 8 * k"
  shows "store_le k (load_le bs :: 'a::len word) = bs"
proof -
  have "(2::nat) ^ LENGTH('a) = 256 ^ k" using assms(2) by (simp add: power_mult)
  with le_nat_bound [of bs] assms(1) have "unat (load_le bs :: 'a word) = le_nat bs"
    by (simp add: load_le_def unat_of_nat)
  with assms(1) nat_le_le_nat [of bs] show ?thesis by (simp add: store_le_def)
qed

lemma load_store [byte_order]:
  assumes "LENGTH('a) = 8 * k"
  shows "load_le (store_le k (w :: 'a::len word)) = w"
proof -
  have "(2::nat) ^ LENGTH('a) = 256 ^ k" using assms by (simp add: power_mult)
  with unsigned_less [where 'a = nat, of w] have "le_nat (nat_le k (unat w)) = unat w"
    by (simp add: le_nat_nat_le)
  then show ?thesis by (simp add: load_le_def store_le_def)
qed

lemma store_bswap [byte_order]:
  assumes "LENGTH('a) = 8 * k"
  shows "store_le k (bswap k (w :: 'a::len word)) = rev (store_le k w)"
  using assms by (simp add: bswap_def store_load)

lemma bswap_bswap [byte_order]:
  assumes "LENGTH('a) = 8 * k"
  shows "bswap k (bswap k (w :: 'a::len word)) = w"
proof -
  have "bswap k (bswap k w) = load_le (rev (store_le k (bswap k w)))"
    by (subst bswap_def) simp
  also have "\<dots> = w" using assms by (simp add: store_bswap load_store)
  finally show ?thesis .
qed

text \<open>Big-endian bytes, the order of the wire.\<close>

definition be_bytes :: "nat \<Rightarrow> nat \<Rightarrow> bytes" where
  "be_bytes k n = rev (nat_le k n)"

definition be_nat :: "bytes \<Rightarrow> nat" where
  "be_nat bs = le_nat (rev bs)"

lemma length_be_bytes [simp]: "length (be_bytes k n) = k"
  by (simp add: be_bytes_def)

lemma be_nat_be_bytes [byte_order]: "n < 256 ^ k \<Longrightarrow> be_nat (be_bytes k n) = n"
  by (simp add: be_nat_def be_bytes_def le_nat_nat_le)

lemma store_htonl [byte_order]: "store_le 4 (htonl w) = be_bytes 4 (unat w)"
  by (simp add: htonl_def store_bswap) (simp add: be_bytes_def store_le_def)

lemma store_htons [byte_order]: "store_le 2 (htons w) = be_bytes 2 (unat w)"
  by (simp add: htons_def store_bswap) (simp add: be_bytes_def store_le_def)

lemma ntohs_htons [simp, byte_order]: "ntohs (htons w) = w"
  by (simp add: ntohs_def htons_def bswap_bswap)

lemma ntohl_htonl [simp, byte_order]: "ntohl (htonl w) = w"
  by (simp add: ntohl_def htonl_def bswap_bswap)

section \<open>Bits of bytes\<close>

lemma byte_bits:
  "n < 8 \<Longrightarrow> n = 0 \<or> n = 1 \<or> n = 2 \<or> n = 3 \<or> n = 4 \<or> n = 5 \<or> n = 6 \<or> n = (7::nat)"
  by arith

lemma byte_eqI: "(\<And>n. n < 8 \<Longrightarrow> bit a n = bit b n) \<Longrightarrow> a = (b :: byte)"
  by (rule bit_word_eqI) simp

lemma bit_byte_beyond [simp]: "8 \<le> n \<Longrightarrow> \<not> bit (a :: byte) n"
  using bit_imp_le_length [of a n] by auto

lemma unat_take_bit_word: "unat (take_bit n w) = unat (w :: 'a::len word) mod 2 ^ n"
  by (simp only: unsigned_take_bit_eq) (simp add: take_bit_eq_mod)

lemma unat_drop_bit_word: "unat (drop_bit n w) = unat (w :: 'a::len word) div 2 ^ n"
  by (simp only: unat_drop_bit_eq) (simp add: drop_bit_eq_div)

lemma unat_push_bit_word:
  "unat (push_bit n w) = (unat (w :: 'a::len word) * 2 ^ n) mod 2 ^ LENGTH('a)"
  by (simp only: unsigned_push_bit_eq) (simp add: take_bit_eq_mod push_bit_eq_mult)

lemmas unat_bits = unat_take_bit_word unat_drop_bit_word unat_push_bit_word

section \<open>Words as runs of bytes\<close>

lemma nat_le_add: "nat_le (j + k) n = nat_le j n @ nat_le k (n div 256 ^ j)"
  by (induction j arbitrary: n) (simp_all add: div_mult2_eq)

lemma nth_nat_le: "i < k \<Longrightarrow> nat_le k n ! i = of_nat (n div 256 ^ i)"
proof (induction k arbitrary: i n)
  case 0
  then show ?case by simp
next
  case (Suc k)
  then show ?case by (cases i) (simp_all add: div_mult2_eq)
qed

lemma ucast_byte_eq: "(ucast (w :: 'a::len word) :: byte) = of_nat (unat w)"
  by (rule word_unat_eq_iff [THEN iffD2]) (simp add: unat_of_nat unsigned_ucast_eq take_bit_eq_mod)

lemma nth_store_le:
  assumes "i < k"
  shows "store_le k (w :: 'a::len word) ! i = ucast (drop_bit (8 * i) w)"
proof -
  have "(256::nat) ^ i = 2 ^ (8 * i)" by (simp add: power_mult)
  then show ?thesis
    using assms by (simp add: store_le_def nth_nat_le ucast_byte_eq unat_drop_bit_word)
qed

lemma store_le_xor:
  "store_le k ((a :: 'a::len word) XOR b) = map2 (XOR) (store_le k a) (store_le k b)"
  by (rule nth_equalityI) (simp_all add: nth_store_le unsigned_xor_eq)

lemma join64_nat:
  "unat (push_bit 32 (ucast (h :: u32)) OR ucast (l :: u32) :: u64) = unat h * 2 ^ 32 + unat l"
proof -
  have "(push_bit 32 (ucast h) :: u64) AND ucast l = 0"
    by (rule bit_word_eqI) (auto simp: bit_simps dest: bit_imp_le_length)
  then have "(push_bit 32 (ucast h) OR ucast l :: u64) = push_bit 32 (ucast h) + ucast l"
    by (simp add: disjunctive_add_eq_or)
  moreover have "unat h < 2 ^ 32" "unat l < 2 ^ 32"
    using unsigned_less [where 'a = nat, of h] unsigned_less [where 'a = nat, of l] by simp_all
  ultimately show ?thesis
    by (simp add: unat_word_ariths unat_push_bit_word unsigned_ucast_eq take_bit_eq_mod)
qed

lemma store_join64:
  "store_le 8 (push_bit 32 (ucast (h :: u32)) OR ucast (l :: u32) :: u64) = store_le 4 l @ store_le 4 h"
proof -
  have l: "unat l < 256 ^ 4"
    using unsigned_less [where 'a = nat, of l] by simp
  have "nat_le (4 + 4) (unat h * 2 ^ 32 + unat l) = nat_le 4 (unat l) @ nat_le 4 (unat h)"
  proof -
    have "(unat h * 2 ^ 32 + unat l) mod 256 ^ 4 = unat l" and "(unat h * 2 ^ 32 + unat l) div 256 ^ 4 = unat h"
      using l by simp_all
    then show ?thesis by (metis nat_le_add nat_le_mod)
  qed
  then show ?thesis by (simp add: store_le_def join64_nat)
qed
end
