(* ===== verification/Base64.thy ===== *)
theory Base64
  imports Prelude
begin

text \<open>
  \<open>src/base64.cc\<close>: the encoder and the decoder with their working arrays. The decoder's
  array \<open>char_array_4\<close> starts uninitialised, so its first contents are an argument. The
  reference is the encoding of RFC 4648 by arithmetic on 24-bit groups.
\<close>

section \<open>The alphabet\<close>

definition base64_chars :: cstring where
  "base64_chars = str ''ABCDEFGHIJKLMNOPQRSTUVWXYZabcdefghijklmnopqrstuvwxyz0123456789+/''"

definition isalnum :: "byte \<Rightarrow> bool" where
  "isalnum c \<longleftrightarrow> (48 \<le> c \<and> c \<le> 57) \<or> (65 \<le> c \<and> c \<le> 90) \<or> (97 \<le> c \<and> c \<le> 122)"

definition is_base64 :: "byte \<Rightarrow> bool" where
  "is_base64 c \<longleftrightarrow> isalnum c \<or> c = 43 \<or> c = 47"

text \<open>\<open>std::string::find\<close> of a character, stored into an \<open>unsigned char\<close>.\<close>

definition base64_find :: "byte \<Rightarrow> byte" where
  "base64_find c = of_nat (length (takeWhile (\<lambda>x. x \<noteq> c) base64_chars))"

definition base64_at :: "byte \<Rightarrow> byte" where
  "base64_at q = base64_chars ! unat q"

section \<open>Encoding\<close>

text \<open>The four indices computed from \<open>char_array_3\<close>.\<close>

definition encode_quad :: "bytes \<Rightarrow> bytes" where
  "encode_quad a3 =
     [drop_bit 2 ((a3 ! 0) AND 0xfc),
      push_bit 4 ((a3 ! 0) AND 0x03) + drop_bit 4 ((a3 ! 1) AND 0xf0),
      push_bit 2 ((a3 ! 1) AND 0x0f) + drop_bit 6 ((a3 ! 2) AND 0xc0),
      (a3 ! 2) AND 0x3f]"

text \<open>The \<open>while (in_len--)\<close> loop over \<open>i\<close>, \<open>char_array_3\<close> and \<open>ret\<close>.\<close>

fun encode_loop :: "nat \<Rightarrow> bytes \<Rightarrow> cstring \<Rightarrow> bytes \<Rightarrow> nat \<times> bytes \<times> cstring" where
  "encode_loop i a3 ret [] = (i, a3, ret)"
| "encode_loop i a3 ret (b # bs) =
     (let a3' = a3[i := b]; i' = i + 1 in
      if i' = 3 then encode_loop 0 a3' (ret @ map base64_at (encode_quad a3')) bs
      else encode_loop i' a3' ret bs)"

text \<open>The block \<open>if (i)\<close> after the loop.\<close>

definition encode_tail :: "nat \<Rightarrow> bytes \<Rightarrow> cstring \<Rightarrow> cstring" where
  "encode_tail i a3 ret =
     (if i = 0 then ret
      else let a3' = take i a3 @ replicate (3 - i) 0
           in ret @ map base64_at (take (i + 1) (encode_quad a3')) @ replicate (3 - i) 61)"

definition base64_encode :: "bytes \<Rightarrow> cstring" where
  "base64_encode bs =
     (case encode_loop 0 [0, 0, 0] [] bs of (i, a3, ret) \<Rightarrow> encode_tail i a3 ret)"

section \<open>Decoding\<close>

text \<open>The three bytes computed from \<open>char_array_4\<close> once it holds indices.\<close>

definition decode_triple :: "bytes \<Rightarrow> bytes" where
  "decode_triple a4 =
     [push_bit 2 (a4 ! 0) + drop_bit 4 ((a4 ! 1) AND 0x30),
      push_bit 4 ((a4 ! 1) AND 0xf) + drop_bit 2 ((a4 ! 2) AND 0x3c),
      push_bit 6 ((a4 ! 2) AND 0x3) + a4 ! 3]"

fun decode_loop :: "nat \<Rightarrow> bytes \<Rightarrow> bytes \<Rightarrow> cstring \<Rightarrow> nat \<times> bytes \<times> bytes" where
  "decode_loop i a4 ret [] = (i, a4, ret)"
| "decode_loop i a4 ret (c # cs) =
     (if c \<noteq> 61 \<and> is_base64 c then
        (let a4' = a4[i := c]; i' = i + 1 in
         if i' = 4 then
           (let q = map base64_find a4' in decode_loop 0 q (ret @ decode_triple q) cs)
         else decode_loop i' a4' ret cs)
      else (i, a4, ret))"

definition decode_tail :: "nat \<Rightarrow> bytes \<Rightarrow> bytes \<Rightarrow> bytes" where
  "decode_tail i a4 ret =
     (if i = 0 then ret
      else let q = map base64_find (take i a4) @ drop i a4
           in ret @ take (i - 1) (decode_triple q))"

definition base64_decode :: "bytes \<Rightarrow> cstring \<Rightarrow> bytes" where
  "base64_decode uninit s =
     (case decode_loop 0 uninit [] s of (i, a4, ret) \<Rightarrow> decode_tail i a4 ret)"

section \<open>The reference encoding\<close>

text \<open>A group of three bytes is a 24-bit number, written in four base-64 digits.\<close>

definition sextets :: "nat \<Rightarrow> nat list" where
  "sextets n = [n div 64 ^ 3 mod 64, n div 64 ^ 2 mod 64, n div 64 mod 64, n mod 64]"

definition sextet_char :: "nat \<Rightarrow> byte" where
  "sextet_char k = base64_chars ! k"

definition group24 :: "byte \<Rightarrow> byte \<Rightarrow> byte \<Rightarrow> nat" where
  "group24 a b c = unat a * 65536 + unat b * 256 + unat c"

fun rfc4648 :: "bytes \<Rightarrow> cstring" where
  "rfc4648 [] = []"
| "rfc4648 [a] = map sextet_char (take 2 (sextets (group24 a 0 0))) @ [61, 61]"
| "rfc4648 [a, b] = map sextet_char (take 3 (sextets (group24 a b 0))) @ [61]"
| "rfc4648 (a # b # c # bs) = map sextet_char (sextets (group24 a b c)) @ rfc4648 bs"

section \<open>Indices\<close>

lemma and_masks:
  "(x::byte) AND 3 = take_bit 2 x" "x AND 15 = take_bit 4 x" "x AND 63 = take_bit 6 x"
  by (simp_all add: take_bit_eq_mask mask_eq_exp_minus_1)

lemma and_high_masks:
  "drop_bit 2 ((x::byte) AND 0xfc) = drop_bit 2 x"
  "drop_bit 4 (x AND 0xf0) = drop_bit 4 x"
  "drop_bit 6 (x AND 0xc0) = drop_bit 6 x"
  "drop_bit 4 (x AND 0x30) = take_bit 2 (drop_bit 4 x)"
  "drop_bit 2 (x AND 0x3c) = take_bit 4 (drop_bit 2 x)"
  by (rule byte_eqI, drule byte_bits, auto simp: bit_simps)+

lemma unat_add_byte: "unat (x + y :: byte) = (unat x + unat y) mod 256"
  by (simp add: unat_word_ariths)

lemma sextets_digits:
  assumes "d3 < 64" "d2 < 64" "d1 < 64" "d0 < 64"
  shows "sextets (((d3 * 64 + d2) * 64 + d1) * 64 + d0) = [d3, d2, d1, d0]"
proof -
  let ?n = "((d3 * 64 + d2) * 64 + d1) * 64 + d0"
  have 1: "?n div 64 = (d3 * 64 + d2) * 64 + d1" using assms by simp
  have 2: "?n div 64 ^ 2 = d3 * 64 + d2"
    using assms by (simp only: power2_eq_square div_mult2_eq 1) simp
  have 3: "?n div 64 ^ 3 = d3"
    using assms by (simp only: power3_eq_cube div_mult2_eq 1) simp
  show ?thesis
    using assms by (simp only: sextets_def 1 2 3 mod_mult_self3 mod_less)
qed

lemma group_arith:
  fixes A :: nat
  shows "A = A1 * 4 + A0 \<Longrightarrow> B = B1 * 16 + B0 \<Longrightarrow> C = C1 * 64 + C0 \<Longrightarrow>
    A * 65536 + B * 256 + C = ((A1 * 64 + (A0 * 16 + B1)) * 64 + (B0 * 4 + C1)) * 64 + C0"
  by simp

lemma encode_quad_unat:
  "map unat (encode_quad [a, b, c]) = sextets (group24 a b c)"
proof -
  have lt: "unat a < 256" "unat b < 256" "unat c < 256" by (rule unat_byte)+
  have g: "group24 a b c =
     (((unat a div 4) * 64 + (unat a mod 4 * 16 + unat b div 16)) * 64 +
       (unat b mod 16 * 4 + unat c div 64)) * 64 + unat c mod 64"
    unfolding group24_def by (rule group_arith) (simp_all only: div_mult_mod_eq)
  have "unat a div 4 < 64" "unat a mod 4 * 16 + unat b div 16 < 64"
    "unat b mod 16 * 4 + unat c div 64 < 64" "unat c mod 64 < 64"
    using lt by linarith+
  from sextets_digits [OF this] show ?thesis using lt
    by (simp add: encode_quad_def and_masks and_high_masks unat_add_byte unat_bits g)
qed


lemma length_base64_chars: "length base64_chars = 64"
  by (simp add: base64_chars_def str_def)
lemma distinct_base64_chars: "distinct base64_chars"
  by (simp add: base64_chars_def str_def)
lemma base64_chars_ok: "\<forall>c \<in> set base64_chars. c \<noteq> 61 \<and> is_base64 c"
  by (simp add: base64_chars_def str_def is_base64_def isalnum_def)

lemma takeWhile_nth: "distinct xs \<Longrightarrow> k < length xs \<Longrightarrow> takeWhile (\<lambda>x. x \<noteq> xs ! k) xs = take k xs"
proof (induction xs arbitrary: k)
  case Nil then show ?case by simp
next
  case (Cons x xs)
  then show ?case by (cases k) (auto simp: nth_mem)
qed
lemma find_at: "k < 64 \<Longrightarrow> base64_find (base64_chars ! k) = of_nat k"
  by (simp add: base64_find_def takeWhile_nth distinct_base64_chars length_base64_chars)

lemma sextet_char_ok: "k < 64 \<Longrightarrow> sextet_char k \<noteq> 61 \<and> is_base64 (sextet_char k)"
  using base64_chars_ok by (metis length_base64_chars nth_mem sextet_char_def)

lemma find_sextet_char: "k < 64 \<Longrightarrow> base64_find (sextet_char k) = of_nat k"
  by (simp add: sextet_char_def find_at)

lemma base64_at_sextet: "base64_at q = sextet_char (unat q)"
  by (simp add: base64_at_def sextet_char_def)

lemma map_base64_at_quad:
  "map base64_at (encode_quad [a, b, c]) = map sextet_char (sextets (group24 a b c))"
  by (simp add: encode_quad_unat [symmetric] base64_at_sextet)

lemma sextets_lt: "\<forall>k \<in> set (sextets n). k < 64"
  by (simp add: sextets_def)

text \<open>The three bytes back from the four indices.\<close>

lemma decode_first:
  "push_bit 2 (encode_quad [a, b, c] ! 0) + drop_bit 4 ((encode_quad [a, b, c] ! 1) AND 0x30) = a"
proof -
  have lt: "unat a < 256" "unat b < 256" by (rule unat_byte)+
  have "(unat a mod 4 * 16 + unat b div 16) div 16 = unat a mod 4" using lt by simp
  then show ?thesis
    using lt by (simp add: word_unat_eq_iff encode_quad_def and_masks and_high_masks unat_add_byte unat_bits)
qed

lemma decode_second:
  "push_bit 4 ((encode_quad [a, b, c] ! 1) AND 0xf) +
     drop_bit 2 ((encode_quad [a, b, c] ! 2) AND 0x3c) = b"
proof -
  have lt: "unat a < 256" "unat b < 256" "unat c < 256" by (rule unat_byte)+
  have "(unat a mod 4 * 16 + unat b div 16) mod 16 = unat b div 16"
    and "(unat b mod 16 * 4 + unat c div 64) div 4 = unat b mod 16" using lt by simp_all
  then show ?thesis
    using lt by (simp add: word_unat_eq_iff encode_quad_def and_masks and_high_masks unat_add_byte unat_bits)
qed

lemma decode_third:
  "push_bit 6 ((encode_quad [a, b, c] ! 2) AND 0x3) + encode_quad [a, b, c] ! 3 = c"
proof -
  have lt: "unat b < 256" "unat c < 256" by (rule unat_byte)+
  have "(unat b mod 16 * 4 + unat c div 64) mod 4 = unat c div 64" using lt by simp
  then show ?thesis
    using lt by (simp add: word_unat_eq_iff encode_quad_def and_masks and_high_masks unat_add_byte unat_bits)
qed

lemma encode_loop_group:
  "length a3 = 3 \<Longrightarrow> encode_loop 0 a3 ret (a # b # c # bs) =
     encode_loop 0 [a, b, c] (ret @ map sextet_char (sextets (group24 a b c))) bs"
  by (auto simp: numeral_3_eq_3 length_Suc_conv map_base64_at_quad)

lemma encode_loop_rfc4648:
  "length a3 = 3 \<Longrightarrow>
   (case encode_loop 0 a3 ret bs of (i, a3', r) \<Rightarrow> encode_tail i a3' r) = ret @ rfc4648 bs"
proof (induction bs arbitrary: a3 ret rule: rfc4648.induct)
  case 1
  then show ?case by (simp add: encode_tail_def)
next
  case (2 a)
  then show ?case
    by (auto simp: numeral_2_eq_2 numeral_3_eq_3 length_Suc_conv encode_tail_def take_map [symmetric]
        map_base64_at_quad)
next
  case (3 a b)
  then show ?case
    by (auto simp: numeral_2_eq_2 numeral_3_eq_3 length_Suc_conv encode_tail_def take_map [symmetric]
        map_base64_at_quad)
next
  case (4 a b c bs)
  then show ?case by (simp add: encode_loop_group del: encode_loop.simps)
qed

lemma decode_loop_char:
  assumes "k < 64"
  shows "i < 3 \<Longrightarrow> decode_loop i a4 ret (sextet_char k # cs) =
      decode_loop (Suc i) (a4[i := sextet_char k]) ret cs"
    and "i = 3 \<Longrightarrow> decode_loop i a4 ret (sextet_char k # cs) =
      (let q = map base64_find (a4[3 := sextet_char k]) in decode_loop 0 q (ret @ decode_triple q) cs)"
  using assms by (simp_all add: sextet_char_ok)

lemma length_4: "length xs = 4 \<Longrightarrow> \<exists>a b c d. xs = [a, b, c, d]"
  by (auto simp: numeral_eq_Suc length_Suc_conv)

lemmas four_steps = decode_loop_char find_sextet_char decode_tail_def decode_triple_def Let_def
  numeral_3_eq_3 numeral_2_eq_2

lemma decode_loop_group:
  assumes "length a4 = 4" and "k0 < 64" "k1 < 64" "k2 < 64" "k3 < 64"
  shows "decode_loop 0 a4 ret (map sextet_char [k0, k1, k2, k3] @ cs) =
     decode_loop 0 (map of_nat [k0, k1, k2, k3]) (ret @ decode_triple (map of_nat [k0, k1, k2, k3])) cs"
  using assms(2-) length_4 [OF assms(1)] by (auto simp: four_steps simp del: decode_loop.simps)

lemma of_nat_sextets: "map of_nat (sextets (group24 a b c)) = encode_quad [a, b, c]"
  proof -
  have "map of_nat (map unat xs) = (xs :: bytes)" for xs by (induction xs) simp_all
  then show ?thesis by (simp only: encode_quad_unat [symmetric])
qed

lemma decode_triple_quad: "decode_triple (encode_quad [a, b, c]) = [a, b, c]"
  by (simp only: decode_triple_def decode_first decode_second decode_third)

lemma quad_obtain:
  obtains k0 k1 k2 k3 where "sextets (group24 a b c) = [k0, k1, k2, k3]"
    and "k0 < 64" and "k1 < 64" and "k2 < 64" and "k3 < 64"
    and "encode_quad [a, b, c] = map of_nat [k0, k1, k2, k3]"
proof -
  obtain k0 k1 k2 k3 where k: "sextets (group24 a b c) = [k0, k1, k2, k3]"
    unfolding sextets_def by blast
  with sextets_lt [of "group24 a b c"] of_nat_sextets [of a b c] show ?thesis
    by (intro that [of k0 k1 k2 k3]) simp_all
qed

lemma decode_rest_one:
  assumes "length a4 = 4"
  shows "(case decode_loop 0 a4 ret (rfc4648 [a]) of (i, a4', r) \<Rightarrow> decode_tail i a4' r) = ret @ [a]"
proof (rule quad_obtain [of a 0 0])
  fix k0 k1 k2 k3
  assume k: "sextets (group24 a 0 0) = [k0, k1, k2, k3]" "k0 < 64" "k1 < 64"
    and q: "encode_quad [a, 0, 0] = map of_nat [k0, k1, k2, k3]"
  have "push_bit 2 (of_nat k0) + drop_bit 4 (of_nat k1 AND 0x30) = a"
    using decode_first [of a 0 0] by (simp add: q)
  moreover obtain w x y z where "a4 = [w, x, y, z]" using length_4 [OF assms] by blast
  ultimately show ?thesis using k(2,3) by (simp add: k(1) four_steps sextet_char_ok)
qed

lemma decode_rest_two:
  assumes "length a4 = 4"
  shows "(case decode_loop 0 a4 ret (rfc4648 [a, b]) of (i, a4', r) \<Rightarrow> decode_tail i a4' r)
    = ret @ [a, b]"
proof (rule quad_obtain [of a b 0])
  fix k0 k1 k2 k3
  assume k: "sextets (group24 a b 0) = [k0, k1, k2, k3]" "k0 < 64" "k1 < 64" "k2 < 64"
    and q: "encode_quad [a, b, 0] = map of_nat [k0, k1, k2, k3]"
  have "push_bit 2 (of_nat k0) + drop_bit 4 (of_nat k1 AND 0x30) = a"
    and "push_bit 4 (of_nat k1 AND 0xf) + drop_bit 2 (of_nat k2 AND 0x3c) = b"
    using decode_first [of a b 0] decode_second [of a b 0] by (simp_all add: q)
  moreover obtain w x y z where "a4 = [w, x, y, z]" using length_4 [OF assms] by blast
  ultimately show ?thesis using k(2-4) by (simp add: k(1) four_steps sextet_char_ok)
qed

lemma decode_loop_rfc4648:
  "length a4 = 4 \<Longrightarrow>
   (case decode_loop 0 a4 ret (rfc4648 bs) of (i, a4', r) \<Rightarrow> decode_tail i a4' r) = ret @ bs"
proof (induction bs arbitrary: a4 ret rule: rfc4648.induct)
  case 1
  then show ?case by (simp add: decode_tail_def)
next
  case (2 a)
  then show ?case by (rule decode_rest_one)
next
  case (3 a b)
  then show ?case by (rule decode_rest_two)
next
  case (4 a b c bs)
  show ?case
  proof (rule quad_obtain [of a b c])
    fix k0 k1 k2 k3
    assume k: "sextets (group24 a b c) = [k0, k1, k2, k3]" "k0 < 64" "k1 < 64" "k2 < 64" "k3 < 64"
      and q: "encode_quad [a, b, c] = map of_nat [k0, k1, k2, k3]"
    have "decode_loop 0 a4 ret (rfc4648 (a # b # c # bs)) =
        decode_loop 0 (map of_nat [k0, k1, k2, k3]) (ret @ [a, b, c]) (rfc4648 bs)"
      using decode_loop_group [OF 4(2) k(2-5), of ret "rfc4648 bs"]
        decode_triple_quad [of a b c, unfolded q]
      by (simp only: rfc4648.simps k(1))
    with 4(1) [of "map of_nat [k0, k1, k2, k3]" "ret @ [a, b, c]"] show ?thesis by simp
  qed
qed

section \<open>Properties\<close>

lemma encode_eq: "base64_encode bs = rfc4648 bs"
  using encode_loop_rfc4648 [of "[0, 0, 0]" "[]" bs] by (simp add: base64_encode_def)

text \<open>
  C23: \<open>base64_encode\<close>, with its loop over \<open>char_array_3\<close> and its tail, computes the
  encoding of RFC 4648 for every input: the arithmetic on 24-bit groups, with the padding.
\<close>

theorem base64_encode_rfc4648: "base64_encode bs = rfc4648 bs"
  by (rule encode_eq)



lemma length_rfc4648: "length (rfc4648 bs) = 4 * ((length bs + 2) div 3)"
proof (induction bs rule: rfc4648.induct)
  case (4 a b c bs)
  have "(length (a # b # c # bs) + 2) div 3 = Suc ((length bs + 2) div 3)" by simp
  with 4 show ?case by (simp add: sextets_def)
qed (simp_all add: sextets_def)

lemma rfc4648_alphabet: "\<forall>c \<in> set (rfc4648 bs). is_base64 c \<or> c = 61"
  by (induction bs rule: rfc4648.induct) (auto simp: sextets_def sextet_char_ok)

text \<open>
  The encoded text of \<open>n\<close> bytes has \<open>4 * ceil(n / 3)\<close> characters, each of the
  alphabet or the padding sign; the key answered to a websocket handshake (20 bytes of SHA-1)
  has 28.
\<close>

theorem base64_encode_shape:
  "length (base64_encode bs) = 4 * ((length bs + 2) div 3) \<and>
   list_all (\<lambda>c. is_base64 c \<or> c = 61) (base64_encode bs)"
  using rfc4648_alphabet by (simp add: encode_eq length_rfc4648 list_all_iff)

end
