(* ===== verification/Std_Heap.thy ===== *)
theory Std_Heap
  imports Main "HOL-Library.Multiset"
begin

text \<open>
  \<open>std::priority_queue\<close> over a \<open>std::vector\<close>: \<open>push\<close> appends and restores the heap
  upwards (\<open>push_heap\<close>), \<open>pop\<close> swaps the first and the last element, drops the last and
  restores the heap downwards (\<open>pop_heap\<close>). The order is by a key, the smallest key on top.
  The laws its clients use are the locale \<open>min_queue\<close>.
\<close>

section \<open>The interface\<close>

locale min_queue =
  fixes push :: "'a \<Rightarrow> 'q \<Rightarrow> 'q"
    and top :: "'q \<Rightarrow> 'a"
    and pop :: "'q \<Rightarrow> 'q"
    and elems :: "'q \<Rightarrow> 'a multiset"
    and inv :: "'q \<Rightarrow> bool"
    and key :: "'a \<Rightarrow> 'k::linorder"
  assumes push_elems: "inv q \<Longrightarrow> elems (push x q) = add_mset x (elems q)"
    and push_inv: "inv q \<Longrightarrow> inv (push x q)"
    and top_elem: "inv q \<Longrightarrow> elems q \<noteq> {#} \<Longrightarrow> top q \<in># elems q"
    and top_min: "inv q \<Longrightarrow> x \<in># elems q \<Longrightarrow> key (top q) \<le> key x"
    and pop_elems: "inv q \<Longrightarrow> elems q \<noteq> {#} \<Longrightarrow> elems (pop q) = elems q - {#top q#}"
    and pop_inv: "inv q \<Longrightarrow> elems q \<noteq> {#} \<Longrightarrow> inv (pop q)"
begin

lemma top_key_Min:
  assumes "inv q" and "elems q \<noteq> {#}"
  shows "key (top q) = Min (key ` set_mset (elems q))"
proof (rule Min_eqI [symmetric])
  show "finite (key ` set_mset (elems q))" by simp
  show "key (top q) \<in> key ` set_mset (elems q)" using assms top_elem by simp
  fix y
  assume "y \<in> key ` set_mset (elems q)"
  then show "key (top q) \<le> y" using assms top_min by auto
qed

lemma pop_later:
  assumes "inv q" and "elems q \<noteq> {#}" and "x \<in># elems (pop q)"
  shows "key (top q) \<le> key x"
  using assms pop_elems top_min by (metis in_diffD)

lemma size_pop: "inv q \<Longrightarrow> elems q \<noteq> {#} \<Longrightarrow> size (elems (pop q)) < size (elems q)"
  using pop_elems top_elem by (simp add: size_Diff1_less)

lemma elems_split: "inv q \<Longrightarrow> elems q \<noteq> {#} \<Longrightarrow> elems q = add_mset (top q) (elems (pop q))"
  using pop_elems top_elem by simp

end

section \<open>The heap\<close>

definition swap :: "'a list \<Rightarrow> nat \<Rightarrow> nat \<Rightarrow> 'a list" where
  "swap xs i j = xs[i := xs ! j, j := xs ! i]"

function sift_up :: "('a \<Rightarrow> 'k::linorder) \<Rightarrow> 'a list \<Rightarrow> nat \<Rightarrow> 'a list" where
  "sift_up key xs i =
     (if i = 0 then xs
      else let p = (i - 1) div 2 in
        if key (xs ! i) < key (xs ! p) then sift_up key (swap xs i p) p else xs)"
  by pat_completeness auto
termination
  by (relation "measure (\<lambda>(key, xs, i). i)") auto

definition least_child :: "('a \<Rightarrow> 'k::linorder) \<Rightarrow> 'a list \<Rightarrow> nat \<Rightarrow> nat" where
  "least_child key xs i =
     (if 2 * i + 2 < length xs \<and> key (xs ! (2 * i + 2)) < key (xs ! (2 * i + 1))
      then 2 * i + 2 else 2 * i + 1)"

function sift_down :: "('a \<Rightarrow> 'k::linorder) \<Rightarrow> 'a list \<Rightarrow> nat \<Rightarrow> 'a list" where
  "sift_down key xs i =
     (if length xs \<le> 2 * i + 1 then xs
      else let c = least_child key xs i in
        if key (xs ! c) < key (xs ! i) then sift_down key (swap xs i c) c else xs)"
  by pat_completeness auto
termination
  by (relation "measure (\<lambda>(key, xs, i). length xs - i)") (auto simp: least_child_def swap_def split: if_splits)

declare sift_up.simps [simp del] sift_down.simps [simp del]

definition heap_push :: "('a \<Rightarrow> 'k::linorder) \<Rightarrow> 'a \<Rightarrow> 'a list \<Rightarrow> 'a list" where
  "heap_push key x xs = sift_up key (xs @ [x]) (length xs)"

definition heap_top :: "'a list \<Rightarrow> 'a" where
  "heap_top xs = xs ! 0"

definition heap_pop :: "('a \<Rightarrow> 'k::linorder) \<Rightarrow> 'a list \<Rightarrow> 'a list" where
  "heap_pop key xs = sift_down key (butlast (swap xs 0 (length xs - 1))) 0"

section \<open>The heap property\<close>

definition parent :: "nat \<Rightarrow> nat" where
  "parent i = (i - 1) div 2"

definition is_heap :: "('a \<Rightarrow> 'k::linorder) \<Rightarrow> 'a list \<Rightarrow> bool" where
  "is_heap key xs \<longleftrightarrow> (\<forall>i < length xs. 0 < i \<longrightarrow> key (xs ! parent i) \<le> key (xs ! i))"

text \<open>
  The heap property everywhere but between \<open>i\<close> and its parent, resp. its children; the parent
  of \<open>i\<close> is below the children of \<open>i\<close>.
\<close>

definition heap_but_up :: "('a \<Rightarrow> 'k::linorder) \<Rightarrow> 'a list \<Rightarrow> nat \<Rightarrow> bool" where
  "heap_but_up key xs i \<longleftrightarrow>
     (\<forall>j < length xs. 0 < j \<longrightarrow> j \<noteq> i \<longrightarrow> key (xs ! parent j) \<le> key (xs ! j)) \<and>
     (\<forall>j < length xs. 0 < i \<longrightarrow> 0 < j \<longrightarrow> parent j = i \<longrightarrow> key (xs ! parent i) \<le> key (xs ! j))"

definition heap_but_down :: "('a \<Rightarrow> 'k::linorder) \<Rightarrow> 'a list \<Rightarrow> nat \<Rightarrow> bool" where
  "heap_but_down key xs i \<longleftrightarrow>
     (\<forall>j < length xs. 0 < j \<longrightarrow> parent j \<noteq> i \<longrightarrow> key (xs ! parent j) \<le> key (xs ! j)) \<and>
     (\<forall>j < length xs. 0 < i \<longrightarrow> 0 < j \<longrightarrow> parent j = i \<longrightarrow> key (xs ! parent i) \<le> key (xs ! j))"

lemma parent_less: "0 < i \<Longrightarrow> parent i < i"
  by (simp add: parent_def)

lemma length_swap [simp]: "length (swap xs i j) = length xs"
  by (simp add: swap_def)

lemma nth_swap:
  "i < length xs \<Longrightarrow> j < length xs \<Longrightarrow> k < length xs \<Longrightarrow>
   swap xs i j ! k = (if k = j then xs ! i else if k = i then xs ! j else xs ! k)"
  by (auto simp: swap_def nth_list_update)

lemma mset_swap [simp]: "i < length xs \<Longrightarrow> j < length xs \<Longrightarrow> mset (swap xs i j) = mset xs"
  by (simp add: swap_def mset_swap)

lemma sift_up_mset: "i < length xs \<Longrightarrow> mset (sift_up key xs i) = mset xs"
proof (induction key xs i rule: sift_up.induct)
  case (1 key xs i)
  have "parent i < length xs" using 1(2) by (simp add: parent_def)
  with 1 show ?case by (subst sift_up.simps) (auto simp: Let_def parent_def)
qed

lemma sift_down_mset: "i < length xs \<Longrightarrow> mset (sift_down key xs i) = mset xs"
proof (induction key xs i rule: sift_down.induct)
  case (1 key xs i)
  have "\<not> length xs \<le> 2 * i + 1 \<Longrightarrow> least_child key xs i < length xs"
    by (auto simp: least_child_def)
  with 1 show ?case by (subst sift_down.simps) (auto simp: Let_def)
qed

lemma heap_but_up_step:
  assumes "heap_but_up key xs i" and "0 < i" and "i < length xs" and "key (xs ! i) < key (xs ! parent i)"
  shows "heap_but_up key (swap xs i (parent i)) (parent i)"
proof -
  let ?p = "parent i" and ?ys = "swap xs i (parent i)"
  have p: "?p < i" "?p < length xs" using assms(2,3) parent_less [of i] by simp_all
  have heap: "key (xs ! parent j) \<le> key (xs ! j)" if "j < length xs" "0 < j" "j \<noteq> i" for j
    using assms(1) that by (simp add: heap_but_up_def)
  have below: "key (xs ! ?p) \<le> key (xs ! j)" if "j < length xs" "0 < j" "parent j = i" for j
    using assms(1,2) that by (simp add: heap_but_up_def)
  have nth: "?ys ! k = (if k = ?p then xs ! i else if k = i then xs ! ?p else xs ! k)"
    if "k < length xs" for k
    using that assms(3) p by (simp add: nth_swap)
  have "key (?ys ! parent j) \<le> key (?ys ! j)" if j: "j < length xs" "0 < j" "j \<noteq> ?p" for j
  proof -
    have pj: "parent j < j" using j by (simp add: parent_less)
    consider "j = i" | "j \<noteq> i" "parent j = i" | "j \<noteq> i" "parent j = ?p" | "j \<noteq> i" "parent j \<noteq> i" "parent j \<noteq> ?p"
      by blast
    then show ?thesis
      using j pj p assms(4) heap [of j] below [of j] by cases (auto simp: nth)
  qed
  moreover have "key (?ys ! parent ?p) \<le> key (?ys ! j)"
    if j: "j < length xs" "0 < ?p" "0 < j" "parent j = ?p" for j
  proof -
    have pp: "parent ?p < ?p" "j \<noteq> ?p" using j parent_less [of ?p] parent_less [of j] by auto
    have "key (xs ! parent ?p) \<le> key (xs ! ?p)" using heap [of ?p] p j by simp
    then show ?thesis using j pp p heap [of j] by (cases "j = i") (auto simp: nth)
  qed
  ultimately show ?thesis by (simp add: heap_but_up_def)
qed

lemma sift_up_heap: "i < length xs \<Longrightarrow> heap_but_up key xs i \<Longrightarrow> is_heap key (sift_up key xs i)"
proof (induction key xs i rule: sift_up.induct)
  case (1 key xs i)
  show ?case
  proof (cases "0 < i \<and> key (xs ! i) < key (xs ! parent i)")
    case True
    with heap_but_up_step [OF 1(3)] 1(2) have "heap_but_up key (swap xs i (parent i)) (parent i)" by simp
    with True 1 show ?thesis
      by (subst sift_up.simps) (simp add: Let_def parent_def)
  next
    case False
    with 1(2,3) show ?thesis
      by (subst sift_up.simps) (auto simp: Let_def parent_def is_heap_def heap_but_up_def)
  qed
qed


lemma parent_child: "parent j = i \<Longrightarrow> 0 < j \<Longrightarrow> j = 2 * i + 1 \<or> j = 2 * i + 2"
  by (auto simp: parent_def)

lemma least_child_props:
  assumes "\<not> length xs \<le> 2 * i + 1"
  shows "least_child key xs i < length xs" "parent (least_child key xs i) = i" "i < least_child key xs i"
  using assms by (auto simp: least_child_def parent_def)

lemma least_child_least:
  assumes "j < length xs" and "0 < j" and "parent j = i"
  shows "key (xs ! least_child key xs i) \<le> key (xs ! j)"
  using parent_child [OF assms(3,2)] assms(1) by (auto simp: least_child_def)

lemma heap_but_down_step:
  assumes "heap_but_down key xs i" and "\<not> length xs \<le> 2 * i + 1"
    and "c = least_child key xs i" and "key (xs ! c) < key (xs ! i)"
  shows "heap_but_down key (swap xs i c) c"
proof -
  let ?ys = "swap xs i c"
  note c = least_child_props [OF assms(2), where key = key, folded assms(3)]
  have heap: "key (xs ! parent j) \<le> key (xs ! j)" if "j < length xs" "0 < j" "parent j \<noteq> i" for j
    using assms(1) that by (simp add: heap_but_down_def)
  have below: "key (xs ! parent i) \<le> key (xs ! j)" if "j < length xs" "0 < i" "0 < j" "parent j = i" for j
    using assms(1) that by (simp add: heap_but_down_def)
  have nth: "?ys ! k = (if k = c then xs ! i else if k = i then xs ! c else xs ! k)"
    if "k < length xs" for k
    using that c by (simp add: nth_swap)
  have "key (?ys ! parent j) \<le> key (?ys ! j)" if j: "j < length xs" "0 < j" "parent j \<noteq> c" for j
  proof -
    have pj: "parent j < j" using j by (simp add: parent_less)
    consider "parent j = i" | "j = i" | "parent j \<noteq> i" "j \<noteq> i" by blast
    then show ?thesis
    proof cases
      case 1
      have "key (xs ! c) \<le> key (xs ! j)"
        using least_child_least [OF j(1,2) 1] by (simp add: assms(3))
      then show ?thesis using 1 j pj c assms(4) by (cases "j = c") (simp_all add: nth)
    next
      case 2
      then have "j \<noteq> c" "parent j \<noteq> i" using c(3) pj by auto
      then show ?thesis using 2 j pj below [OF c(1)] c by (auto simp: nth)
    next
      case 3
      then show ?thesis using j pj heap [of j] c by (auto simp: nth)
    qed
  qed
  moreover have "key (?ys ! parent c) \<le> key (?ys ! j)" if j: "j < length xs" "0 < j" "parent j = c" for j
  proof -
    have "c < j" using parent_less [of j] j by simp
    then show ?thesis using j c heap [of j] by (auto simp: nth)
  qed
  ultimately show ?thesis by (simp add: heap_but_down_def)
qed

lemma sift_down_heap:
  "i < length xs \<Longrightarrow> heap_but_down key xs i \<Longrightarrow> is_heap key (sift_down key xs i)"
proof (induction key xs i rule: sift_down.induct)
  case (1 key xs i)
  let ?c = "least_child key xs i"
  consider "length xs \<le> 2 * i + 1"
    | "\<not> length xs \<le> 2 * i + 1" "key (xs ! ?c) < key (xs ! i)"
    | "\<not> length xs \<le> 2 * i + 1" "\<not> key (xs ! ?c) < key (xs ! i)"
    by blast
  then show ?case
  proof cases
    case 1
    then have "parent j \<noteq> i" if "j < length xs" "0 < j" for j
      using parent_child [of j i] that by auto
    with 1 "1.prems" show ?thesis
      by (subst sift_down.simps) (simp add: is_heap_def heap_but_down_def)
  next
    case 2
    with "1.IH" "1.prems" heap_but_down_step [of key xs i ?c] least_child_props [of xs i key] show ?thesis
      by (subst sift_down.simps) (simp add: Let_def)
  next
    case 3
    have "key (xs ! i) \<le> key (xs ! j)" if "j < length xs" "0 < j" "parent j = i" for j
      using least_child_least [OF that, of key] 3(2) by simp
    with 3 "1.prems" show ?thesis
      by (subst sift_down.simps) (auto simp: Let_def is_heap_def heap_but_down_def)
  qed
qed

section \<open>Push, top and pop\<close>

lemma heap_push_heap: "is_heap key xs \<Longrightarrow> is_heap key (heap_push key x xs)"
  unfolding heap_push_def
proof (rule sift_up_heap)
  assume h: "is_heap key xs"
  have "parent j < length xs" if "j < Suc (length xs)" "0 < j" for j
    using that parent_less [of j] by simp
  moreover have "parent j \<noteq> length xs" if "j < Suc (length xs)" "0 < j" for j
    using that parent_less [of j] by simp
  ultimately show "heap_but_up key (xs @ [x]) (length xs)"
    using h by (auto simp: heap_but_up_def is_heap_def nth_append)
qed simp

lemma heap_push_mset: "mset (heap_push key x xs) = add_mset x (mset xs)"
  by (simp add: heap_push_def sift_up_mset)

lemma heap_top_min: "is_heap key xs \<Longrightarrow> i < length xs \<Longrightarrow> key (heap_top xs) \<le> key (xs ! i)"
proof (induction i rule: less_induct)
  case (less i)
  show ?case
  proof (cases "i = 0")
    case False
    then have "key (heap_top xs) \<le> key (xs ! parent i)"
      using less parent_less [of i] by simp
    also have "\<dots> \<le> key (xs ! i)" using less.prems False by (simp add: is_heap_def)
    finally show ?thesis .
  qed (simp add: heap_top_def)
qed

lemma butlast_swap_mset:
  assumes "xs \<noteq> []"
  shows "mset (butlast (swap xs 0 (length xs - 1))) = mset xs - {#heap_top xs#}"
proof -
  let ?ys = "swap xs 0 (length xs - 1)"
  have "?ys \<noteq> []" using assms by (metis length_0_conv length_swap)
  then have "last ?ys = ?ys ! (length ?ys - 1)" by (rule last_conv_nth)
  also have "\<dots> = xs ! 0" using assms by (cases xs) (simp_all add: nth_swap)
  finally have "last ?ys = xs ! 0" .
  moreover have "mset ?ys = mset xs" using assms by simp
  ultimately show ?thesis
    using \<open>?ys \<noteq> []\<close> by (metis add_mset_remove_trivial append_butlast_last_id heap_top_def
        mset.simps(1) mset.simps(2) mset_append union_mset_add_mset_right add_0_right)
qed

lemma heap_pop_mset:
  assumes "xs \<noteq> []"
  shows "mset (heap_pop key xs) = mset xs - {#heap_top xs#}"
proof (cases "length xs = 1")
  case True
  then show ?thesis
    using butlast_swap_mset [OF assms] by (auto simp: heap_pop_def sift_down.simps length_Suc_conv swap_def)
next
  case False
  then have "0 < length (butlast (swap xs 0 (length xs - 1)))" using assms by (cases xs) auto
  then show ?thesis
    using butlast_swap_mset [OF assms] by (simp add: heap_pop_def sift_down_mset)
qed

lemma heap_pop_heap:
  assumes "is_heap key xs" and "xs \<noteq> []"
  shows "is_heap key (heap_pop key xs)"
proof (cases "length xs = 1")
  case True
  then show ?thesis by (auto simp: heap_pop_def sift_down.simps is_heap_def length_Suc_conv swap_def)
next
  case False
  let ?n = "length xs - 1" and ?ys = "butlast (swap xs 0 (length xs - 1))"
  have n: "0 < ?n" using False assms(2) by (cases xs) auto
  have nth: "?ys ! k = xs ! k" if "0 < k" "k < ?n" for k
    using that n by (cases xs) (simp_all add: nth_butlast nth_swap)
  have "key (?ys ! parent j) \<le> key (?ys ! j)" if "j < ?n" "0 < j" "parent j \<noteq> 0" for j
    using that parent_less [of j] assms(1) nth by (simp add: is_heap_def)
  then have "heap_but_down key ?ys 0" by (simp add: heap_but_down_def)
  then show ?thesis
    using n by (simp add: heap_pop_def sift_down_heap)
qed

interpretation std_heap: min_queue "heap_push key" heap_top "heap_pop key" mset "is_heap key" key
  for key :: "'a \<Rightarrow> 'k::linorder"
proof (unfold_locales, goal_cases)
  case (1 q x) show ?case by (rule heap_push_mset)
next
  case (2 q x) then show ?case by (rule heap_push_heap)
next
  case (3 q) then show ?case by (simp add: heap_top_def)
next
  case (4 q x) then show ?case by (metis heap_top_min in_set_conv_nth set_mset_mset)
next
  case (5 q) then show ?case by (simp add: heap_pop_mset)
next
  case (6 q) then show ?case by (simp add: heap_pop_heap)
qed

end
