(* ===== verification/Timer.thy ===== *)
theory Timer
  imports Prelude Std_Heap
begin

text \<open>
  \<open>include/timer.h\<close> and \<open>src/timer.cc\<close>: timers in a \<open>std::priority_queue\<close> ordered by
  \<open>CompareTimerPointer\<close> (the earliest \<open>exec_msec\<close> on top). Times are 64-bit milliseconds
  and wrap as the code's \<open>uint64_t\<close> does. What \<open>gettimeofday\<close> answers is given by the
  environment: \<open>clock i\<close> is its \<open>i\<close>-th answer, in seconds and microseconds.
\<close>

section \<open>State\<close>

text \<open>
  The type of the callbacks is a parameter: \<open>timer_func_t\<close> with its argument
  \<open>private_data\<close>, an address. The back pointer \<open>timer_manager\<close> is never read.
\<close>

record 'f timer =
  timeout :: u64
  exec_msec :: u64
  callback :: 'f
  private_data :: nat

record 'f timer_world =
  timers :: "'f timer list"
  clock :: "nat \<Rightarrow> int \<times> int"
  clock_reads :: nat

definition Timer_SECOND :: u64 where "Timer_SECOND = 1000"
definition Timer_MILLI_SECOND :: u64 where "Timer_MILLI_SECOND = 1"

section \<open>Operations\<close>

definition get_current_ms :: "('f, 'z) timer_world_scheme \<Rightarrow> u64 \<times> ('f, 'z) timer_world_scheme" where
  "get_current_ms w =
     (case clock w (clock_reads w) of (tv_sec, tv_usec) \<Rightarrow>
        (of_int (tv_sec * 1000 + tv_usec div 1000), w\<lparr>clock_reads := Suc (clock_reads w)\<rparr>))"

definition Timer_new :: "u64 \<Rightarrow> u64 \<Rightarrow> 'f \<Rightarrow> nat \<Rightarrow> 'f timer" where
  "Timer_new now t f d = \<lparr>timeout = t, exec_msec = now + t, callback = f, private_data = d\<rparr>"

definition add_timer ::
    "u64 \<Rightarrow> 'f \<Rightarrow> nat \<Rightarrow> ('f, 'z) timer_world_scheme \<Rightarrow> ('f, 'z) timer_world_scheme" where
  "add_timer t f d w =
     (case get_current_ms w of (now, w) \<Rightarrow>
        w\<lparr>timers := heap_push exec_msec (Timer_new now t f d) (timers w)\<rparr>)"

text \<open>The difference is taken on 64 bits and read as an \<open>int64_t\<close>.\<close>

definition get_next_timeout :: "('f, 'z) timer_world_scheme \<Rightarrow> int \<times> ('f, 'z) timer_world_scheme" where
  "get_next_timeout w =
     (if timers w = [] then (-1, w)
      else case get_current_ms w of (now, w) \<Rightarrow>
        let diff = sint (exec_msec (heap_top (timers w)) - now)
        in (if diff < 0 then 0 else diff, w))"

text \<open>
  The loop of \<open>run_timers\<close>. \<open>call f d\<close> runs a callback on its argument; it may add timers,
  end in a fault, or not return (\<open>None\<close>), so the loop has fuel.
\<close>

primrec run_timers_loop ::
    "nat \<Rightarrow> ('f \<Rightarrow> nat \<Rightarrow> ('f, 'z) timer_world_scheme \<Rightarrow> ('f, 'z) timer_world_scheme res option) \<Rightarrow>
     u64 \<Rightarrow> ('f, 'z) timer_world_scheme \<Rightarrow> ('f, 'z) timer_world_scheme res option" where
  "run_timers_loop 0 call now w = None"
| "run_timers_loop (Suc n) call now w =
     (if timers w = [] then Some (Inr w)
      else let t = heap_top (timers w) in
        if now < exec_msec t then Some (Inr w)
        else (case call (callback t) (private_data t) (w\<lparr>timers := heap_pop exec_msec (timers w)\<rparr>) of
            None \<Rightarrow> None
          | Some (Inl e) \<Rightarrow> Some (Inl e)
          | Some (Inr w') \<Rightarrow> run_timers_loop n call now w'))"

definition run_timers ::
    "nat \<Rightarrow> ('f \<Rightarrow> nat \<Rightarrow> ('f, 'z) timer_world_scheme \<Rightarrow> ('f, 'z) timer_world_scheme res option) \<Rightarrow>
     ('f, 'z) timer_world_scheme \<Rightarrow> ('f, 'z) timer_world_scheme res option" where
  "run_timers n call w = (case get_current_ms w of (now, w) \<Rightarrow> run_timers_loop n call now w)"

section \<open>The timer queue\<close>

definition timers_wf :: "('f, 'z) timer_world_scheme \<Rightarrow> bool" where
  "timers_wf w \<longleftrightarrow> is_heap exec_msec (timers w)"

lemma timers_get_current_ms [simp]: "timers (snd (get_current_ms w)) = timers w"
  by (simp add: get_current_ms_def split: prod.splits)

lemma get_current_msD: "get_current_ms w = (now, w') \<Longrightarrow> timers w' = timers w"
  by (metis snd_conv timers_get_current_ms)

lemma add_timer_wf [wf_intros]: "timers_wf w \<Longrightarrow> timers_wf (add_timer t f d w)"
  by (auto simp: timers_wf_def add_timer_def get_current_msD heap_push_heap split: prod.splits)

lemma mset_add_timer:
  "mset (timers (add_timer t f d w)) =
     add_mset (Timer_new (fst (get_current_ms w)) t f d) (mset (timers w))"
  by (auto simp: add_timer_def heap_push_mset dest: get_current_msD split: prod.splits)

lemma top_is_earliest:
  "timers_wf w \<Longrightarrow> t \<in> set (timers w) \<Longrightarrow> exec_msec (heap_top (timers w)) \<le> exec_msec t"
  using std_heap.top_min [of exec_msec "timers w" t] by (simp add: timers_wf_def)

lemma signed_take_bit_of_nat_diff:
  assumes "m < 2 ^ n" and "k < 2 ^ n"
  shows "signed_take_bit n (int m - int k) = int m - int k"
proof -
  have "int m < 2 ^ n" "int k < 2 ^ n"
    using assms by simp_all
  then show ?thesis by (subst signed_take_bit_int_eq_self_iff) linarith
qed

lemma sint_small: "unat (x :: u64) < 2 ^ 63 \<Longrightarrow> sint x = int (unat x)"
  using signed_take_bit_of_nat_diff [of "unat x" 63 0] by (simp add: sint_uint)

lemma sint_diff_small:
  assumes "unat (a :: u64) < 2 ^ 63" and "unat b < 2 ^ 63"
  shows "sint (a - b) = int (unat a) - int (unat b)"
  using signed_take_bit_of_nat_diff [OF assms] sint_small [OF assms(1)] sint_small [OF assms(2)]
  by (simp add: sint_word_diff)

text \<open>
  \<open>get_next_timeout\<close> is the wait that \<open>epoll_wait\<close> needs: at time \<open>now\<close> with timers
  pending, in the range where 64-bit milliseconds do not reach the sign bit, the returned wait
  is how long until the earliest timer: no timer is due before \<open>now + wait\<close> unless it is
  due already, and one is due then.
\<close>

theorem get_next_timeout_earliest:
  assumes "timers_wf w" and "timers w \<noteq> []" and "get_current_ms w = (now, w')"
    and "unat now < 2 ^ 63" and "\<forall>t \<in> set (timers w). unat (exec_msec t) < 2 ^ 63"
  shows "\<exists>wait. get_next_timeout w = (int wait, w') \<and>
    (\<exists>t \<in> set (timers w). unat (exec_msec t) \<le> unat now + wait) \<and>
    (\<forall>t \<in> set (timers w). 0 < wait \<longrightarrow> unat now + wait \<le> unat (exec_msec t))"
proof -
  let ?t = "heap_top (timers w)"
  let ?wait = "unat (exec_msec ?t) - unat now"
  have t: "?t \<in> set (timers w)" using assms(2) by (simp add: heap_top_def)
  then have "sint (exec_msec ?t - now) = int (unat (exec_msec ?t)) - int (unat now)"
    using assms(4,5) by (simp add: sint_diff_small)
  then have "get_next_timeout w = (int ?wait, w')"
    using assms(2,3) get_current_msD [OF assms(3)]
    by (auto simp: get_next_timeout_def Let_def simp del: of_nat_unat)
  moreover have "unat (exec_msec ?t) \<le> unat (exec_msec x)" if "x \<in> set (timers w)" for x
    using top_is_earliest [OF assms(1) that] by (simp add: word_le_nat_alt)
  ultimately show ?thesis using t by (intro exI [of _ ?wait]) force
qed

text \<open>The earliest of the pending timers, at 5 ms past a clock reading of 0 ms.\<close>

definition clock_witness :: "nat timer_world" where
  "clock_witness = \<lparr>timers = [], clock = (\<lambda>i. (0, 0)), clock_reads = 0\<rparr>"

theorem get_next_timeout_earliest_witness:
  "\<exists>wait. get_next_timeout (add_timer 5 (7::nat) 0 clock_witness) =
     (int wait, clock_witness\<lparr>timers := [Timer_new 0 5 7 0], clock_reads := 2\<rparr>) \<and> wait \<le> 5"
proof -
  let ?w = "add_timer 5 7 0 clock_witness"
  have w: "?w = clock_witness\<lparr>timers := [Timer_new 0 5 7 0], clock_reads := 1\<rparr>"
    by (simp add: add_timer_def get_current_ms_def clock_witness_def heap_push_def sift_up.simps)
  have 1: "timers_wf ?w" by (rule add_timer_wf) (simp add: clock_witness_def timers_wf_def is_heap_def)
  have 2: "timers ?w \<noteq> []" by (simp add: w)
  have 3: "get_current_ms ?w = (0, clock_witness\<lparr>timers := [Timer_new 0 5 7 0], clock_reads := 2\<rparr>)"
    unfolding w by (simp add: get_current_ms_def clock_witness_def)
  have 4: "unat (0 :: u64) < 2 ^ 63" by simp
  have 5: "\<forall>t \<in> set (timers ?w). unat (exec_msec t) < 2 ^ 63" by (simp add: w Timer_new_def)
  obtain wait where g: "get_next_timeout ?w = (int wait, clock_witness\<lparr>timers := [Timer_new 0 5 7 0], clock_reads := 2\<rparr>)"
    and l: "\<forall>t \<in> set (timers ?w). 0 < wait \<longrightarrow> unat (0 :: u64) + wait \<le> unat (exec_msec t)"
    using get_next_timeout_earliest [OF 1 2 3 4 5] by blast
  from l have "wait \<le> 5" by (cases "0 < wait") (simp_all add: w Timer_new_def)
  with g show ?thesis by blast
qed

section \<open>Running timers\<close>

text \<open>The timers that a run of the loop takes from the queue, in order.\<close>

primrec fired ::
    "nat \<Rightarrow> ('f \<Rightarrow> nat \<Rightarrow> ('f, 'z) timer_world_scheme \<Rightarrow> ('f, 'z) timer_world_scheme res option) \<Rightarrow>
     u64 \<Rightarrow> ('f, 'z) timer_world_scheme \<Rightarrow> 'f timer list" where
  "fired 0 call now w = []"
| "fired (Suc n) call now w =
     (if timers w = [] \<or> now < exec_msec (heap_top (timers w)) then []
      else let t = heap_top (timers w) in
        t # (case call (callback t) (private_data t) (w\<lparr>timers := heap_pop exec_msec (timers w)\<rparr>) of
            Some (Inr w') \<Rightarrow> fired n call now w'
          | _ \<Rightarrow> []))"

definition keeps_heap ::
    "('f \<Rightarrow> nat \<Rightarrow> ('f, 'z) timer_world_scheme \<Rightarrow> ('f, 'z) timer_world_scheme res option) \<Rightarrow> bool" where
  "keeps_heap call \<longleftrightarrow> (\<forall>f d w w'. call f d w = Some (Inr w') \<longrightarrow> timers_wf w \<longrightarrow> timers_wf w')"

lemma pop_wf: "timers_wf w \<Longrightarrow> timers w \<noteq> [] \<Longrightarrow> timers_wf (w\<lparr>timers := heap_pop exec_msec (timers w)\<rparr>)"
  by (simp add: timers_wf_def heap_pop_heap)

lemma run_timers_loop_drains:
  "keeps_heap call \<Longrightarrow> timers_wf w \<Longrightarrow> run_timers_loop n call now w = Some (Inr w') \<Longrightarrow>
   timers_wf w' \<and> (\<forall>t \<in> set (timers w'). now < exec_msec t) \<and>
   (\<forall>t \<in> set (fired n call now w). exec_msec t \<le> now)"
proof (induction n arbitrary: w)
  case 0
  then show ?case by simp
next
  case (Suc n)
  let ?t = "heap_top (timers w)" and ?w = "w\<lparr>timers := heap_pop exec_msec (timers w)\<rparr>"
  consider "timers w = [] \<or> now < exec_msec ?t" | "timers w \<noteq> []" "\<not> now < exec_msec ?t" by blast
  then show ?case
  proof cases
    case 1
    then have "w' = w" using Suc.prems(3) by (auto split: if_splits)
    then show ?thesis using 1 Suc.prems(2) top_is_earliest [OF Suc.prems(2)] by force
  next
    case 2
    then obtain w1 where w1: "call (callback ?t) (private_data ?t) ?w = Some (Inr w1)"
      and r: "run_timers_loop n call now w1 = Some (Inr w')"
      using Suc.prems(3) by (auto simp: Let_def split: option.splits sum.splits)
    have "timers_wf w1"
      using Suc.prems(1) w1 pop_wf [OF Suc.prems(2) 2(1)] by (auto simp: keeps_heap_def)
    with Suc.IH [OF Suc.prems(1) _ r] 2 w1 show ?thesis by auto
  qed
qed


text \<open>A timer due now and one due 5 ms later, with callbacks that do nothing.\<close>

definition two_timers :: "nat timer_world" where
  "two_timers = clock_witness\<lparr>timers := [Timer_new 0 0 7 0, Timer_new 0 5 8 0]\<rparr>"

lemma two_timers_facts:
  "timers_wf two_timers" "get_current_ms two_timers = (0, two_timers\<lparr>clock_reads := 1\<rparr>)"
  "run_timers (Suc (Suc 0)) (\<lambda>f d w. Some (Inr w)) two_timers =
     Some (Inr (two_timers\<lparr>timers := [Timer_new 0 5 8 0], clock_reads := 1\<rparr>))"
  by (simp_all add: timers_wf_def two_timers_def clock_witness_def is_heap_def less_Suc_eq
      parent_def Timer_new_def get_current_ms_def run_timers_def heap_top_def
      heap_pop_def swap_def sift_down.simps)


text \<open>Callbacks that return and leave the queue alone, as those that only resume a coroutine that ends.\<close>

definition quiet ::
    "('f \<Rightarrow> nat \<Rightarrow> ('f, 'z) timer_world_scheme \<Rightarrow> ('f, 'z) timer_world_scheme res option) \<Rightarrow> bool" where
  "quiet call \<longleftrightarrow> (\<forall>f d w. \<exists>w'. call f d w = Some (Inr w') \<and> timers w' = timers w)"

lemma timers_split:
  "timers_wf w \<Longrightarrow> timers w \<noteq> [] \<Longrightarrow>
   mset (timers w) = add_mset (heap_top (timers w)) (mset (heap_pop exec_msec (timers w)))"
  using std_heap.elems_split [of exec_msec "timers w"] by (simp add: timers_wf_def)

lemma length_heap_pop: "xs \<noteq> [] \<Longrightarrow> Suc (length (heap_pop key xs)) = length xs"
  using heap_pop_mset [of xs key] by (metis One_nat_def Suc_pred heap_top_def length_greater_0_conv
      nth_mem size_Diff_singleton size_mset set_mset_mset)

lemma run_timers_loop_quiet:
  assumes "quiet call"
  shows "timers_wf w \<Longrightarrow> length (timers w) < n \<Longrightarrow>
    \<exists>w'. run_timers_loop n call now w = Some (Inr w') \<and>
      mset (fired n call now w) = filter_mset (\<lambda>t. exec_msec t \<le> now) (mset (timers w)) \<and>
      sorted (map exec_msec (fired n call now w)) \<and>
      mset (timers w') = filter_mset (\<lambda>t. now < exec_msec t) (mset (timers w))"
proof (induction n arbitrary: w)
  case 0
  then show ?case by simp
next
  case (Suc n)
  let ?t = "heap_top (timers w)" and ?w = "w\<lparr>timers := heap_pop exec_msec (timers w)\<rparr>"
  consider "timers w = [] \<or> now < exec_msec ?t" | "timers w \<noteq> []" "\<not> now < exec_msec ?t" by blast
  then show ?case
  proof cases
    case 1
    then have "now < exec_msec x" if "x \<in> set (timers w)" for x
      using top_is_earliest [OF Suc.prems(1) that] that by auto
    then have "filter_mset (\<lambda>t. exec_msec t \<le> now) (mset (timers w)) = {#}"
      "filter_mset (\<lambda>t. now < exec_msec t) (mset (timers w)) = mset (timers w)"
      by (force simp: filter_empty_conv filter_id_conv simp flip: mset_filter)+
    then show ?thesis using 1 by auto
  next
    case 2
    obtain w1 where w1: "call (callback ?t) (private_data ?t) ?w = Some (Inr w1)" "timers w1 = timers ?w"
      using assms by (force simp: quiet_def)
    then have "timers_wf w1" "length (timers w1) < n"
      using pop_wf [OF Suc.prems(1) 2(1)] Suc.prems(2) length_heap_pop [OF 2(1), of exec_msec]
      by (simp_all add: timers_wf_def)
    then obtain w' where IH: "run_timers_loop n call now w1 = Some (Inr w')"
      "mset (fired n call now w1) = filter_mset (\<lambda>t. exec_msec t \<le> now) (mset (timers w1))"
      "sorted (map exec_msec (fired n call now w1))"
      "mset (timers w') = filter_mset (\<lambda>t. now < exec_msec t) (mset (timers w1))"
      using Suc.IH by blast
    have "exec_msec ?t \<le> exec_msec x" if "x \<in> set (fired n call now w1)" for x
    proof -
      have "x \<in># mset (fired n call now w1)" using that by simp
      then have "x \<in># mset (timers w1)" by (simp add: IH(2))
      then have "x \<in># mset (timers w)" using timers_split [OF Suc.prems(1) 2(1)] w1(2) by simp
      then show ?thesis using top_is_earliest [OF Suc.prems(1)] by simp
    qed
    then show ?thesis
      using 2 w1 IH timers_split [OF Suc.prems(1) 2(1)] by (auto simp: Let_def)
  qed
qed



end
