(* ===== verification/Help.thy ===== *)
theory Help
  imports Prelude
begin

text \<open>
  \<open>include/help.h\<close>: the pair of a descriptor and a coroutine id that
  \<open>epoll_event::data.u64\<close> carries. Both are \<open>int\<close>s, 32-bit words here; the casts to
  \<open>uint64_t\<close> extend the sign.
\<close>

definition touint64 :: "u32 \<Rightarrow> u32 \<Rightarrow> u64" where
  "touint64 fd i = push_bit 32 (scast fd) OR scast i"

definition fromuint64 :: "u64 \<Rightarrow> u32 \<times> u32" where
  "fromuint64 v = (ucast (drop_bit 32 v), ucast (v AND 0xffffffff))"

lemma and_low_mask: "v AND 0xffffffff = take_bit 32 (v :: u64)"
proof -
  have "(0xffffffff :: u64) = mask 32" by (simp add: mask_eq_exp_minus_1)
  then show ?thesis by (simp only: take_bit_eq_mask)
qed

lemma bit_scast32: "bit (scast (x :: u32) :: u64) n \<longleftrightarrow> n < 64 \<and> bit x (min 31 n)"
  by (simp add: bit_signed_iff)

lemma bit_scast32_low: "n < 32 \<Longrightarrow> bit (scast (x :: u32) :: u64) n \<longleftrightarrow> bit x n"
  by (simp add: bit_scast32 min.absorb2)

lemma bit_scast32_high: "n < 32 \<Longrightarrow> bit (scast (x :: u32) :: u64) (32 + n) \<longleftrightarrow> bit x 31"
  by (simp add: bit_scast32)

lemma fromuint64_id: "snd (fromuint64 (touint64 fd i)) = i"
  by (rule bit_word_eqI)
    (auto simp: touint64_def fromuint64_def bit_ucast_iff and_low_mask bit_take_bit_iff
      bit_or_iff bit_push_bit_iff bit_scast32_low)

lemma fromuint64_fd_bit:
  "n < 32 \<Longrightarrow> bit (fst (fromuint64 (touint64 fd i))) n \<longleftrightarrow> bit fd n \<or> bit i 31"
  by (auto simp: touint64_def fromuint64_def bit_ucast_iff bit_drop_bit_eq bit_or_iff
      bit_push_bit_iff bit_scast32_low bit_scast32_high)

lemma msb32: "bit (i :: u32) 31 \<longleftrightarrow> i <s 0"
  by (simp add: word_sless_alt sint_uint bit_uint_iff)

text \<open>
  The pair round trip. The coroutine id always comes back, the descriptor exactly when
  the id is not negative or the descriptor is \<open>-1\<close>: the sign extension of a negative id fills
  the upper half.
\<close>

theorem touint64_roundtrip:
  "snd (fromuint64 (touint64 fd i)) = i \<and>
   fst (fromuint64 (touint64 fd i)) = (if i <s 0 then - 1 else fd)"
proof -
  have "fst (fromuint64 (touint64 fd i)) = (if bit i 31 then - 1 else fd)"
    by (rule bit_word_eqI) (auto simp: fromuint64_fd_bit)
  then show ?thesis by (simp add: fromuint64_id msb32)
qed

text \<open>What is left of a \<open>long\<close> id that is passed as an \<open>int\<close>.\<close>

lemma sint_cast_id: "sint (ucast (of_nat c :: u64) :: u32) = signed_take_bit 31 (int c)"
proof -
  have "uint (ucast (of_nat c :: u64) :: u32) = int (take_bit 32 c)"
    by (simp add: unsigned_ucast_eq unsigned_of_nat take_bit_take_bit flip: of_nat_take_bit)
  then show ?thesis by (simp add: sint_uint of_nat_take_bit signed_take_bit_take_bit)
qed

lemma cast_id_iff: "sint (ucast (of_nat c :: u64) :: u32) = int c \<longleftrightarrow> c < 2 ^ 31"
proof -
  have "signed_take_bit 31 (int c) = int c \<longleftrightarrow> c < 2 ^ 31"
    by (subst signed_take_bit_int_eq_self_iff) simp
  then show ?thesis by (simp add: sint_cast_id)
qed

end
