(* ===== verification/World.thy ===== *)
theory World
  imports Complex_Main Timer Help
begin

text \<open>
  The state of the runtime: the coroutines of \<open>include/coroutine.h\<close> with their contexts
  (\<open>include/context.h\<close>), the channels of \<open>include/coroutine_channel.h\<close>, the event loop of
  \<open>include/event.h\<close> on top of the timers, and what the operating system answers. The code
  that runs inside the coroutines is a \<open>prog\<close>: a tree of the calls it makes.
\<close>

section \<open>The code of a coroutine\<close>

text \<open>
  A \<open>Coroutine*\<close> and the \<open>long\<close> id of the coroutine are the same number here: ids are never
  reused, so an id whose coroutine is gone is a dangling pointer. A \<open>void*\<close> is an address
  and \<open>0\<close> is \<open>nullptr\<close>. A \<open>double\<close> number of seconds is a rational.
\<close>

type_synonym cid = nat
type_synonym chan = nat
type_synonym ptr = nat
type_synonym fd = u32

text \<open>
  Each constructor is a call of the library with the code that follows it, given the result
  where the call has one. \<open>Emit\<close> stands for the other effects of the code. The last three are
  the second halves of the three calls that give up the processor in the middle, the place
  where the stack of a suspended coroutine stands.
\<close>

datatype prog =
    Done
  | Emit nat prog
  | Yield prog
  | ResumeCid int prog
  | ResumePtr cid prog
  | Create prog "cid \<Rightarrow> prog"
  | GetCurrent "cid option \<Rightarrow> prog"
  | Defer prog prog
  | Sleep rat prog
  | ChannelNew nat "chan \<Rightarrow> prog"
  | Push chan ptr rat "bool \<Rightarrow> prog"
  | Pop chan rat "ptr \<Rightarrow> prog"
  | WaitEvent fd nat "bool \<Rightarrow> prog"
  | PushResumed chan ptr "bool \<Rightarrow> prog"
  | PopResumed chan "ptr \<Rightarrow> prog"
  | WaitResumed fd "bool \<Rightarrow> prog"

section \<open>The objects\<close>

text \<open>
  A context: where \<open>ctx_\<close> points to when the coroutine is suspended (\<open>None\<close> while its code is
  on the processor or waits for a coroutine it resumed: then \<open>ctx_\<close> is stale), its stack of
  deferred tasks, the top first, and \<open>end_\<close>.
\<close>

record fcontext =
  saved :: "prog option"
  defer_tasks :: "prog list"
  is_end :: bool

record coroutine =
  origin :: "cid option"
  task :: ptr
  ctx :: fcontext

record channel =
  capacity :: nat
  producer_queue :: "cid list"
  consumer_queue :: "cid list"
  data_queue :: "ptr list"

record poll =
  epollfd :: int
  ncap :: nat
  event_num :: int
  events :: "(u32 \<times> u64) list"

text \<open>
  The operating system: the \<open>i\<close>-th call gets the \<open>i\<close>-th answer. \<open>epoll_wait_answer i t\<close> is
  what \<open>epoll_wait\<close> with the timeout \<open>t\<close> reports, \<open>None\<close> when it fails;
  \<open>epoll_ctl_ok\<close> decides the failures that do not come from the interest list itself.
\<close>

record os =
  epoll_create_answer :: "nat \<Rightarrow> int"
  epoll_ctl_ok :: "nat \<Rightarrow> bool"
  epoll_wait_answer :: "nat \<Rightarrow> int \<Rightarrow> (u32 \<times> u64) list option"

text \<open>What can be seen of a run: the effects of the code, and the values through the channels.\<close>

datatype obs = Out nat | Pushed chan ptr | Popped chan ptr

datatype timer_func = SleepTimeout

record world = "timer_func timer_world" +
  current :: "cid option"
  last_cid :: nat
  coroutines :: "cid \<rightharpoonup> coroutine"
  channels :: "channel list"
  event_poll :: "poll option"
  running :: int
  num :: int
  interest :: "fd \<rightharpoonup> u64"
  system :: os
  os_calls :: nat
  trace :: "obs list"

section \<open>Access\<close>

definition upd_co :: "cid \<Rightarrow> (coroutine \<Rightarrow> coroutine) \<Rightarrow> world \<Rightarrow> world" where
  "upd_co c f w = w\<lparr>coroutines := (coroutines w)(c := map_option f (coroutines w c))\<rparr>"

definition upd_chan :: "chan \<Rightarrow> (channel \<Rightarrow> channel) \<Rightarrow> world \<Rightarrow> world" where
  "upd_chan ch f w = w\<lparr>channels := (channels w)[ch := f (channels w ! ch)]\<rparr>"

definition upd_poll :: "(poll \<Rightarrow> poll) \<Rightarrow> world \<Rightarrow> world" where
  "upd_poll f w = w\<lparr>event_poll := map_option f (event_poll w)\<rparr>"

definition observe :: "obs \<Rightarrow> world \<Rightarrow> world" where
  "observe x w = w\<lparr>trace := trace w @ [x]\<rparr>"

text \<open>The product with \<open>Timer::SECOND\<close>, cut to an integer by the conversion to \<open>int64_t\<close>.\<close>

definition truncate :: "rat \<Rightarrow> int" where
  "truncate x = (if 0 \<le> x then \<lfloor>x\<rfloor> else \<lceil>x\<rceil>)"

definition seconds_to_ms :: "rat \<Rightarrow> u64" where
  "seconds_to_ms t = of_int (truncate (t * 1000))"

end
