(* ===== verification/Coroutine.thy ===== *)
theory Coroutine
  imports World
begin

text \<open>
  \<open>src/coroutine/context.cc\<close> and \<open>src/coroutine/coroutine.cc\<close>. The operations that switch
  to another coroutine take \<open>run\<close>, which runs the code of a coroutine until it switches out:
  \<open>run c p\<close> returns when \<open>jump_fcontext\<close> comes back from coroutine \<open>c\<close>. The scheduler
  ties that knot; the locale below says what the operations may rely on.
\<close>

type_synonym runner = "cid \<Rightarrow> prog \<Rightarrow> world action"

section \<open>Contexts\<close>

definition Context_new :: "prog \<Rightarrow> fcontext" where
  "Context_new fn = \<lparr>saved = Some fn, defer_tasks = [], is_end = False\<rparr>"

definition set_saved :: "prog option \<Rightarrow> coroutine \<Rightarrow> coroutine" where
  "set_saved p co = co\<lparr>ctx := (ctx co)\<lparr>saved := p\<rparr>\<rparr>"

definition set_defer_tasks :: "prog list \<Rightarrow> coroutine \<Rightarrow> coroutine" where
  "set_defer_tasks ts co = co\<lparr>ctx := (ctx co)\<lparr>defer_tasks := ts\<rparr>\<rparr>"

definition set_is_end :: "bool \<Rightarrow> coroutine \<Rightarrow> coroutine" where
  "set_is_end b co = co\<lparr>ctx := (ctx co)\<lparr>is_end := b\<rparr>\<rparr>"

text \<open>Jumping to a context that is not suspended follows a stale pointer.\<close>

definition swap_in :: "runner \<Rightarrow> cid \<Rightarrow> world action" where
  "swap_in run c w =
     (case coroutines w c of
        None \<Rightarrow> act_fault UseAfterFree w
      | Some co \<Rightarrow> (case saved (ctx co) of
            None \<Rightarrow> act_fault StaleContext w
          | Some p \<Rightarrow> run c p (upd_co c (set_saved None) w)))"

text \<open>\<open>swap_out\<close> ends the run of the coroutine; \<open>k\<close> is what is left on its stack.\<close>

definition swap_out :: "cid \<Rightarrow> prog \<Rightarrow> world action" where
  "swap_out c k w = act_skip (upd_co c (set_saved (Some k)) w)"

text \<open>
  The end of \<open>context_func\<close> and the loop of \<open>execute_defer_tasks\<close>: each time a function of
  the coroutine returns, the top task is next; a task may defer further ones. When none is left
  the context has ended, and the last \<open>swap_out\<close> leaves nothing to come back to.
\<close>

definition context_return :: "runner \<Rightarrow> cid \<Rightarrow> world action" where
  "context_return run this w =
     (case coroutines w this of
        None \<Rightarrow> act_fault UseAfterFree w
      | Some co \<Rightarrow> (case defer_tasks (ctx co) of
            t # ts \<Rightarrow> run this t (upd_co this (set_defer_tasks ts) w)
          | [] \<Rightarrow> act_skip (upd_co this (set_is_end True) w)))"

definition Context_defer :: "cid \<Rightarrow> prog \<Rightarrow> world \<Rightarrow> world" where
  "Context_defer c t = upd_co c (\<lambda>co. set_defer_tasks (t # defer_tasks (ctx co)) co)"

section \<open>Coroutines\<close>

definition get_by_cid :: "int \<Rightarrow> world \<Rightarrow> cid option" where
  "get_by_cid i w =
     (if 0 \<le> i \<and> coroutines w (nat i) \<noteq> None then Some (nat i) else None)"

definition Coroutine_new :: "prog \<Rightarrow> world \<Rightarrow> world" where
  "Coroutine_new fn w =
     w\<lparr>last_cid := Suc (last_cid w),
       coroutines := (coroutines w)(Suc (last_cid w) \<mapsto>
         \<lparr>origin = None, task = 0, ctx = Context_new fn\<rparr>)\<rparr>"

text \<open>What \<open>run\<close> and \<open>_resume\<close> do after \<open>swap_in\<close> has returned.\<close>

definition after_swap_in :: "cid \<Rightarrow> world action" where
  "after_swap_in c w =
     (case coroutines w c of
        None \<Rightarrow> act_fault UseAfterFree w
      | Some co \<Rightarrow> act_skip (if is_end (ctx co)
          then w\<lparr>current := origin co, coroutines := (coroutines w)(c := None)\<rparr> else w))"

definition Coroutine_run :: "runner \<Rightarrow> cid \<Rightarrow> world action" where
  "Coroutine_run run c w =
     act_then (swap_in run c) (after_swap_in c)
       (upd_co c (\<lambda>co. co\<lparr>origin := current w\<rparr>) (w\<lparr>current := Some c\<rparr>))"

definition create :: "runner \<Rightarrow> prog \<Rightarrow> world action" where
  "create run fn w = Coroutine_run run (Suc (last_cid w)) (Coroutine_new fn w)"

definition yield_co :: "prog \<Rightarrow> world action" where
  "yield_co k w =
     (case current w of
        None \<Rightarrow> act_fault NullPointer w
      | Some c \<Rightarrow> (case coroutines w c of
            None \<Rightarrow> act_fault UseAfterFree w
          | Some co \<Rightarrow> swap_out c k (w\<lparr>current := origin co\<rparr>)))"

definition resume_ptr :: "runner \<Rightarrow> cid \<Rightarrow> world action" where
  "resume_ptr run c w =
     (if current w = Some c then act_fault AssertFailed w
      else if coroutines w c = None then act_fault UseAfterFree w
      else act_then (swap_in run c) (after_swap_in c)
        (upd_co c (\<lambda>co. co\<lparr>origin := current w\<rparr>) (w\<lparr>current := Some c\<rparr>)))"

definition resume_cid :: "runner \<Rightarrow> int \<Rightarrow> world action" where
  "resume_cid run i w =
     (case get_by_cid i w of None \<Rightarrow> act_fault NullPointer w | Some c \<Rightarrow> resume_ptr run c w)"

definition defer_co :: "prog \<Rightarrow> world action" where
  "defer_co t w =
     (case current w of None \<Rightarrow> act_fault NullPointer w | Some c \<Rightarrow> act_skip (Context_defer c t w))"

text \<open>The timer callback of \<open>sleep\<close> and of the channels is \<open>sleep_timeout\<close> for both.\<close>

definition sleep_co :: "rat \<Rightarrow> prog \<Rightarrow> world action" where
  "sleep_co t k w =
     (case current w of
        None \<Rightarrow> act_fault NullPointer w
      | Some c \<Rightarrow> yield_co k (add_timer (seconds_to_ms t) SleepTimeout c w))"

primrec sleep_timeout :: "runner \<Rightarrow> timer_func \<Rightarrow> ptr \<Rightarrow> world action" where
  "sleep_timeout run SleepTimeout param = resume_ptr run param"

definition get_task :: "cid \<Rightarrow> world \<Rightarrow> ptr" where
  "get_task c w = (case coroutines w c of None \<Rightarrow> 0 | Some co \<Rightarrow> task co)"

definition set_task :: "cid \<Rightarrow> ptr \<Rightarrow> world \<Rightarrow> world" where
  "set_task c t = upd_co c (task_update (\<lambda>_. t))"

definition get_current_task :: "world \<Rightarrow> ptr" where
  "get_current_task w = (case current w of None \<Rightarrow> 0 | Some c \<Rightarrow> get_task c w)"

end
