(* ===== verification/Scheduler_Steps.thy ===== *)
theory Scheduler_Steps
  imports Coroutine
begin

text \<open>
  The specification of the scheduler: the state changes that code running in coroutines can
  make, one by one, as a step relation. Every call of the library is shown to be a sequence of
  these steps that ends where the caller stands; what holds of every step then holds of every
  run, however the coroutines resume one another.
\<close>

section \<open>The steps\<close>

text \<open>\<open>enter\<close> puts a suspended coroutine on top of the running ones; \<open>leave\<close> suspends the top.\<close>

definition enter :: "cid \<Rightarrow> world \<Rightarrow> world" where
  "enter c w = upd_co c (\<lambda>co. set_saved None (co\<lparr>origin := current w\<rparr>)) (w\<lparr>current := Some c\<rparr>)"

definition kernel_del :: "fd \<Rightarrow> world \<Rightarrow> world" where
  "kernel_del fd w = w\<lparr>interest := (interest w)(fd := None)\<rparr>"

inductive sched_step :: "world \<Rightarrow> world \<Rightarrow> bool" where
  step_spawn: "sched_step w (Coroutine_new fn w)"
| step_enter: "coroutines w c = Some co \<Longrightarrow> saved (ctx co) = Some p \<Longrightarrow> current w \<noteq> Some c \<Longrightarrow>
    sched_step w (enter c w)"
| step_leave: "current w = Some c \<Longrightarrow> coroutines w c = Some co \<Longrightarrow>
    sched_step w (upd_co c (set_saved (Some k)) (w\<lparr>current := origin co\<rparr>))"
| step_finish: "coroutines w c = Some co \<Longrightarrow> defer_tasks (ctx co) = [] \<Longrightarrow>
    sched_step w (upd_co c (set_is_end True) w)"
| step_erase: "coroutines w c = Some co \<Longrightarrow> is_end (ctx co) \<Longrightarrow>
    sched_step w (w\<lparr>current := origin co, coroutines := (coroutines w)(c := None)\<rparr>)"
| step_defer: "sched_step w (upd_co c (\<lambda>co. set_defer_tasks (t # defer_tasks (ctx co)) co) w)"
| step_undefer: "coroutines w c = Some co \<Longrightarrow> defer_tasks (ctx co) = t # ts \<Longrightarrow>
    sched_step w (upd_co c (set_defer_tasks ts) w)"
| step_timer: "sched_step w (add_timer t f c w)"
| step_out: "sched_step w (observe (Out n) w)"
| step_channel: "sched_step w (w\<lparr>channels := channels w @
    [\<lparr>capacity = n, producer_queue = [], consumer_queue = [], data_queue = []\<rparr>]\<rparr>)"
| step_producers: "sched_step w (upd_chan ch (producer_queue_update f) w)"
| step_consumers: "sched_step w (upd_chan ch (consumer_queue_update f) w)"
| step_push: "ch < length (channels w) \<Longrightarrow>
    length (data_queue (channels w ! ch)) \<noteq> capacity (channels w ! ch) \<Longrightarrow>
    sched_step w (observe (Pushed ch v) (upd_chan ch (data_queue_update (\<lambda>q. q @ [v])) w))"
| step_pop: "ch < length (channels w) \<Longrightarrow> data_queue (channels w ! ch) = v # vs \<Longrightarrow>
    sched_step w (observe (Popped ch v) (upd_chan ch (data_queue_update (\<lambda>q. vs)) w))"
| step_entry: "sched_step w (upd_poll (\<lambda>p. p\<lparr>events := (events p)[0 := e]\<rparr>) w)"
| step_call: "sched_step w (w\<lparr>os_calls := Suc (os_calls w)\<rparr>)"
| step_add: "event_poll w = Some p \<Longrightarrow> interest w fd = None \<Longrightarrow>
    sched_step w (upd_poll (event_num_update (\<lambda>n. n + 1)) (w\<lparr>interest := (interest w)(fd \<mapsto> d)\<rparr>))"
| step_del: "event_poll w = Some p \<Longrightarrow> interest w fd \<noteq> None \<Longrightarrow>
    sched_step w (upd_poll (event_num_update (\<lambda>n. n - 1)) (kernel_del fd w))"

abbreviation sched_steps :: "world \<Rightarrow> world \<Rightarrow> bool" where
  "sched_steps \<equiv> sched_step\<^sup>*\<^sup>*"

lemma steps_step [trans]: "sched_steps w w1 \<Longrightarrow> sched_step w1 w2 \<Longrightarrow> sched_steps w w2"
  by (rule rtranclp.rtrancl_into_rtrancl)

lemma sched_steps_invariant:
  assumes "sched_steps w w'" and "I w" and "\<And>u v. sched_step u v \<Longrightarrow> I u \<Longrightarrow> I v"
  shows "I w'"
  using assms(1) by (induction rule: rtranclp_induct) (auto intro: assms(2,3))

section \<open>The stack of running coroutines\<close>

text \<open>
  \<open>stack_ok E w cs\<close>: the running coroutines are \<open>cs\<close>, the one on the processor first, each
  resumed by the next as its \<open>origin\<close> says, the last one by the event loop; every other
  coroutine is suspended; those that have ended are just those in \<open>E\<close>; ids are unused beyond
  \<open>last_cid\<close>.
\<close>

primrec chain :: "world \<Rightarrow> cid list \<Rightarrow> bool" where
  "chain w [] \<longleftrightarrow> True"
| "chain w (c # cs) \<longleftrightarrow>
     (\<exists>co. coroutines w c = Some co \<and> origin co = (case cs of [] \<Rightarrow> None | c' # _ \<Rightarrow> Some c')) \<and> chain w cs"

definition stack_ok :: "cid set \<Rightarrow> world \<Rightarrow> cid list \<Rightarrow> bool" where
  "stack_ok E w cs \<longleftrightarrow>
     current w = (case cs of [] \<Rightarrow> None | c # _ \<Rightarrow> Some c) \<and> distinct cs \<and> chain w cs \<and>
     (\<forall>c co. coroutines w c = Some co \<longrightarrow>
        (saved (ctx co) = None \<longleftrightarrow> c \<in> set cs) \<and> (is_end (ctx co) \<longleftrightarrow> c \<in> E) \<and> c \<le> last_cid w)"

text \<open>How coroutine \<open>c\<close> left the processor: suspended, or ended and still on top.\<close>

definition left_ok :: "cid \<Rightarrow> cid list \<Rightarrow> world \<Rightarrow> bool" where
  "left_ok c cs w \<longleftrightarrow>
     stack_ok {} w cs \<and> coroutines w c \<noteq> None \<or>
     stack_ok {c} w (c # cs) \<and> defer_tasks (ctx (the (coroutines w c))) = []"

lemma chain_cong: "(\<And>c. c \<in> set cs \<Longrightarrow> coroutines w' c = coroutines w c) \<Longrightarrow> chain w' cs = chain w cs"
  by (induction cs) auto

lemma chain_origin_cong:
  "(\<And>c. c \<in> set cs \<Longrightarrow> map_option origin (coroutines w' c) = map_option origin (coroutines w c)) \<Longrightarrow>
   chain w' cs = chain w cs"
proof (induction cs)
  case (Cons c cs)
  have "map_option origin (coroutines w' c) = map_option origin (coroutines w c)"
    using Cons.prems by simp
  then show ?case using Cons.IH Cons.prems
    by (cases "coroutines w c"; cases "coroutines w' c") auto
qed simp

lemma chain_dom: "chain w cs \<Longrightarrow> c \<in> set cs \<Longrightarrow> coroutines w c \<noteq> None"
  by (induction cs) auto

lemma stack_ok_cong:
  "current w' = current w \<Longrightarrow> coroutines w' = coroutines w \<Longrightarrow> last_cid w' = last_cid w \<Longrightarrow>
   stack_ok E w' cs = stack_ok E w cs"
  by (simp add: stack_ok_def chain_cong [of cs w' w])

lemma upd_co_same [simp]:
  "coroutines (upd_co c f w) = (coroutines w)(c := map_option f (coroutines w c))"
  "current (upd_co c f w) = current w" "last_cid (upd_co c f w) = last_cid w"
  "channels (upd_co c f w) = channels w" "timers (upd_co c f w) = timers w"
  "event_poll (upd_co c f w) = event_poll w" "interest (upd_co c f w) = interest w"
  "trace (upd_co c f w) = trace w"
  by (simp_all add: upd_co_def)

lemma upd_chan_same [simp]:
  "coroutines (upd_chan c f w) = coroutines w" "current (upd_chan c f w) = current w"
  "last_cid (upd_chan c f w) = last_cid w" "timers (upd_chan c f w) = timers w"
  "event_poll (upd_chan c f w) = event_poll w" "interest (upd_chan c f w) = interest w"
  "trace (upd_chan c f w) = trace w"
  by (simp_all add: upd_chan_def)

lemma upd_poll_same [simp]:
  "coroutines (upd_poll f w) = coroutines w" "current (upd_poll f w) = current w"
  "last_cid (upd_poll f w) = last_cid w" "timers (upd_poll f w) = timers w"
  "channels (upd_poll f w) = channels w" "interest (upd_poll f w) = interest w"
  "trace (upd_poll f w) = trace w" "event_poll (upd_poll f w) = map_option f (event_poll w)"
  by (simp_all add: upd_poll_def)

lemma observe_same [simp]:
  "coroutines (observe x w) = coroutines w" "current (observe x w) = current w"
  "last_cid (observe x w) = last_cid w" "timers (observe x w) = timers w"
  "channels (observe x w) = channels w" "interest (observe x w) = interest w"
  "event_poll (observe x w) = event_poll w" "trace (observe x w) = trace w @ [x]"
  by (simp_all add: observe_def)

lemma add_timer_same [simp]:
  "coroutines (add_timer t f c w) = coroutines w" "current (add_timer t f c w) = current w"
  "last_cid (add_timer t f c w) = last_cid w" "channels (add_timer t f c w) = channels w"
  "interest (add_timer t f c w) = interest w" "event_poll (add_timer t f c w) = event_poll w"
  "trace (add_timer t f c w) = trace w"
  by (simp_all add: add_timer_def get_current_ms_def split: prod.splits)

lemmas co_setters = set_saved_def set_defer_tasks_def set_is_end_def

lemma stack_ok_notin:
  "stack_ok E w cs \<Longrightarrow> coroutines w c = Some co \<Longrightarrow> saved (ctx co) = Some p \<Longrightarrow> c \<notin> set cs"
  by (force simp: stack_ok_def)

lemma stack_ok_top: "stack_ok E w (c # cs) \<Longrightarrow> \<exists>co. coroutines w c = Some co \<and> current w = Some c \<and>
    origin co = (case cs of [] \<Rightarrow> None | c' # _ \<Rightarrow> Some c')"
  by (auto simp: stack_ok_def)

lemma stack_ok_enter:
  assumes "stack_ok {} w cs" and "coroutines w c = Some co" and "saved (ctx co) = Some p"
  shows "stack_ok {} (enter c w) (c # cs)"
proof -
  have "c \<notin> set cs" using assms by (rule stack_ok_notin)
  moreover from this have "chain (enter c w) cs = chain w cs"
    by (intro chain_cong) (auto simp: enter_def)
  ultimately show ?thesis
    using assms by (auto simp: stack_ok_def enter_def co_setters)
qed

lemma stack_ok_leave:
  assumes "stack_ok {} w (c # cs)" and "coroutines w c = Some co"
  shows "stack_ok {} (upd_co c (set_saved (Some k)) (w\<lparr>current := origin co\<rparr>)) cs"
proof -
  let ?w = "upd_co c (set_saved (Some k)) (w\<lparr>current := origin co\<rparr>)"
  have "chain ?w cs = chain w cs"
    using assms(1) by (intro chain_cong) (auto simp: stack_ok_def)
  then show ?thesis
    using assms by (auto simp: stack_ok_def co_setters)
qed

lemma stack_ok_upd:
  assumes "stack_ok {} w cs" and "coroutines w c = Some co" and "origin (f co) = origin co"
    and "saved (ctx (f co)) = saved (ctx co)"
    and "is_end (ctx (f co)) \<longleftrightarrow> c \<in> E" and "E \<subseteq> {c}"
  shows "stack_ok E (upd_co c f w) cs"
proof -
  have "chain (upd_co c f w) cs = chain w cs"
    using assms(2,3) by (intro chain_origin_cong) simp
  then show ?thesis
    using assms by (auto simp: stack_ok_def)
qed

lemma stack_ok_erase:
  assumes "stack_ok {c} w (c # cs)" and "coroutines w c = Some co"
  shows "stack_ok {} (w\<lparr>current := origin co, coroutines := (coroutines w)(c := None)\<rparr>) cs"
proof -
  let ?w = "w\<lparr>current := origin co, coroutines := (coroutines w)(c := None)\<rparr>"
  have "chain ?w cs = chain w cs"
    using assms(1) by (intro chain_cong) (auto simp: stack_ok_def)
  then show ?thesis
    using assms by (auto simp: stack_ok_def)
qed

lemma stack_ok_spawn:
  assumes "stack_ok {} w cs"
  shows "stack_ok {} (Coroutine_new fn w) cs"
proof -
  let ?c = "Suc (last_cid w)"
  have fresh: "coroutines w ?c = None"
    using assms by (cases "coroutines w ?c") (force simp: stack_ok_def)+
  then have "?c \<notin> set cs" using assms chain_dom [of w cs ?c] by (auto simp: stack_ok_def)
  moreover from this have "chain (Coroutine_new fn w) cs = chain w cs"
    by (intro chain_cong) (auto simp: Coroutine_new_def)
  ultimately show ?thesis
    using assms by (force simp: stack_ok_def Coroutine_new_def Context_new_def)
qed

section \<open>What the calls rely on\<close>

text \<open>A call that returns to coroutine \<open>cs\<close> stands on, and a run that gives up the processor.\<close>

definition returns_to :: "cid list \<Rightarrow> world \<Rightarrow> world \<Rightarrow> bool" where
  "returns_to cs w w' \<longleftrightarrow> sched_steps w w' \<and> stack_ok {} w' cs"

definition gives_up :: "cid \<Rightarrow> cid list \<Rightarrow> world \<Rightarrow> world \<Rightarrow> bool" where
  "gives_up c cs w w' \<longleftrightarrow> sched_steps w w' \<and> left_ok c cs w'"

lemma returns_to_step:
  "sched_step w w' \<Longrightarrow> stack_ok {} w' cs \<Longrightarrow> returns_to cs w w'"
  by (simp add: returns_to_def)

lemma gives_up_after: "sched_steps w w1 \<Longrightarrow> gives_up c cs w1 w' \<Longrightarrow> gives_up c cs w w'"
  by (auto simp: gives_up_def)

lemma returns_to_after: "sched_steps w w1 \<Longrightarrow> returns_to cs w1 w' \<Longrightarrow> returns_to cs w w'"
  by (auto simp: returns_to_def)

lemma enter_eq:
  "upd_co c (set_saved None) (upd_co c (\<lambda>co. co\<lparr>origin := current w\<rparr>) (w\<lparr>current := Some c\<rparr>)) = enter c w"
  by (simp add: enter_def upd_co_def option.map_comp o_def)

lemma yield_gives_up:
  assumes "yield_co k w = Some (Inr w')" and "stack_ok {} w (c # cs)"
  shows "gives_up c cs w w'"
proof -
  obtain co where co: "coroutines w c = Some co" "current w = Some c"
    using stack_ok_top [OF assms(2)] by blast
  then have w': "w' = upd_co c (set_saved (Some k)) (w\<lparr>current := origin co\<rparr>)"
    using assms(1) by (simp add: yield_co_def swap_out_def)
  have "sched_step w w'" unfolding w' using co by (intro step_leave)
  then show ?thesis
    using stack_ok_leave [OF assms(2) co(1), of k] co w' by (simp add: gives_up_def left_ok_def)
qed

lemma sleep_gives_up:
  assumes "sleep_co t k w = Some (Inr w')" and "stack_ok {} w (c # cs)"
  shows "gives_up c cs w w'"
proof -
  let ?w = "add_timer (seconds_to_ms t) SleepTimeout c w"
  have "yield_co k ?w = Some (Inr w')"
    using assms stack_ok_top [OF assms(2)] by (auto simp: sleep_co_def)
  moreover have "stack_ok {} ?w (c # cs)" using assms(2) by (simp add: stack_ok_cong [of ?w w])
  ultimately have "gives_up c cs ?w w'" by (rule yield_gives_up)
  then show ?thesis using step_timer by (blast intro: gives_up_after)
qed

lemma defer_returns:
  assumes "defer_co t w = Some (Inr w')" and "stack_ok {} w (c # cs)"
  shows "returns_to (c # cs) w w'"
proof -
  obtain co where co: "coroutines w c = Some co" "current w = Some c"
    using stack_ok_top [OF assms(2)] by blast
  then have w': "w' = upd_co c (\<lambda>co. set_defer_tasks (t # defer_tasks (ctx co)) co) w"
    using assms(1) by (simp add: defer_co_def Context_defer_def)
  have "is_end (ctx co) = False" using assms(2) co by (simp add: stack_ok_def)
  then show ?thesis
    using co assms(2) unfolding w'
    by (intro returns_to_step step_defer stack_ok_upd [where co = co]) (simp_all add: co_setters)
qed

locale runner =
  fixes run :: runner
  assumes run_gives_up:
    "run c p w = Some (Inr w') \<Longrightarrow> stack_ok {} w (c # cs) \<Longrightarrow> gives_up c cs w w'"
begin

lemma enter_returns:
  assumes "act_then (swap_in run c) (after_swap_in c)
      (upd_co c (\<lambda>co. co\<lparr>origin := current w\<rparr>) (w\<lparr>current := Some c\<rparr>)) = Some (Inr w')"
    and "stack_ok {} w cs" and "coroutines w c = Some co" and "current w \<noteq> Some c"
  shows "returns_to cs w w'"
proof -
  obtain p w1 where p: "saved (ctx co) = Some p" and w1: "run c p (enter c w) = Some (Inr w1)"
    and w': "after_swap_in c w1 = Some (Inr w')"
    using assms(1,3) enter_eq [of c w]
    by (auto simp: act_then_returns swap_in_def co_setters split: option.splits)
  have "gives_up c cs (enter c w) w1"
    by (rule run_gives_up [OF w1 stack_ok_enter [OF assms(2,3) p]])
  then have steps: "sched_steps w w1" and l: "left_ok c cs w1"
    using step_enter [OF assms(3) p assms(4)] by (auto simp: gives_up_def intro: converse_rtranclp_into_rtranclp)
  then consider "stack_ok {} w1 cs" "coroutines w1 c \<noteq> None" | "stack_ok {c} w1 (c # cs)"
    by (auto simp: left_ok_def)
  then show ?thesis
  proof cases
    case 1
    then have "w' = w1" using w' by (auto simp: after_swap_in_def stack_ok_def split: option.splits)
    with 1 steps show ?thesis by (simp add: returns_to_def)
  next
    case 2
    then obtain co1 where co1: "coroutines w1 c = Some co1" using stack_ok_top by blast
    with 2 have e: "is_end (ctx co1)" by (simp add: stack_ok_def)
    with w' co1 have "w' = w1\<lparr>current := origin co1, coroutines := (coroutines w1)(c := None)\<rparr>"
      by (simp add: after_swap_in_def)
    with stack_ok_erase [OF 2 co1] step_erase [OF co1 e] steps show ?thesis
      by (auto simp: returns_to_def)
  qed
qed

lemma resume_ptr_returns:
  "resume_ptr run c w = Some (Inr w') \<Longrightarrow> stack_ok {} w cs \<Longrightarrow> returns_to cs w w'"
  by (auto simp: resume_ptr_def intro: enter_returns split: if_splits)

lemma resume_cid_returns:
  "resume_cid run i w = Some (Inr w') \<Longrightarrow> stack_ok {} w cs \<Longrightarrow> returns_to cs w w'"
  by (auto simp: resume_cid_def intro: resume_ptr_returns split: option.splits)

lemma create_returns:
  assumes "create run fn w = Some (Inr w')" and "stack_ok {} w cs"
  shows "returns_to cs w w'"
proof -
  let ?c = "Suc (last_cid w)" and ?w = "Coroutine_new fn w"
  have "current w \<noteq> Some ?c"
    using assms(2) by (cases cs) (force simp: stack_ok_def)+
  then have "returns_to cs ?w w'"
    using assms stack_ok_spawn [OF assms(2), of fn]
    by (intro enter_returns [of ?c ?w w']) (auto simp: create_def Coroutine_run_def Coroutine_new_def)
  then show ?thesis using step_spawn by (blast intro: returns_to_after)
qed

lemma context_return_gives_up:
  assumes "context_return run c w = Some (Inr w')" and "stack_ok {} w (c # cs)"
  shows "gives_up c cs w w'"
proof -
  obtain co where co: "coroutines w c = Some co" using stack_ok_top [OF assms(2)] by blast
  have e: "\<not> is_end (ctx co)" using assms(2) co by (simp add: stack_ok_def)
  show ?thesis
  proof (cases "defer_tasks (ctx co)")
    case Nil
    then have w': "w' = upd_co c (set_is_end True) w"
      using assms(1) co by (simp add: context_return_def)
    have "stack_ok {c} w' (c # cs)"
      unfolding w' using assms(2) co by (intro stack_ok_upd [where co = co]) (simp_all add: co_setters)
    moreover have "defer_tasks (ctx (the (coroutines w' c))) = []"
      using Nil co w' by (simp add: co_setters)
    ultimately show ?thesis
      using step_finish [OF co Nil] w' by (simp add: gives_up_def left_ok_def)
  next
    case (Cons t ts)
    let ?w = "upd_co c (set_defer_tasks ts) w"
    have "run c t ?w = Some (Inr w')"
      using assms(1) co Cons by (simp add: context_return_def)
    moreover have "stack_ok {} ?w (c # cs)"
      using assms(2) co e by (intro stack_ok_upd [where co = co]) (simp_all add: co_setters)
    ultimately have "gives_up c cs ?w w'" by (rule run_gives_up)
    then show ?thesis using step_undefer [OF co Cons] by (blast intro: gives_up_after)
  qed
qed

lemma then_gives_up:
  assumes "act_then m (run c k) w = Some (Inr w')"
    and "\<And>w1. m w = Some (Inr w1) \<Longrightarrow> returns_to (c # cs) w w1"
  shows "gives_up c cs w w'"
proof -
  obtain w1 where "m w = Some (Inr w1)" and r: "run c k w1 = Some (Inr w')"
    using assms(1) by (auto simp: act_then_returns)
  with assms(2) have "sched_steps w w1" "stack_ok {} w1 (c # cs)" by (auto simp: returns_to_def)
  with run_gives_up [OF r] show ?thesis by (blast intro: gives_up_after)
qed

end

end
