(* ===== verification/Channel.thy ===== *)
theory Channel
  imports Scheduler_Steps
begin

text \<open>
  \<open>src/coroutine/channel.cc\<close>. A \<open>push\<close> on a full channel and a \<open>pop\<close> on an empty one
  queue the current coroutine, with a timer when a positive timeout is given, and yield; the
  half of the call that is left on the stack then is \<open>push_resumed\<close> or \<open>pop_resumed\<close>. The
  values that go in and come out are observed.
\<close>

section \<open>Operations\<close>

definition Channel_new :: "nat \<Rightarrow> channel" where
  "Channel_new n = \<lparr>capacity = n, producer_queue = [], consumer_queue = [], data_queue = []\<rparr>"

definition alloc_channel :: "nat \<Rightarrow> world action" where
  "alloc_channel n w = act_skip (w\<lparr>channels := channels w @ [Channel_new n]\<rparr>)"

text \<open>Both calls on a channel that is not there are errors of the caller.\<close>

definition with_chan :: "chan \<Rightarrow> world action \<Rightarrow> world action" where
  "with_chan ch m w = (if ch < length (channels w) then m w else act_fault UseAfterFree w)"

text \<open>The timer of a call with a timeout, and the rest of the waiting.\<close>

definition start_timeout :: "rat \<Rightarrow> cid \<Rightarrow> world \<Rightarrow> world" where
  "start_timeout t c w = (if 0 < t then add_timer (seconds_to_ms t) SleepTimeout c w else w)"

definition notice_producer :: "runner \<Rightarrow> chan \<Rightarrow> world action" where
  "notice_producer run ch w =
     (case producer_queue (channels w ! ch) of
        [] \<Rightarrow> act_skip w
      | c # q \<Rightarrow> resume_ptr run c (upd_chan ch (producer_queue_update (\<lambda>_. q)) w))"

definition notice_consumer :: "runner \<Rightarrow> chan \<Rightarrow> world action" where
  "notice_consumer run ch w =
     (case consumer_queue (channels w ! ch) of
        [] \<Rightarrow> act_skip w
      | c # q \<Rightarrow> resume_ptr run c (upd_chan ch (consumer_queue_update (\<lambda>_. q)) w))"

definition pop_resumed :: "runner \<Rightarrow> cid \<Rightarrow> chan \<Rightarrow> (ptr \<Rightarrow> prog) \<Rightarrow> world action" where
  "pop_resumed run this ch k = with_chan ch (\<lambda>w.
     case data_queue (channels w ! ch) of
       [] \<Rightarrow> run this (k 0) w
     | v # vs \<Rightarrow> act_then (notice_producer run ch) (run this (k v))
         (observe (Popped ch v) (upd_chan ch (data_queue_update (\<lambda>_. vs)) w)))"

definition pop_chan :: "runner \<Rightarrow> cid \<Rightarrow> chan \<Rightarrow> rat \<Rightarrow> (ptr \<Rightarrow> prog) \<Rightarrow> world action" where
  "pop_chan run this ch t k = with_chan ch (\<lambda>w.
     if data_queue (channels w ! ch) = [] then
       (case current w of
          None \<Rightarrow> act_fault NullPointer w
        | Some c \<Rightarrow> yield_co (PopResumed ch k)
            (upd_chan ch (consumer_queue_update (\<lambda>q. q @ [c])) (start_timeout t c w)))
     else pop_resumed run this ch k w)"

definition push_resumed :: "runner \<Rightarrow> cid \<Rightarrow> chan \<Rightarrow> ptr \<Rightarrow> (bool \<Rightarrow> prog) \<Rightarrow> world action" where
  "push_resumed run this ch v k = with_chan ch (\<lambda>w.
     if length (data_queue (channels w ! ch)) = capacity (channels w ! ch) then run this (k False) w
     else act_then (notice_consumer run ch) (run this (k True))
       (observe (Pushed ch v) (upd_chan ch (data_queue_update (\<lambda>q. q @ [v])) w)))"

definition push_chan :: "runner \<Rightarrow> cid \<Rightarrow> chan \<Rightarrow> ptr \<Rightarrow> rat \<Rightarrow> (bool \<Rightarrow> prog) \<Rightarrow> world action" where
  "push_chan run this ch v t k = with_chan ch (\<lambda>w.
     if length (data_queue (channels w ! ch)) = capacity (channels w ! ch) then
       (case current w of
          None \<Rightarrow> act_fault NullPointer w
        | Some c \<Rightarrow> yield_co (PushResumed ch v k)
            (upd_chan ch (producer_queue_update (\<lambda>q. q @ [c])) (start_timeout t c w)))
     else push_resumed run this ch v k w)"

section \<open>Calls as sequences of steps\<close>

lemma start_timeout_steps: "sched_steps w (start_timeout t c w)"
  using step_timer by (auto simp: start_timeout_def)

lemma start_timeout_same [simp]:
  "coroutines (start_timeout t c w) = coroutines w" "current (start_timeout t c w) = current w"
  "last_cid (start_timeout t c w) = last_cid w" "channels (start_timeout t c w) = channels w"
  by (simp_all add: start_timeout_def)

lemma stack_ok_upd_chan [simp]: "stack_ok E (upd_chan ch f w) cs = stack_ok E w cs"
  by (simp add: stack_ok_cong [of "upd_chan ch f w" w])

lemma stack_ok_observe [simp]: "stack_ok E (observe x w) cs = stack_ok E w cs"
  by (simp add: stack_ok_cong [of "observe x w" w])

lemma stack_ok_start_timeout [simp]: "stack_ok E (start_timeout t c w) cs = stack_ok E w cs"
  by (simp add: stack_ok_cong [of "start_timeout t c w" w])

lemma alloc_channel_returns:
  "alloc_channel n w = Some (Inr w') \<Longrightarrow> stack_ok {} w cs \<Longrightarrow> returns_to cs w w'"
  using step_channel [of w n] stack_ok_cong [of w' w "{}" cs]
  by (auto simp: alloc_channel_def Channel_new_def returns_to_def)

lemma wait_in_queue_gives_up:
  assumes "yield_co k (upd_chan ch f (start_timeout t c' w)) = Some (Inr w')"
    and "stack_ok {} w (c # cs)" and "\<And>u. sched_step u (upd_chan ch f u)"
  shows "gives_up c cs w w'"
proof (rule gives_up_after)
  show "sched_steps w (upd_chan ch f (start_timeout t c' w))"
    using start_timeout_steps assms(3) by (rule steps_step)
  show "gives_up c cs (upd_chan ch f (start_timeout t c' w)) w'"
    using assms by (intro yield_gives_up) simp_all
qed

context runner
begin

lemma notice_producer_returns:
  assumes "notice_producer run ch w = Some (Inr w')" and "stack_ok {} w cs"
  shows "returns_to cs w w'"
proof (cases "producer_queue (channels w ! ch)")
  case Nil
  then show ?thesis using assms by (simp add: notice_producer_def returns_to_def)
next
  case (Cons c q)
  let ?w = "upd_chan ch (producer_queue_update (\<lambda>_. q)) w"
  have "returns_to cs ?w w'"
    using assms Cons by (intro resume_ptr_returns [of c]) (simp_all add: notice_producer_def)
  then show ?thesis using step_producers by (blast intro: returns_to_after)
qed

lemma notice_consumer_returns:
  assumes "notice_consumer run ch w = Some (Inr w')" and "stack_ok {} w cs"
  shows "returns_to cs w w'"
proof (cases "consumer_queue (channels w ! ch)")
  case Nil
  then show ?thesis using assms by (simp add: notice_consumer_def returns_to_def)
next
  case (Cons c q)
  let ?w = "upd_chan ch (consumer_queue_update (\<lambda>_. q)) w"
  have "returns_to cs ?w w'"
    using assms Cons by (intro resume_ptr_returns [of c]) (simp_all add: notice_consumer_def)
  then show ?thesis using step_consumers by (blast intro: returns_to_after)
qed

lemma pop_resumed_gives_up:
  assumes "pop_resumed run c ch k w = Some (Inr w')" and "stack_ok {} w (c # cs)"
  shows "gives_up c cs w w'"
proof -
  have ch: "ch < length (channels w)"
    using assms(1) by (auto simp: pop_resumed_def with_chan_def split: if_splits)
  show ?thesis
  proof (cases "data_queue (channels w ! ch)")
    case Nil
    then show ?thesis
      using assms ch by (intro run_gives_up [of c "k 0"]) (simp_all add: pop_resumed_def with_chan_def)
  next
    case (Cons v vs)
    let ?w = "observe (Popped ch v) (upd_chan ch (data_queue_update (\<lambda>_. vs)) w)"
    have "gives_up c cs ?w w'"
      using assms ch Cons by (intro then_gives_up [of "notice_producer run ch" c "k v"])
        (simp_all add: pop_resumed_def with_chan_def notice_producer_returns)
    then show ?thesis using step_pop [OF ch Cons] by (blast intro: gives_up_after)
  qed
qed

lemma pop_gives_up:
  assumes "pop_chan run c ch t k w = Some (Inr w')" and "stack_ok {} w (c # cs)"
  shows "gives_up c cs w w'"
  using assms stack_ok_top [OF assms(2)]
  by (auto simp: pop_chan_def with_chan_def step_consumers split: if_splits
      intro: wait_in_queue_gives_up pop_resumed_gives_up)

lemma push_resumed_gives_up:
  assumes "push_resumed run c ch v k w = Some (Inr w')" and "stack_ok {} w (c # cs)"
  shows "gives_up c cs w w'"
proof -
  have ch: "ch < length (channels w)"
    using assms(1) by (auto simp: push_resumed_def with_chan_def split: if_splits)
  show ?thesis
  proof (cases "length (data_queue (channels w ! ch)) = capacity (channels w ! ch)")
    case True
    then show ?thesis
      using assms ch by (intro run_gives_up [of c "k False"]) (simp_all add: push_resumed_def with_chan_def)
  next
    case False
    let ?w = "observe (Pushed ch v) (upd_chan ch (data_queue_update (\<lambda>q. q @ [v])) w)"
    have "gives_up c cs ?w w'"
      using assms ch False by (intro then_gives_up [of "notice_consumer run ch" c "k True"])
        (simp_all add: push_resumed_def with_chan_def notice_consumer_returns)
    then show ?thesis using step_push [OF ch False] by (blast intro: gives_up_after)
  qed
qed

lemma push_gives_up:
  assumes "push_chan run c ch v t k w = Some (Inr w')" and "stack_ok {} w (c # cs)"
  shows "gives_up c cs w w'"
  using assms stack_ok_top [OF assms(2)]
  by (auto simp: push_chan_def with_chan_def step_producers split: if_splits
      intro: wait_in_queue_gives_up push_resumed_gives_up)

end

section \<open>Channel invariants\<close>

text \<open>The values that went in and that came out of a channel, in order.\<close>

primrec pushed_values :: "chan \<Rightarrow> obs list \<Rightarrow> ptr list" where
  "pushed_values ch [] = []"
| "pushed_values ch (x # xs) =
     (case x of Pushed ch' v \<Rightarrow> if ch' = ch then v # pushed_values ch xs else pushed_values ch xs
      | _ \<Rightarrow> pushed_values ch xs)"

primrec popped_values :: "chan \<Rightarrow> obs list \<Rightarrow> ptr list" where
  "popped_values ch [] = []"
| "popped_values ch (x # xs) =
     (case x of Popped ch' v \<Rightarrow> if ch' = ch then v # popped_values ch xs else popped_values ch xs
      | _ \<Rightarrow> popped_values ch xs)"

lemma pushed_values_append [simp]: "pushed_values ch (xs @ ys) = pushed_values ch xs @ pushed_values ch ys"
  by (induction xs) (simp_all split: obs.split)

lemma popped_values_append [simp]: "popped_values ch (xs @ ys) = popped_values ch xs @ popped_values ch ys"
  by (induction xs) (simp_all split: obs.split)

text \<open>
  Every channel holds at most its capacity, and what went in is what came out, in that order,
  followed by what it holds; nothing is observed of channels that do not exist yet.
\<close>

definition channels_ok :: "world \<Rightarrow> bool" where
  "channels_ok w \<longleftrightarrow>
     (\<forall>ch < length (channels w).
        length (data_queue (channels w ! ch)) \<le> capacity (channels w ! ch) \<and>
        pushed_values ch (trace w) = popped_values ch (trace w) @ data_queue (channels w ! ch)) \<and>
     (\<forall>ch \<ge> length (channels w). pushed_values ch (trace w) = [] \<and> popped_values ch (trace w) = [])"

lemma channels_ok_same:
  "channels_ok w \<Longrightarrow> channels w' = channels w \<Longrightarrow> trace w' = trace w \<Longrightarrow> channels_ok w'"
  by (simp add: channels_ok_def)

lemma channels_ok_upd:
  assumes "channels_ok w" and "\<And>c. data_queue (f c) = data_queue c" "\<And>c. capacity (f c) = capacity c"
  shows "channels_ok (upd_chan ch f w)"
proof (cases "ch < length (channels w)")
  case True
  then show ?thesis using assms by (auto simp: channels_ok_def upd_chan_def nth_list_update)
next
  case False
  then show ?thesis using assms(1) by (simp add: channels_ok_def upd_chan_def)
qed

lemma sched_step_channels_ok: "sched_step w w' \<Longrightarrow> channels_ok w \<Longrightarrow> channels_ok w'"
proof (induction rule: sched_step.induct)
  case (step_push ch w v)
  then show ?case by (auto simp: channels_ok_def upd_chan_def nth_list_update observe_def less_le)
next
  case (step_pop ch w v vs)
  then have "length vs < capacity (channels w ! ch)" by (force simp: channels_ok_def)
  with step_pop show ?case by (auto simp: channels_ok_def upd_chan_def nth_list_update observe_def)
next
  case (step_channel w n)
  then show ?case by (auto simp: channels_ok_def nth_append less_Suc_eq)
next
  case (step_producers w ch f)
  then show ?case by (intro channels_ok_upd) simp_all
next
  case (step_consumers w ch f)
  then show ?case by (intro channels_ok_upd) simp_all
next
  case (step_out w n)
  then show ?case by (simp add: channels_ok_def)
qed (erule channels_ok_same; simp add: Coroutine_new_def enter_def kernel_del_def)+

end
