(* ===== verification/Event_Poll.thy ===== *)
theory Event_Poll
  imports Scheduler_Steps
begin

text \<open>
  The poll set of the event loop: \<open>Event::init_Poll\<close> and \<open>free_Poll\<close> of
  \<open>src/core/event.cc\<close>, and \<open>Socket::wait_event\<close> of \<open>src/coroutine/socket.cc\<close>, which
  registers a descriptor, yields, and takes it out again. Of the kernel, the interest list is
  modelled as \<open>epoll_ctl(2)\<close> documents it: adding a descriptor that is in it fails
  (\<open>EEXIST\<close>), deleting one that is not fails (\<open>ENOENT\<close>); other failures are the
  answers of the system.
\<close>

definition FSW_EPOLL_CAP :: nat where "FSW_EPOLL_CAP = 16"
definition FSW_EVENT_READ :: nat where "FSW_EVENT_READ = 512"
definition FSW_EVENT_WRITE :: nat where "FSW_EVENT_WRITE = 1024"
definition EPOLLIN :: u32 where "EPOLLIN = 1"
definition EPOLLOUT :: u32 where "EPOLLOUT = 4"

section \<open>The poll set\<close>

definition init_Poll :: "world \<Rightarrow> world" where
  "init_Poll w =
     (let fd = epoll_create_answer (system w) (os_calls w); w = w\<lparr>os_calls := Suc (os_calls w)\<rparr>
      in if fd < 0 then w\<lparr>event_poll := None\<rparr>
      else w\<lparr>event_poll := Some \<lparr>epollfd = fd, ncap = FSW_EPOLL_CAP, event_num = 0,
               events = replicate FSW_EPOLL_CAP (0, 0)\<rparr>, interest := Map.empty\<rparr>)"

definition free_Poll :: "world action" where
  "free_Poll w =
     (case event_poll w of
        None \<Rightarrow> act_fault NullPointer w
      | Some p \<Rightarrow> act_skip (w\<lparr>event_poll := None\<rparr>))"

definition epoll_ctl_add :: "fd \<Rightarrow> u64 \<Rightarrow> world \<Rightarrow> bool \<times> world" where
  "epoll_ctl_add fd d w =
     (let ok = epoll_ctl_ok (system w) (os_calls w) \<and> interest w fd = None;
          w = w\<lparr>os_calls := Suc (os_calls w)\<rparr>
      in (ok, if ok then w\<lparr>interest := (interest w)(fd \<mapsto> d)\<rparr> else w))"

definition epoll_ctl_del :: "fd \<Rightarrow> world \<Rightarrow> bool \<times> world" where
  "epoll_ctl_del fd w =
     (let ok = epoll_ctl_ok (system w) (os_calls w) \<and> interest w fd \<noteq> None;
          w = w\<lparr>os_calls := Suc (os_calls w)\<rparr>
      in (ok, if ok then w\<lparr>interest := (interest w)(fd := None)\<rparr> else w))"

section \<open>Waiting for a descriptor\<close>

text \<open>The \<open>long\<close> id of the coroutine is cut to the \<open>int\<close> parameter of \<open>touint64\<close>.\<close>

definition wait_entry :: "fd \<Rightarrow> nat \<Rightarrow> cid \<Rightarrow> u32 \<times> u64" where
  "wait_entry fd e c =
     (if e = FSW_EVENT_READ then EPOLLIN else EPOLLOUT, touint64 fd (ucast (of_nat c :: u64)))"

definition wait_event :: "runner \<Rightarrow> cid \<Rightarrow> fd \<Rightarrow> nat \<Rightarrow> (bool \<Rightarrow> prog) \<Rightarrow> world action" where
  "wait_event run this fd e k w =
     (case current w of
        None \<Rightarrow> act_fault NullPointer w
      | Some c \<Rightarrow> (case event_poll w of
            None \<Rightarrow> act_fault ExitError w
          | Some p \<Rightarrow>
              let ev = wait_entry fd e c in
              case epoll_ctl_add fd (snd ev) (upd_poll (\<lambda>p. p\<lparr>events := (events p)[0 := ev]\<rparr>) w) of
                (ok, w) \<Rightarrow>
                  if ok then yield_co (WaitResumed fd k) (upd_poll (event_num_update (\<lambda>n. n + 1)) w)
                  else run this (k False) w))"

definition wait_resumed :: "runner \<Rightarrow> cid \<Rightarrow> fd \<Rightarrow> (bool \<Rightarrow> prog) \<Rightarrow> world action" where
  "wait_resumed run this fd k w =
     (case event_poll w of
        None \<Rightarrow> act_fault NullPointer w
      | Some p \<Rightarrow> (case epoll_ctl_del fd w of
            (ok, w) \<Rightarrow>
              if ok then run this (k True) (upd_poll (event_num_update (\<lambda>n. n - 1)) w)
              else run this (k False) w))"

text \<open>
  C16: the id that the event loop reads back from the entry of a waiting coroutine, and resumes,
  is that coroutine's as long as ids stay below \<open>2 ^ 31\<close>, and no further.
\<close>

theorem wait_entry_names_waiter:
  "sint (snd (fromuint64 (snd (wait_entry fd e c)))) = int c \<longleftrightarrow> c < 2 ^ 31"
  by (simp add: wait_entry_def fromuint64_id cast_id_iff)

section \<open>Calls as sequences of steps\<close>

lemma stack_ok_upd_poll [simp]: "stack_ok E (upd_poll f w) cs = stack_ok E w cs"
  by (simp add: stack_ok_cong [of "upd_poll f w" w])

lemma ctl_add_steps:
  assumes "epoll_ctl_add fd d w = (ok, w')" and "event_poll w \<noteq> None"
  shows "sched_steps w (if ok then upd_poll (event_num_update (\<lambda>n. n + 1)) w' else w')"
    and "stack_ok E w' cs = stack_ok E w cs"
proof -
  let ?w = "w\<lparr>os_calls := Suc (os_calls w)\<rparr>"
  have call: "sched_step w ?w" by (rule step_call)
  obtain p where p: "event_poll ?w = Some p" using assms(2) by auto
  show "sched_steps w (if ok then upd_poll (event_num_update (\<lambda>n. n + 1)) w' else w')"
  proof (cases ok)
    case True
    then have "sched_step ?w (upd_poll (event_num_update (\<lambda>n. n + 1)) w')"
      using assms(1) step_add [OF p, of fd d] by (auto simp: epoll_ctl_add_def Let_def)
    with call True show ?thesis by simp
  next
    case False
    then have "w' = ?w" using assms(1) by (auto simp: epoll_ctl_add_def Let_def)
    with call False show ?thesis by simp
  qed
  show "stack_ok E w' cs = stack_ok E w cs"
    using assms(1) by (intro stack_ok_cong) (auto simp: epoll_ctl_add_def Let_def split: if_splits)
qed

lemma ctl_del_steps:
  assumes "epoll_ctl_del fd w = (ok, w')" and "event_poll w \<noteq> None"
  shows "sched_steps w (if ok then upd_poll (event_num_update (\<lambda>n. n - 1)) w' else w')"
    and "stack_ok E w' cs = stack_ok E w cs"
proof -
  let ?w = "w\<lparr>os_calls := Suc (os_calls w)\<rparr>"
  have call: "sched_step w ?w" by (rule step_call)
  obtain p where p: "event_poll ?w = Some p" using assms(2) by auto
  show "sched_steps w (if ok then upd_poll (event_num_update (\<lambda>n. n - 1)) w' else w')"
  proof (cases ok)
    case True
    then have "sched_step ?w (upd_poll (event_num_update (\<lambda>n. n - 1)) w')"
      using assms(1) step_del [OF p, of fd] by (auto simp: epoll_ctl_del_def Let_def kernel_del_def)
    with call True show ?thesis by simp
  next
    case False
    then have "w' = ?w" using assms(1) by (auto simp: epoll_ctl_del_def Let_def)
    with call False show ?thesis by simp
  qed
  show "stack_ok E w' cs = stack_ok E w cs"
    using assms(1) by (intro stack_ok_cong) (auto simp: epoll_ctl_del_def Let_def split: if_splits)
qed

context runner
begin

lemma wait_event_gives_up:
  assumes "wait_event run c fd e k w = Some (Inr w')" and "stack_ok {} w (c # cs)"
  shows "gives_up c cs w w'"
proof -
  let ?ev = "wait_entry fd e c"
  let ?w = "upd_poll (\<lambda>p. p\<lparr>events := (events p)[0 := ?ev]\<rparr>) w"
  obtain p where cur: "current w = Some c" and p: "event_poll w = Some p"
    using assms stack_ok_top [OF assms(2)] by (auto simp: wait_event_def split: option.splits)
  obtain ok w1 where ctl: "epoll_ctl_add fd (snd ?ev) ?w = (ok, w1)" by force
  have "event_poll ?w \<noteq> None" using p by simp
  note s = ctl_add_steps [OF ctl this]
  let ?w2 = "if ok then upd_poll (event_num_update (\<lambda>n. n + 1)) w1 else w1"
  have "gives_up c cs ?w2 w'"
    using assms cur p ctl s(2)
    by (auto simp: wait_event_def Let_def intro: yield_gives_up run_gives_up split: if_splits)
  moreover have "sched_steps w ?w2"
    using step_entry s(1) by (rule converse_rtranclp_into_rtranclp)
  ultimately show ?thesis by (blast intro: gives_up_after)
qed

lemma wait_resumed_gives_up:
  assumes "wait_resumed run c fd k w = Some (Inr w')" and "stack_ok {} w (c # cs)"
  shows "gives_up c cs w w'"
proof -
  obtain ok w1 where ctl: "epoll_ctl_del fd w = (ok, w1)" by force
  have p: "event_poll w \<noteq> None" using assms(1) by (auto simp: wait_resumed_def split: option.splits)
  note s = ctl_del_steps [OF ctl p]
  have "gives_up c cs (if ok then upd_poll (event_num_update (\<lambda>n. n - 1)) w1 else w1) w'"
    using assms p ctl s(2)
    by (auto simp: wait_resumed_def intro: run_gives_up split: if_splits)
  with s(1) show ?thesis by (rule gives_up_after)
qed

end

section \<open>Invariants of the poll set\<close>

text \<open>\<open>event_num\<close> counts the descriptors in the interest list.\<close>

definition poll_ok :: "world \<Rightarrow> bool" where
  "poll_ok w \<longleftrightarrow> finite (dom (interest w)) \<and>
     (\<forall>p. event_poll w = Some p \<longrightarrow> event_num p = int (card (dom (interest w))))"

lemma poll_ok_same:
  "poll_ok w \<Longrightarrow> event_poll w' = event_poll w \<Longrightarrow> interest w' = interest w \<Longrightarrow> poll_ok w'"
  by (simp add: poll_ok_def)

lemma sched_step_poll_ok: "sched_step w w' \<Longrightarrow> poll_ok w \<Longrightarrow> poll_ok w'"
proof (induction rule: sched_step.induct)
  case (step_entry w e)
  then show ?case by (auto simp: poll_ok_def)
next
  case (step_add w p fd d)
  then have "fd \<notin> dom (interest w)" by auto
  with step_add show ?case by (auto simp: poll_ok_def)
next
  case (step_del w p fd)
  then have "fd \<in> dom (interest w)" "0 < card (dom (interest w))"
    by (auto simp: poll_ok_def card_gt_0_iff)
  with step_del show ?case
    by (auto simp: poll_ok_def kernel_del_def dom_fun_upd card_Diff_singleton)
qed (erule poll_ok_same; simp add: Coroutine_new_def enter_def)+

text \<open>
  Coroutine code never changes an entry of the event array but the first, and leaves what the
  event loop keeps for itself alone.
\<close>

definition loop_frame :: "world \<Rightarrow> int \<times> int \<times> os \<times> (nat \<times> (u32 \<times> u64) list) option" where
  "loop_frame w = (running w, num w, system w,
     map_option (\<lambda>p. (length (events p), tl (events p))) (event_poll w))"

lemma tl_update_first: "tl (xs[0 := x]) = tl xs"
  by (cases xs) simp_all

lemma sched_step_loop_frame: "sched_step w w' \<Longrightarrow> loop_frame w' = loop_frame w"
  by (induction rule: sched_step.induct)
    (simp_all add: loop_frame_def Coroutine_new_def enter_def upd_co_def upd_chan_def observe_def
      upd_poll_def kernel_del_def add_timer_def get_current_ms_def option.map_comp o_def
      tl_update_first split: prod.splits)

lemma sched_steps_loop_frame: "sched_steps w w' \<Longrightarrow> loop_frame w' = loop_frame w"
  by (induction rule: rtranclp_induct) (simp_all add: sched_step_loop_frame)

lemma sched_step_timers_wf: "sched_step w w' \<Longrightarrow> timers_wf w \<Longrightarrow> timers_wf w'"
  by (induction rule: sched_step.induct)
    (simp_all add: add_timer_wf, simp_all add: timers_wf_def Coroutine_new_def enter_def kernel_del_def)

end
