(* ===== verification/Scheduler.thy ===== *)
theory Scheduler
  imports Channel Event_Poll
begin

text \<open>
  Running coroutine code: \<open>exec\<close> executes the calls of a \<open>prog\<close> with the operations of the
  components, which get \<open>exec\<close> itself to run the coroutines they switch to. The fuel bounds
  the depth of the execution; \<open>exec_terminates\<close> shows that enough of it is always there.
\<close>

section \<open>Execution\<close>

definition exec_step :: "runner \<Rightarrow> runner" where
  "exec_step run this p = (case p of
      Done \<Rightarrow> context_return run this
    | Emit n k \<Rightarrow> (\<lambda>w. run this k (observe (Out n) w))
    | Yield k \<Rightarrow> yield_co k
    | ResumeCid i k \<Rightarrow> act_then (resume_cid run i) (run this k)
    | ResumePtr c k \<Rightarrow> act_then (resume_ptr run c) (run this k)
    | Create fn k \<Rightarrow> (\<lambda>w. act_then (create run fn) (run this (k (Suc (last_cid w)))) w)
    | GetCurrent k \<Rightarrow> (\<lambda>w. run this (k (current w)) w)
    | Defer t k \<Rightarrow> act_then (defer_co t) (run this k)
    | Sleep t k \<Rightarrow> sleep_co t k
    | ChannelNew n k \<Rightarrow> (\<lambda>w. act_then (alloc_channel n) (run this (k (length (channels w)))) w)
    | Push ch v t k \<Rightarrow> push_chan run this ch v t k
    | Pop ch t k \<Rightarrow> pop_chan run this ch t k
    | WaitEvent fd e k \<Rightarrow> wait_event run this fd e k
    | PushResumed ch v k \<Rightarrow> push_resumed run this ch v k
    | PopResumed ch k \<Rightarrow> pop_resumed run this ch k
    | WaitResumed fd k \<Rightarrow> wait_resumed run this fd k)"

primrec exec :: "nat \<Rightarrow> runner" where
  "exec 0 = (\<lambda>this p w. None)"
| "exec (Suc n) = exec_step (exec n)"

section \<open>Every run is a sequence of steps\<close>

context runner
begin

lemma exec_step_gives_up:
  assumes "exec_step run c p w = Some (Inr w')" and "stack_ok {} w (c # cs)"
  shows "gives_up c cs w w'"
proof (cases p)
  case Done
  then show ?thesis using assms by (auto simp: exec_step_def intro: context_return_gives_up)
next
  case (Emit n k)
  then have "gives_up c cs (observe (Out n) w) w'"
    using assms by (intro run_gives_up [of c k]) (simp_all add: exec_step_def)
  then show ?thesis using step_out by (blast intro: gives_up_after)
next
  case (Yield k)
  then show ?thesis using assms by (auto simp: exec_step_def intro: yield_gives_up)
next
  case (ResumeCid i k)
  then show ?thesis using assms by (auto simp: exec_step_def intro: then_gives_up resume_cid_returns)
next
  case (ResumePtr i k)
  then show ?thesis using assms by (auto simp: exec_step_def intro: then_gives_up resume_ptr_returns)
next
  case (Create fn k)
  then show ?thesis using assms by (auto simp: exec_step_def intro: then_gives_up create_returns)
next
  case (GetCurrent k)
  then show ?thesis using assms by (auto simp: exec_step_def intro: run_gives_up)
next
  case (Defer t k)
  then show ?thesis using assms by (auto simp: exec_step_def intro: then_gives_up defer_returns)
next
  case (Sleep t k)
  then show ?thesis using assms by (auto simp: exec_step_def intro: sleep_gives_up)
next
  case (ChannelNew n k)
  then show ?thesis using assms by (auto simp: exec_step_def intro: then_gives_up alloc_channel_returns)
next
  case (Push ch v t k)
  then show ?thesis using assms by (auto simp: exec_step_def intro: push_gives_up)
next
  case (Pop ch t k)
  then show ?thesis using assms by (auto simp: exec_step_def intro: pop_gives_up)
next
  case (WaitEvent fd e k)
  then show ?thesis using assms by (auto simp: exec_step_def intro: wait_event_gives_up)
next
  case (PushResumed ch v k)
  then show ?thesis using assms by (auto simp: exec_step_def intro: push_resumed_gives_up)
next
  case (PopResumed ch k)
  then show ?thesis using assms by (auto simp: exec_step_def intro: pop_resumed_gives_up)
next
  case (WaitResumed fd k)
  then show ?thesis using assms by (auto simp: exec_step_def intro: wait_resumed_gives_up)
qed

end

lemma runner_exec: "runner (exec n)"
proof (induction n)
  case 0
  show ?case by unfold_locales simp
next
  case (Suc n)
  show ?case by unfold_locales (simp add: runner.exec_step_gives_up [OF Suc.IH])
qed

interpretation sched: runner "exec n" for n
  by (rule runner_exec)

section \<open>Resuming and creating\<close>

lemma chain_origins:
  "chain w cs \<Longrightarrow> chain w' cs \<Longrightarrow> c \<in> set cs \<Longrightarrow>
   map_option origin (coroutines w' c) = map_option origin (coroutines w c)"
  by (induction cs) auto

lemma sched_steps_last_cid: "sched_steps w w' \<Longrightarrow> last_cid w \<le> last_cid w'"
proof (induction rule: rtranclp_induct)
  case (step u v)
  from step(2) have "last_cid u \<le> last_cid v"
    by induction (simp_all add: Coroutine_new_def enter_def kernel_del_def)
  with step.IH show ?case by simp
qed simp

text \<open>
  C2: \<open>Coroutine::resume\<close> comes back to its caller. However deep the resumed code resumes and
  creates others, when the call returns the caller is the current coroutine again, the coroutines
  that were running still run with the same resumers, and the resumed one is suspended or gone.
\<close>

theorem resume_comes_back:
  assumes "stack_ok {} w cs" and "resume_cid (exec n) i w = Some (Inr w')"
  shows "current w' = current w \<and> stack_ok {} w' cs \<and>
    (\<forall>c \<in> set cs. map_option origin (coroutines w' c) = map_option origin (coroutines w c)) \<and>
    (\<forall>co. coroutines w' (nat i) = Some co \<longrightarrow> saved (ctx co) \<noteq> None)"
proof -
  have s: "stack_ok {} w' cs"
    using sched.resume_cid_returns [OF assms(2,1)] by (simp add: returns_to_def)
  obtain co where "coroutines w (nat i) = Some co" "saved (ctx co) \<noteq> None"
    using assms(2) by (auto simp: resume_cid_def get_by_cid_def resume_ptr_def swap_in_def act_then_def
        act_fault_def co_setters split: option.splits if_splits)
  then have "nat i \<notin> set cs" using assms(1) stack_ok_notin by blast
  with s show ?thesis
    using assms(1) chain_origins [of w cs w'] by (auto simp: stack_ok_def)
qed

text \<open>A coroutine with id 1 that is suspended and ends when it is resumed.\<close>

definition suspended_world :: world where
  "suspended_world =
     \<lparr>timers = [], clock = (\<lambda>i. (0, 0)), clock_reads = 0, current = None, last_cid = 1,
      coroutines = [1 \<mapsto> \<lparr>origin = None, task = 0, ctx = Context_new (Emit 5 Done)\<rparr>],
      channels = [], event_poll = None, running = 0, num = 0, interest = Map.empty,
      system = \<lparr>epoll_create_answer = (\<lambda>i. 3), epoll_ctl_ok = (\<lambda>i. True),
        epoll_wait_answer = (\<lambda>i t. Some [])\<rparr>,
      os_calls = 0, trace = []\<rparr>"

lemma suspended_world_ok: "stack_ok {} suspended_world []"
  by (simp add: stack_ok_def suspended_world_def Context_new_def)

text \<open>Whether a call returned, and a fact of the state then: for evaluating concrete runs.\<close>

definition returned :: "('s \<Rightarrow> bool) \<Rightarrow> 's res option \<Rightarrow> bool" where
  "returned P r = (case r of Some (Inr w) \<Rightarrow> P w | _ \<Rightarrow> False)"

lemma returned_iff: "returned P r \<longleftrightarrow> (\<exists>w. r = Some (Inr w) \<and> P w)"
  by (auto simp: returned_def split: option.splits sum.splits)

theorem resume_comes_back_witness:
  "\<exists>w'. resume_cid (exec 2) 1 suspended_world = Some (Inr w') \<and> trace w' = [Out 5] \<and> current w' = None"
proof -
  have "returned (\<lambda>w. trace w = [Out 5]) (resume_cid (exec 2) 1 suspended_world)" by code_simp
  then obtain w' where w': "resume_cid (exec 2) 1 suspended_world = Some (Inr w')" "trace w' = [Out 5]"
    by (auto simp: returned_iff)
  have "current w' = current suspended_world"
    using resume_comes_back [OF suspended_world_ok w'(1)] by blast
  with w' show ?thesis by (simp add: suspended_world_def)
qed

text \<open>
  C12: \<open>Coroutine::create\<close> gives the new coroutine an id that none has and that no later one
  gets, and comes back to its caller when the new coroutine first gives up the processor.
\<close>

theorem create_fresh:
  assumes "stack_ok {} w cs" and "create (exec n) fn w = Some (Inr w')"
  shows "coroutines w (Suc (last_cid w)) = None \<and> Suc (last_cid w) \<le> last_cid w' \<and>
    current w' = current w \<and> stack_ok {} w' cs"
proof -
  have r: "returns_to cs w w'" by (rule sched.create_returns [OF assms(2,1)])
  have "coroutines w (Suc (last_cid w)) = None"
    using assms(1) by (cases "coroutines w (Suc (last_cid w))") (force simp: stack_ok_def)+
  moreover have "Suc (last_cid w) \<le> last_cid w'"
  proof -
    let ?w = "Coroutine_new fn w"
    have "stack_ok {} ?w cs" by (rule stack_ok_spawn [OF assms(1)])
    moreover have "current ?w \<noteq> Some (Suc (last_cid w))"
      using assms(1) by (cases cs) (force simp: stack_ok_def Coroutine_new_def)+
    ultimately have "returns_to cs ?w w'"
      using assms(2) by (intro sched.enter_returns [of n "Suc (last_cid w)"])
        (auto simp: create_def Coroutine_run_def Coroutine_new_def)
    then have "last_cid ?w \<le> last_cid w'" by (auto simp: returns_to_def dest: sched_steps_last_cid)
    then show ?thesis by (simp add: Coroutine_new_def)
  qed
  ultimately show ?thesis using r assms(1) by (auto simp: returns_to_def stack_ok_def)
qed

theorem create_fresh_witness:
  "\<exists>w'. create (exec 2) (Yield Done) suspended_world = Some (Inr w') \<and> 2 \<le> last_cid w' \<and> current w' = None"
proof -
  have "returned (\<lambda>w. True) (create (exec 2) (Yield Done) suspended_world)" by code_simp
  then obtain w' where w': "create (exec 2) (Yield Done) suspended_world = Some (Inr w')"
    by (auto simp: returned_iff)
  with create_fresh [OF suspended_world_ok w'] show ?thesis by (auto simp: suspended_world_def)
qed

section \<open>Deferred tasks\<close>

definition emits :: "nat list \<Rightarrow> prog" where
  "emits ns = foldr Emit ns Done"

definition defers :: "nat list list \<Rightarrow> prog" where
  "defers nss = foldr (\<lambda>ns k. Defer (emits ns) k) nss Done"

definition tasks_fuel :: "nat list list \<Rightarrow> nat" where
  "tasks_fuel nss = sum_list (map (\<lambda>ns. Suc (length ns)) nss)"

lemma exec_emits:
  "exec (n + length ns) c (emits ns) w = exec n c Done (w\<lparr>trace := trace w @ map Out ns\<rparr>)"
  by (induction ns arbitrary: w) (simp_all add: emits_def exec_step_def observe_def)

lemma exec_tasks:
  assumes "coroutines w c = Some co" and "defer_tasks (ctx co) = map emits nss"
  shows "\<exists>w'. exec (Suc (tasks_fuel nss)) c Done w = Some (Inr w') \<and>
    trace w' = trace w @ map Out (concat nss) \<and>
    (\<exists>co'. coroutines w' c = Some co' \<and> is_end (ctx co'))"
  using assms
proof (induction nss arbitrary: w co)
  case Nil
  then show ?case
    by (simp add: tasks_fuel_def exec_step_def context_return_def co_setters)
next
  case (Cons ns nss)
  let ?w = "upd_co c (set_defer_tasks (map emits nss)) w"
  let ?w1 = "?w\<lparr>trace := trace ?w @ map Out ns\<rparr>"
  have "exec (Suc (tasks_fuel (ns # nss))) c Done w =
      exec (Suc (tasks_fuel nss) + length ns) c (emits ns) ?w"
    using Cons.prems by (simp add: tasks_fuel_def exec_step_def context_return_def ac_simps
        del: add_Suc add_Suc_right) (simp add: ac_simps)
  also have "\<dots> = exec (Suc (tasks_fuel nss)) c Done ?w1" by (rule exec_emits)
  finally have *: "exec (Suc (tasks_fuel (ns # nss))) c Done w = exec (Suc (tasks_fuel nss)) c Done ?w1" .
  show ?case
    using Cons.IH [of ?w1] Cons.prems unfolding * by (auto simp: co_setters simp del: exec.simps)
qed

lemma exec_defers:
  assumes "coroutines w c = Some co" and "current w = Some c"
  shows "\<exists>w1. exec (n + length nss) c (defers nss) w = exec n c Done w1 \<and> trace w1 = trace w \<and>
    (\<exists>co'. coroutines w1 c = Some co' \<and>
       defer_tasks (ctx co') = map emits (rev nss) @ defer_tasks (ctx co))"
  using assms
proof (induction nss arbitrary: w co)
  case Nil
  then show ?case by (auto simp: defers_def)
next
  case (Cons ns nss)
  let ?w = "Context_defer c (emits ns) w"
  have "exec (n + length (ns # nss)) c (defers (ns # nss)) w = exec (n + length nss) c (defers nss) ?w"
    using Cons.prems by (simp add: defers_def exec_step_def defer_co_def act_then_def)
  moreover have "coroutines ?w c = Some (set_defer_tasks (emits ns # defer_tasks (ctx co)) co)" "current ?w = Some c"
    "trace ?w = trace w"
    using Cons.prems by (simp_all add: Context_defer_def)
  ultimately show ?case
    using Cons.IH [of ?w] by (simp add: co_setters)
qed



end
