(* ===== verification/Scheduler_Termination.thy ===== *)
theory Scheduler_Termination
  imports Scheduler "HOL-Library.Multiset"
begin

text \<open>
  The scheduler adds no loop of its own: whatever the coroutines resume, create and defer, code
  whose own calls are well-founded gives up the processor again. The measure is the multiset of
  the pieces of code that are still to run: the running one, what the suspended coroutines have
  left, and the deferred tasks. Each call replaces a piece by smaller ones.
\<close>

section \<open>Pieces of code\<close>

inductive sub_prog :: "prog \<Rightarrow> prog \<Rightarrow> bool" where
  "sub_prog k (Emit n k)"
| "sub_prog k (Yield k)"
| "sub_prog k (ResumeCid i k)"
| "sub_prog k (ResumePtr c k)"
| "sub_prog fn (Create fn q)"
| "sub_prog (q c) (Create fn q)"
| "sub_prog (q x) (GetCurrent q)"
| "sub_prog t (Defer t k)"
| "sub_prog k (Defer t k)"
| "sub_prog k (Sleep s k)"
| "sub_prog (q ch) (ChannelNew m q)"
| "sub_prog (PushResumed ch v f) (Push ch v s f)"
| "sub_prog (PopResumed ch g) (Pop ch s g)"
| "sub_prog (WaitResumed fd f) (WaitEvent fd e f)"
| "sub_prog (f b) (WaitEvent fd e f)"
| "sub_prog (f b) (Push ch v s f)"
| "sub_prog (g v) (Pop ch s g)"
| "sub_prog (f b) (PushResumed ch v f)"
| "sub_prog (g v) (PopResumed ch g)"
| "sub_prog (f b) (WaitResumed fd f)"

inductive_simps sub_prog_simps:
  "sub_prog p Done" "sub_prog p (Emit n k)" "sub_prog p (Yield k)" "sub_prog p (ResumeCid i k)"
  "sub_prog p (ResumePtr c k)" "sub_prog p (Create fn q)" "sub_prog p (GetCurrent q)"
  "sub_prog p (Defer t k)" "sub_prog p (Sleep s k)" "sub_prog p (ChannelNew m q)"
  "sub_prog p (Push ch v s f)" "sub_prog p (Pop ch s g)" "sub_prog p (WaitEvent fd e f)"
  "sub_prog p (PushResumed ch v f)" "sub_prog p (PopResumed ch g)" "sub_prog p (WaitResumed fd f)"

lemma accp_sub_prog: "Wellfounded.accp sub_prog p"
proof (induction p)
  case (Push ch v s f)
  then have f: "Wellfounded.accp sub_prog (f b)" for b by simp
  have r: "Wellfounded.accp sub_prog (PushResumed ch v f)"
    by (rule accpI) (auto simp only: sub_prog_simps intro: f)
  show ?case by (rule accpI) (auto simp only: sub_prog_simps intro: f r)
next
  case (Pop ch s g)
  then have g: "Wellfounded.accp sub_prog (g v)" for v by simp
  have r: "Wellfounded.accp sub_prog (PopResumed ch g)"
    by (rule accpI) (auto simp only: sub_prog_simps intro: g)
  show ?case by (rule accpI) (auto simp only: sub_prog_simps intro: g r)
next
  case (WaitEvent fd e f)
  then have f: "Wellfounded.accp sub_prog (f b)" for b by simp
  have r: "Wellfounded.accp sub_prog (WaitResumed fd f)"
    by (rule accpI) (auto simp only: sub_prog_simps intro: f)
  show ?case by (rule accpI) (auto simp only: sub_prog_simps intro: f r)
qed (rule accpI, auto simp only: sub_prog_simps)+

definition piece_rel :: "(prog \<times> prog) set" where
  "piece_rel = {(p, q). sub_prog p q}"

lemma wf_piece_rel: "wf piece_rel"
proof -
  have "wfp sub_prog" using accp_sub_prog by (simp add: accp_wfpI)
  then show ?thesis by (simp add: piece_rel_def wfp_def)
qed

definition lt :: "prog multiset \<Rightarrow> prog multiset \<Rightarrow> bool" where
  "lt M N \<longleftrightarrow> (M, N) \<in> mult piece_rel"

definition le :: "prog multiset \<Rightarrow> prog multiset \<Rightarrow> bool" where
  "le M N \<longleftrightarrow> M = N \<or> lt M N"

lemma wf_lt: "wf {(M, N). lt M N}"
  by (simp add: lt_def wf_mult wf_piece_rel)

lemma lt_replace: "(\<And>k. k \<in># K \<Longrightarrow> sub_prog k p) \<Longrightarrow> lt (M + K) (add_mset p M)"
  using one_step_implies_mult [of "{#p#}" K piece_rel M] by (simp add: lt_def piece_rel_def)

lemma lt_trans: "lt A B \<Longrightarrow> lt B C \<Longrightarrow> lt A C"
  unfolding lt_def mult_def by (rule trancl_trans)

lemma le_refl [simp]: "le A A"
  by (simp add: le_def)

lemma le_lt_trans: "le A B \<Longrightarrow> lt B C \<Longrightarrow> lt A C"
  by (auto simp: le_def intro: lt_trans)

lemma lt_le_trans: "lt A B \<Longrightarrow> le B C \<Longrightarrow> lt A C"
  by (auto simp: le_def intro: lt_trans)

lemma le_trans: "le A B \<Longrightarrow> le B C \<Longrightarrow> le A C"
  by (auto simp: le_def intro: lt_trans)

lemma lt_union: "lt A B \<Longrightarrow> lt (C + A) (C + B)"
  unfolding lt_def mult_def
  by (induction rule: trancl_induct) (auto intro: mult1_union trancl_into_trancl)

lemma le_union: "le A B \<Longrightarrow> le (C + A) (C + B)"
  by (auto simp: le_def lt_union)

lemma le_subset: "le A (A + B)"
proof (induction B)
  case (add x B)
  have "lt (A + B) (add_mset x (A + B))" using lt_replace [of "{#}" x "A + B"] by simp
  with add show ?case by (auto simp: le_def intro: lt_trans)
qed simp

text \<open>Running the piece \<open>k\<close> of \<open>p\<close> next, after a call that made some \<open>K\<close> of the pieces of \<open>p\<close>.\<close>

lemma lt_next:
  assumes "le P (K + Q)" and "sub_prog k p" and "\<And>k. k \<in># K \<Longrightarrow> sub_prog k p"
  shows "lt (add_mset k P) (add_mset p Q)"
proof -
  have "le (add_mset k P) (Q + add_mset k K)"
    using le_union [OF assms(1), of "{#k#}"] by (simp add: ac_simps)
  moreover have "lt (Q + add_mset k K) (add_mset p Q)"
    by (rule lt_replace) (use assms(2,3) in auto)
  ultimately show ?thesis by (rule le_lt_trans)
qed

section \<open>Pending code\<close>

definition co_pieces :: "coroutine \<Rightarrow> prog multiset" where
  "co_pieces co = (case saved (ctx co) of None \<Rightarrow> {#} | Some p \<Rightarrow> {#p#}) + mset (defer_tasks (ctx co))"

definition pending :: "world \<Rightarrow> prog multiset" where
  "pending w = (\<Sum>c \<in> dom (coroutines w). co_pieces (the (coroutines w c)))"

definition ids_ok :: "world \<Rightarrow> bool" where
  "ids_ok w \<longleftrightarrow> dom (coroutines w) \<subseteq> {..last_cid w}"

lemma pending_cong: "coroutines w' = coroutines w \<Longrightarrow> pending w' = pending w"
  by (simp add: pending_def)

lemma ids_ok_cong: "coroutines w' = coroutines w \<Longrightarrow> last_cid w' = last_cid w \<Longrightarrow> ids_ok w' = ids_ok w"
  by (simp add: ids_ok_def)

lemma ids_ok_finite: "ids_ok w \<Longrightarrow> finite (dom (coroutines w))"
  unfolding ids_ok_def by (rule finite_subset [OF _ finite_atMost])

lemma pending_erase:
  assumes "ids_ok w" and "coroutines w c = Some co" and "coroutines w' = (coroutines w)(c := None)"
  shows "pending w = pending w' + co_pieces co"
proof -
  have "pending w = co_pieces co + (\<Sum>c \<in> dom (coroutines w) - {c}. co_pieces (the (coroutines w c)))"
    using sum.remove [OF ids_ok_finite [OF assms(1)], of c "\<lambda>c. co_pieces (the (coroutines w c))"] assms(2)
    by (auto simp: pending_def)
  also have "(\<Sum>c \<in> dom (coroutines w) - {c}. co_pieces (the (coroutines w c))) = pending w'"
    unfolding pending_def assms(3) by (intro sum.cong) auto
  finally show ?thesis by simp
qed

lemma pending_insert:
  assumes "ids_ok w" and "coroutines w c = None" and "coroutines w' = (coroutines w)(c \<mapsto> co)"
  shows "pending w' = pending w + co_pieces co"
proof -
  have "pending w' = co_pieces co + (\<Sum>d \<in> dom (coroutines w). co_pieces (the (coroutines w' d)))"
    using assms by (simp add: pending_def ids_ok_finite domIff)
  also have "(\<Sum>d \<in> dom (coroutines w). co_pieces (the (coroutines w' d))) = pending w"
    unfolding pending_def using assms(2,3) by (intro sum.cong) auto
  finally show ?thesis by simp
qed

lemma pending_update:
  assumes "ids_ok w" and "coroutines w c = Some co"
  shows "pending (upd_co c f w) + co_pieces co = pending w + co_pieces (f co)"
proof -
  let ?w0 = "w\<lparr>coroutines := (coroutines w)(c := None)\<rparr>"
  have "pending w = pending ?w0 + co_pieces co"
    using assms by (intro pending_erase) simp_all
  moreover have "ids_ok ?w0" using assms(1) by (auto simp: ids_ok_def)
  then have "pending (upd_co c f w) = pending ?w0 + co_pieces (f co)"
    using assms(2) by (intro pending_insert [of ?w0 c]) (simp_all)
  ultimately show ?thesis by simp
qed

lemma ids_ok_upd [simp]: "ids_ok w \<Longrightarrow> ids_ok (upd_co c f w)"
  by (auto simp: ids_ok_def split: if_splits)

section \<open>Halting\<close>

text \<open>With enough fuel, and any more, the code ends with one result; if it is a state, it has \<open>Q\<close>.\<close>

definition halts :: "(runner \<Rightarrow> world res option) \<Rightarrow> (world \<Rightarrow> bool) \<Rightarrow> bool" where
  "halts m Q \<longleftrightarrow> (\<exists>n r. (\<forall>n' \<ge> n. m (exec n') = Some r) \<and> (\<forall>w. r = Inr w \<longrightarrow> Q w))"

definition shrinks :: "prog multiset \<Rightarrow> world \<Rightarrow> bool" where
  "shrinks N w \<longleftrightarrow> ids_ok w \<and> le (pending w) N"

definition ends :: "prog multiset \<Rightarrow> world \<Rightarrow> bool" where
  "ends N w \<longleftrightarrow> ids_ok w \<and> lt (pending w) N"

lemma halts_Some [simp]: "halts (\<lambda>R. Some r) Q \<longleftrightarrow> (\<forall>w. r = Inr w \<longrightarrow> Q w)"
  by (auto simp: halts_def)

lemma halts_fault [simp]: "halts (\<lambda>R. act_fault e w) Q"
  by (simp add: act_fault_def)

lemma halts_mono: "halts m P \<Longrightarrow> (\<And>w. P w \<Longrightarrow> Q w) \<Longrightarrow> halts m Q"
  unfolding halts_def by blast

lemma halts_then:
  assumes "halts (\<lambda>R. a R w) P" and "\<And>w1. P w1 \<Longrightarrow> halts (\<lambda>R. b R w1) Q"
  shows "halts (\<lambda>R. act_then (a R) (b R) w) Q"
proof -
  obtain n r where a: "\<And>n'. n' \<ge> n \<Longrightarrow> a (exec n') w = Some r" and P: "\<And>w. r = Inr w \<Longrightarrow> P w"
    using assms(1) by (auto simp: halts_def)
  show ?thesis
  proof (cases r)
    case (Inl e)
    then have "act_then (a (exec n')) (b (exec n')) w = Some (Inl e)" if "n' \<ge> n" for n'
      using that a by (simp add: act_then_def)
    then show ?thesis unfolding halts_def by blast
  next
    case (Inr w1)
    obtain m r' where b: "\<And>n'. n' \<ge> m \<Longrightarrow> b (exec n') w1 = Some r'" and Q: "\<And>w. r' = Inr w \<Longrightarrow> Q w"
      using assms(2) [OF P [OF Inr]] by (auto simp: halts_def)
    have "act_then (a (exec n')) (b (exec n')) w = Some r'" if "n' \<ge> max n m" for n'
      using that a b Inr by (simp add: act_then_def)
    then show ?thesis using Q unfolding halts_def by blast
  qed
qed

lemma halts_exec:
  assumes "halts (\<lambda>R. exec_step R c p w) Q"
  shows "halts (\<lambda>R. R c p w) Q"
proof -
  obtain n r where a: "\<And>n'. n' \<ge> n \<Longrightarrow> exec_step (exec n') c p w = Some r" and Q: "\<And>w. r = Inr w \<Longrightarrow> Q w"
    using assms by (auto simp: halts_def)
  have "exec n' c p w = Some r" if "n' \<ge> Suc n" for n'
    using that a [of "n' - 1"] by (cases n') auto
  then show ?thesis using Q unfolding halts_def by blast
qed

lemma pending_enter:
  assumes "ids_ok w" and "coroutines w c = Some co" and "saved (ctx co) = Some p"
  shows "add_mset p (pending (enter c w)) = pending w"
proof -
  let ?f = "\<lambda>co. set_saved None (co\<lparr>origin := current w\<rparr>)" and ?w = "w\<lparr>current := Some c\<rparr>"
  have "ids_ok ?w" "pending ?w = pending w" "coroutines ?w c = Some co"
    using assms by (simp_all add: ids_ok_def pending_def)
  then have "pending (enter c w) + co_pieces co = pending w + co_pieces (?f co)"
    using pending_update [of ?w c co ?f] by (simp add: enter_def)
  then show ?thesis using assms(3) by (simp add: co_pieces_def co_setters)
qed

lemma pending_leave:
  assumes "ids_ok w" and "coroutines w c = Some co"
  shows "le (pending (upd_co c (set_saved (Some k)) w)) (add_mset k (pending w))"
proof -
  let ?w = "upd_co c (set_saved (Some k)) w"
  have e: "pending ?w + co_pieces co = pending w + co_pieces (set_saved (Some k) co)"
    by (rule pending_update [OF assms])
  show ?thesis
  proof (cases "saved (ctx co)")
    case None
    with e show ?thesis by (simp add: co_pieces_def co_setters)
  next
    case (Some q)
    with e have "add_mset k (pending w) = pending ?w + {#q#}" by (simp add: co_pieces_def co_setters)
    then show ?thesis by (simp only: le_subset)
  qed
qed

lemma yield_halts:
  assumes "ids_ok w" and "lt (add_mset k (pending w)) M"
  shows "halts (\<lambda>R. yield_co k w) (ends M)"
proof (cases "current w")
  case None
  then show ?thesis by (simp add: yield_co_def)
next
  case (Some c)
  show ?thesis
  proof (cases "coroutines w c")
    case None
    then show ?thesis using Some by (simp add: yield_co_def)
  next
    case co: (Some co)
    let ?w = "w\<lparr>current := origin co\<rparr>"
    have "ids_ok ?w" "pending ?w = pending w" using assms(1) by (simp_all add: ids_ok_def pending_def)
    then have "ends M (upd_co c (set_saved (Some k)) ?w)"
      using pending_leave [of ?w c co k] co assms(2) by (auto simp: ends_def intro: le_lt_trans)
    then show ?thesis using Some co by (simp add: yield_co_def swap_out_def)
  qed
qed

text \<open>What a call may use of the code it runs: all that is below the bound \<open>M\<close> halts.\<close>

locale halting =
  fixes M :: "prog multiset"
  assumes smaller: "ids_ok w \<Longrightarrow> lt (add_mset p (pending w)) M \<Longrightarrow>
    halts (\<lambda>R. R c p w) (ends (add_mset p (pending w)))"
begin

lemma run_halts:
  "ids_ok w \<Longrightarrow> lt (add_mset k (pending w)) M \<Longrightarrow> halts (\<lambda>R. R c k w) (ends M)"
  by (rule halts_mono [OF smaller]) (auto simp: ends_def intro: lt_trans)

lemma enter_halts:
  assumes "ids_ok w" and "coroutines w c = Some co" and "lt (pending w) M"
  shows "halts (\<lambda>R. act_then (swap_in R c) (after_swap_in c)
      (upd_co c (\<lambda>co. co\<lparr>origin := current w\<rparr>) (w\<lparr>current := Some c\<rparr>))) (shrinks (pending w))"
    (is "halts (\<lambda>R. act_then _ _ ?w) _")
proof (rule halts_then)
  show "halts (\<lambda>R. swap_in R c ?w) (ends (pending w))"
  proof (cases "saved (ctx co)")
    case None
    then show ?thesis using assms(2) by (simp add: swap_in_def)
  next
    case (Some p)
    have "ids_ok (enter c w)" using assms(1) by (auto simp: ids_ok_def enter_def split: if_splits)
    then have "halts (\<lambda>R. R c p (enter c w)) (ends (pending w))"
      using smaller [of "enter c w" p c] pending_enter [OF assms(1,2) Some] assms(3) by simp
    then show ?thesis using assms(2) Some enter_eq [of c w] by (simp add: swap_in_def)
  qed
next
  fix w1 assume e: "ends (pending w) w1"
  show "halts (\<lambda>R. after_swap_in c w1) (shrinks (pending w))"
  proof (cases "coroutines w1 c")
    case None
    then show ?thesis by (simp add: after_swap_in_def)
  next
    case (Some co)
    let ?w = "w1\<lparr>current := origin co, coroutines := (coroutines w1)(c := None)\<rparr>"
    have "ids_ok ?w" using e by (auto simp: ends_def ids_ok_def)
    moreover have "pending w1 = pending ?w + co_pieces co"
      using e Some by (intro pending_erase) (auto simp: ends_def)
    then have "le (pending ?w) (pending w1)" by (simp only: le_subset)
    ultimately have "shrinks (pending w) ?w" "shrinks (pending w) w1"
      using e by (auto simp: ends_def shrinks_def le_def intro: lt_trans)
    then show ?thesis using Some by (simp add: after_swap_in_def)
  qed
qed

lemma resume_halts:
  assumes "ids_ok w" and "lt (pending w) M"
  shows "halts (\<lambda>R. resume_ptr R c w) (shrinks (pending w))"
proof (cases "coroutines w c")
  case None
  then show ?thesis by (cases "current w = Some c") (simp_all add: resume_ptr_def)
next
  case (Some co)
  with enter_halts [OF assms(1) Some assms(2)] show ?thesis
    by (cases "current w = Some c") (simp_all add: resume_ptr_def)
qed

lemma resume_cid_halts:
  "ids_ok w \<Longrightarrow> lt (pending w) M \<Longrightarrow> halts (\<lambda>R. resume_cid R i w) (shrinks (pending w))"
  by (cases "get_by_cid i w") (simp_all add: resume_cid_def resume_halts)

lemma create_halts:
  assumes "ids_ok w" and "lt (add_mset fn (pending w)) M"
  shows "halts (\<lambda>R. create R fn w) (shrinks (add_mset fn (pending w)))"
proof -
  let ?c = "Suc (last_cid w)" and ?w = "Coroutine_new fn w"
  let ?co = "\<lparr>origin = None, task = 0, ctx = Context_new fn\<rparr>"
  have "coroutines w ?c = None" using assms(1) by (force simp: ids_ok_def)
  then have "pending ?w = add_mset fn (pending w)"
    using pending_insert [OF assms(1), of ?c ?w ?co] by (simp add: Coroutine_new_def co_pieces_def Context_new_def)
  moreover have "ids_ok ?w" using assms(1) by (force simp: ids_ok_def Coroutine_new_def)
  moreover have "coroutines ?w ?c = Some ?co" by (simp add: Coroutine_new_def)
  ultimately show ?thesis
    using enter_halts [of ?w ?c ?co] assms(2) by (simp add: create_def Coroutine_run_def)
qed

lemma then_run_halts:
  assumes "halts (\<lambda>R. m R w) (shrinks N)" and "lt (add_mset k N) M"
  shows "halts (\<lambda>R. act_then (m R) (R c k) w) (ends M)"
proof (rule halts_then)
  show "halts (\<lambda>R. m R w) (shrinks N)" by (rule assms(1))
next
  fix w1 assume "shrinks N w1"
  then show "halts (\<lambda>R. R c k w1) (ends M)"
    using le_union [of "pending w1" N "{#k#}"] assms(2)
    by (intro run_halts) (auto simp: shrinks_def intro: le_lt_trans)
qed

lemma context_return_halts:
  assumes "ids_ok w" and "M = add_mset Done (pending w)"
  shows "halts (\<lambda>R. context_return R c w) (ends M)"
proof (cases "coroutines w c")
  case None
  then show ?thesis by (simp add: context_return_def)
next
  case (Some co)
  note u = pending_update [OF assms(1) Some]
  have less: "lt (pending w) M" using lt_replace [of "{#}" Done "pending w"] assms(2) by simp
  show ?thesis
  proof (cases "defer_tasks (ctx co)")
    case Nil
    have "pending (upd_co c (set_is_end True) w) = pending w"
      using u [of "set_is_end True"] by (simp add: co_pieces_def co_setters)
    then show ?thesis using Some Nil assms(1) less by (simp add: context_return_def ends_def)
  next
    case (Cons t ts)
    let ?w = "upd_co c (set_defer_tasks ts) w"
    have "add_mset t (pending ?w) = pending w"
      using u [of "set_defer_tasks ts"] Cons by (simp add: co_pieces_def co_setters)
    then have "halts (\<lambda>R. R c t ?w) (ends M)" using assms(1) less by (intro run_halts) simp_all
    then show ?thesis using Some Cons by (simp add: context_return_def)
  qed
qed

lemma defer_halts:
  assumes "ids_ok w"
  shows "halts (\<lambda>R. defer_co t w) (shrinks (add_mset t (pending w)))"
proof (cases "current w")
  case None
  then show ?thesis by (simp add: defer_co_def)
next
  case (Some c)
  let ?f = "\<lambda>co. set_defer_tasks (t # defer_tasks (ctx co)) co"
  have "le (pending (upd_co c ?f w)) (add_mset t (pending w))"
  proof (cases "coroutines w c")
    case None
    then have "pending (upd_co c ?f w) = pending w" by (intro pending_cong) auto
    then show ?thesis using le_subset [of "pending w" "{#t#}"] by simp
  next
    case (Some co)
    from pending_update [OF assms Some, of ?f] show ?thesis by (simp add: co_pieces_def co_setters)
  qed
  then show ?thesis using Some assms by (simp add: defer_co_def Context_defer_def shrinks_def)
qed

text \<open>Calls that leave the coroutines alone and then run on.\<close>

lemma run_same_halts:
  assumes "ids_ok w" and "lt (add_mset k (pending w)) M" and "coroutines w1 = coroutines w"
    and "last_cid w1 = last_cid w"
  shows "halts (\<lambda>R. R c k w1) (ends M)"
  using run_halts [of w1 k c] assms pending_cong [OF assms(3)] ids_ok_cong [OF assms(3,4)] by simp

lemma yield_same_halts:
  assumes "ids_ok w" and "lt (add_mset k (pending w)) M" and "coroutines w1 = coroutines w"
    and "last_cid w1 = last_cid w"
  shows "halts (\<lambda>R. yield_co k w1) (ends M)"
  using yield_halts [of w1 k M] assms pending_cong [OF assms(3)] ids_ok_cong [OF assms(3,4)] by simp

lemma notice_halts:
  assumes "ids_ok w" and "lt (pending w) M" and "coroutines w1 = coroutines w" and "last_cid w1 = last_cid w"
  shows "halts (\<lambda>R. notice_producer R ch w1) (shrinks (pending w))"
    and "halts (\<lambda>R. notice_consumer R ch w1) (shrinks (pending w))"
proof -
  have w: "ids_ok w2 \<and> pending w2 = pending w" if "coroutines w2 = coroutines w" "last_cid w2 = last_cid w" for w2
    using assms(1) pending_cong [OF that(1)] ids_ok_cong [OF that] by simp
  note r = resume_halts [of "upd_chan ch f w1" c for f c]
  show "halts (\<lambda>R. notice_producer R ch w1) (shrinks (pending w))"
    using w [of w1] w [of "upd_chan ch _ w1"] r assms
    by (cases "producer_queue (channels w1 ! ch)") (simp_all add: notice_producer_def shrinks_def [abs_def])
  show "halts (\<lambda>R. notice_consumer R ch w1) (shrinks (pending w))"
    using w [of w1] w [of "upd_chan ch _ w1"] r assms
    by (cases "consumer_queue (channels w1 ! ch)") (simp_all add: notice_consumer_def shrinks_def [abs_def])
qed

lemma pop_resumed_halts:
  assumes "ids_ok w" and "\<And>v. lt (add_mset (k v) (pending w)) M" and "lt (pending w) M"
  shows "halts (\<lambda>R. pop_resumed R c ch k w) (ends M)"
proof (cases "ch < length (channels w)")
  case False
  then show ?thesis by (simp add: pop_resumed_def with_chan_def)
next
  case True
  show ?thesis
  proof (cases "data_queue (channels w ! ch)")
    case Nil
    then show ?thesis using True run_halts [OF assms(1,2)] by (simp add: pop_resumed_def with_chan_def)
  next
    case (Cons v vs)
    let ?w = "observe (Popped ch v) (upd_chan ch (data_queue_update (\<lambda>_. vs)) w)"
    have "halts (\<lambda>R. act_then (notice_producer R ch) (R c (k v)) ?w) (ends M)"
      using assms by (intro then_run_halts [where N = "pending w"] notice_halts) simp_all
    then show ?thesis using True Cons by (simp add: pop_resumed_def with_chan_def)
  qed
qed

lemma push_resumed_halts:
  assumes "ids_ok w" and "\<And>b. lt (add_mset (k b) (pending w)) M" and "lt (pending w) M"
  shows "halts (\<lambda>R. push_resumed R c ch v k w) (ends M)"
proof (cases "ch < length (channels w)")
  case False
  then show ?thesis by (simp add: push_resumed_def with_chan_def)
next
  case True
  show ?thesis
  proof (cases "length (data_queue (channels w ! ch)) = capacity (channels w ! ch)")
    case full: True
    then show ?thesis using True run_halts [OF assms(1,2)] by (simp add: push_resumed_def with_chan_def)
  next
    case False
    let ?w = "observe (Pushed ch v) (upd_chan ch (data_queue_update (\<lambda>q. q @ [v])) w)"
    have "halts (\<lambda>R. act_then (notice_consumer R ch) (R c (k True)) ?w) (ends M)"
      using assms by (intro then_run_halts [where N = "pending w"] notice_halts) simp_all
    then show ?thesis using True False by (simp add: push_resumed_def with_chan_def)
  qed
qed

lemma pop_halts:
  assumes "ids_ok w" and "\<And>v. lt (add_mset (k v) (pending w)) M" and "lt (pending w) M"
    and "lt (add_mset (PopResumed ch k) (pending w)) M"
  shows "halts (\<lambda>R. pop_chan R c ch t k w) (ends M)"
  using pop_resumed_halts [OF assms(1-3)] yield_same_halts [OF assms(1,4)]
  by (cases "ch < length (channels w)"; cases "data_queue (channels w ! ch) = []"; cases "current w")
    (simp_all add: pop_chan_def with_chan_def)

lemma push_halts:
  assumes "ids_ok w" and "\<And>b. lt (add_mset (k b) (pending w)) M" and "lt (pending w) M"
    and "lt (add_mset (PushResumed ch v k) (pending w)) M"
  shows "halts (\<lambda>R. push_chan R c ch v t k w) (ends M)"
  using push_resumed_halts [OF assms(1-3)] yield_same_halts [OF assms(1,4)]
  by (cases "ch < length (channels w)"; cases "length (data_queue (channels w ! ch)) = capacity (channels w ! ch)";
      cases "current w") (simp_all add: push_chan_def with_chan_def)

lemma ctl_same:
  "epoll_ctl_add fd d w = (ok, w1) \<Longrightarrow> coroutines w1 = coroutines w \<and> last_cid w1 = last_cid w"
  "epoll_ctl_del fd w = (ok, w1) \<Longrightarrow> coroutines w1 = coroutines w \<and> last_cid w1 = last_cid w"
  by (auto simp: epoll_ctl_add_def epoll_ctl_del_def Let_def split: if_splits)

lemma wait_event_halts:
  assumes "ids_ok w" and "\<And>b. lt (add_mset (k b) (pending w)) M"
    and "lt (add_mset (WaitResumed fd k) (pending w)) M"
  shows "halts (\<lambda>R. wait_event R c fd e k w) (ends M)"
proof (cases "current w = None \<or> event_poll w = None")
  case True
  then show ?thesis by (cases "current w"; cases "event_poll w") (auto simp: wait_event_def)
next
  case False
  then obtain c1 p where cp: "current w = Some c1" "event_poll w = Some p" by auto
  let ?ev = "wait_entry fd e c1"
  obtain ok w1 where ctl: "epoll_ctl_add fd (snd ?ev) (upd_poll (\<lambda>p. p\<lparr>events := (events p)[0 := ?ev]\<rparr>) w) = (ok, w1)"
    by force
  then have "coroutines w1 = coroutines w" "last_cid w1 = last_cid w" using ctl_same(1) [OF ctl] by simp_all
  then show ?thesis
    using cp ctl yield_same_halts [OF assms(1,3)] run_same_halts [OF assms(1,2)]
    by (cases ok) (simp_all add: wait_event_def Let_def)
qed

lemma wait_resumed_halts:
  assumes "ids_ok w" and "\<And>b. lt (add_mset (k b) (pending w)) M"
  shows "halts (\<lambda>R. wait_resumed R c fd k w) (ends M)"
proof (cases "event_poll w")
  case None
  then show ?thesis by (simp add: wait_resumed_def)
next
  case (Some p)
  obtain ok w1 where ctl: "epoll_ctl_del fd w = (ok, w1)" by force
  then show ?thesis
    using Some run_same_halts [OF assms(1,2)] ctl_same(2) [OF ctl]
    by (cases ok) (simp_all add: wait_resumed_def)
qed

lemma exec_step_halts:
  assumes "ids_ok w" and M: "M = add_mset p (pending w)"
  shows "halts (\<lambda>R. exec_step R c p w) (ends M)"
proof -
  have sub: "lt (add_mset k (pending w)) M" if "sub_prog k p" for k
    using lt_replace [of "{#k#}" p "pending w"] that M by simp
  have sub2: "lt (add_mset k (add_mset t (pending w))) M" if "sub_prog k p" "sub_prog t p" for k t
    using lt_replace [of "{#k, t#}" p "pending w"] that M by auto
  have less: "lt (pending w) M" using lt_replace [of "{#}" p "pending w"] M by simp
  note same = run_same_halts [OF assms(1) sub]
  show ?thesis
  proof (cases p)
    case Done
    then show ?thesis using context_return_halts [OF assms(1)] M by (simp add: exec_step_def)
  next
    case (Emit n k)
    then show ?thesis using same [of k "observe (Out n) w"] by (simp add: exec_step_def sub_prog_simps)
  next
    case (Yield k)
    then show ?thesis using yield_halts [OF assms(1) sub] by (simp add: exec_step_def sub_prog_simps)
  next
    case (ResumeCid i k)
    then show ?thesis
      using then_run_halts [where m = "\<lambda>R. resume_cid R i" and w = w, OF resume_cid_halts [OF assms(1) less] sub] by (simp add: exec_step_def sub_prog_simps)
  next
    case (ResumePtr i k)
    then show ?thesis
      using then_run_halts [where m = "\<lambda>R. resume_ptr R i" and w = w, OF resume_halts [OF assms(1) less] sub] by (simp add: exec_step_def sub_prog_simps)
  next
    case (Create fn k)
    have "lt (add_mset fn (pending w)) M" by (rule sub) (simp add: Create sub_prog.intros)
    moreover have "lt (add_mset (k x) (add_mset fn (pending w))) M" for x
      by (rule sub2) (simp_all add: Create sub_prog.intros)
    ultimately show ?thesis
      using Create then_run_halts [where m = "\<lambda>R. create R fn" and w = w, OF create_halts [OF assms(1)]]
      by (simp add: exec_step_def)
  next
    case (GetCurrent k)
    then show ?thesis using same [of "k (current w)" w] by (simp add: exec_step_def sub_prog.intros)
  next
    case (Defer t k)
    then show ?thesis
      using then_run_halts [where m = "\<lambda>R. defer_co t" and w = w, OF defer_halts [OF assms(1)] sub2] by (simp add: exec_step_def sub_prog_simps)
  next
    case (Sleep t k)
    then show ?thesis
      using yield_same_halts [OF assms(1) sub] by (cases "current w") (simp_all add: exec_step_def sleep_co_def sub_prog_simps)
  next
    case (ChannelNew n k)
    have "halts (\<lambda>R. alloc_channel n w) (shrinks (pending w))"
      using assms(1) by (simp add: alloc_channel_def shrinks_def pending_def ids_ok_def)
    moreover have "lt (add_mset (k x) (pending w)) M" for x by (rule sub) (simp add: ChannelNew sub_prog.intros)
    ultimately show ?thesis
      using ChannelNew then_run_halts [where m = "\<lambda>R. alloc_channel n" and w = w] by (simp add: exec_step_def)
  next
    case (Push ch v t k)
    then show ?thesis
      using push_halts [OF assms(1) sub less sub] by (simp add: exec_step_def sub_prog.intros)
  next
    case (Pop ch t k)
    then show ?thesis
      using pop_halts [OF assms(1) sub less sub] by (simp add: exec_step_def sub_prog.intros)
  next
    case (WaitEvent fd e k)
    then show ?thesis
      using wait_event_halts [OF assms(1) sub sub] by (simp add: exec_step_def sub_prog.intros)
  next
    case (PushResumed ch v k)
    then show ?thesis
      using push_resumed_halts [OF assms(1) sub less] by (simp add: exec_step_def sub_prog.intros)
  next
    case (PopResumed ch k)
    then show ?thesis
      using pop_resumed_halts [OF assms(1) sub less] by (simp add: exec_step_def sub_prog.intros)
  next
    case (WaitResumed fd k)
    then show ?thesis
      using wait_resumed_halts [OF assms(1) sub] by (simp add: exec_step_def sub_prog.intros)
  qed
qed

end

lemma halting_all: "halting M"
proof (induction M rule: wf_induct_rule [OF wf_lt])
  case (1 M)
  show ?case
  proof unfold_locales
    fix w p c
    assume "ids_ok w" and "lt (add_mset p (pending w)) M"
    then have "halting (add_mset p (pending w))" using 1 by simp
    from halting.exec_step_halts [OF this \<open>ids_ok w\<close> refl]
    show "halts (\<lambda>R. R c p w) (ends (add_mset p (pending w)))" by (rule halts_exec)
  qed
qed

interpretation all_code: halting M for M
  by (rule halting_all)



end
