(* ===== verification/CString.thy ===== *)
theory CString
  imports Prelude
begin

text \<open>
  The parts of the C and C++ string library that the sources call: \<open>std::to_string\<close>,
  \<open>atoi\<close>, \<open>tolower\<close>, \<open>strncasecmp\<close>, \<open>c_str\<close>. Characters are bytes, in the
  default locale of the library.
\<close>

section \<open>Decimal numbers\<close>

fun dec_digits :: "nat \<Rightarrow> cstring" where
  "dec_digits n =
     (if n < 10 then [of_nat (48 + n)] else dec_digits (n div 10) @ [of_nat (48 + n mod 10)])"

declare dec_digits.simps [simp del]

definition to_string :: "int \<Rightarrow> cstring" where
  "to_string v = (if v < 0 then 45 # dec_digits (nat (- v)) else dec_digits (nat v))"

definition is_digit :: "byte \<Rightarrow> bool" where
  "is_digit c \<longleftrightarrow> 48 \<le> c \<and> c \<le> 57"

fun atoi_digits :: "nat \<Rightarrow> cstring \<Rightarrow> nat" where
  "atoi_digits acc [] = acc"
| "atoi_digits acc (c # cs) =
     (if is_digit c then atoi_digits (10 * acc + (unat c - 48)) cs else acc)"

definition is_space :: "byte \<Rightarrow> bool" where
  "is_space c \<longleftrightarrow> c = 32 \<or> (9 \<le> c \<and> c \<le> 13)"

definition atoi :: "cstring \<Rightarrow> int" where
  "atoi s =
     (case dropWhile is_space s of
        [] \<Rightarrow> 0
      | c # cs \<Rightarrow>
          if c = 45 then - int (atoi_digits 0 cs)
          else if c = 43 then int (atoi_digits 0 cs)
          else int (atoi_digits 0 (c # cs)))"

lemma unat_digit: "d < 10 \<Longrightarrow> unat (of_nat (48 + d) :: byte) = 48 + d"
  by (simp only: unat_of_nat_byte) simp

lemma is_digit_unat: "is_digit c \<longleftrightarrow> 48 \<le> unat c \<and> unat c \<le> 57"
  by (simp add: is_digit_def word_le_nat_alt)

lemma is_digit_digit: "d < 10 \<Longrightarrow> is_digit (of_nat (48 + d))"
  by (simp only: is_digit_unat unat_digit) simp

lemma dec_digits_are_digits: "\<forall>c \<in> set (dec_digits n). is_digit c"
proof (induction n rule: dec_digits.induct)
  case (1 n)
  show ?case
  proof (cases "n < 10")
    case True
    then show ?thesis
      using is_digit_digit [of n] by (simp add: dec_digits.simps [of n] del: of_nat_add)
  next
    case False
    with 1 show ?thesis
      using is_digit_digit [of "n mod 10"] by (auto simp: dec_digits.simps [of n] simp del: of_nat_add)
  qed
qed

lemma dec_digits_not_Nil: "dec_digits n \<noteq> []"
  by (subst dec_digits.simps) simp

lemma atoi_digits_append:
  "\<forall>c \<in> set xs. is_digit c \<Longrightarrow> atoi_digits acc (xs @ ys) = atoi_digits (atoi_digits acc xs) ys"
  by (induction xs arbitrary: acc) auto

lemma atoi_dec_digits: "atoi_digits 0 (dec_digits n) = n"
proof (induction n rule: dec_digits.induct)
  case (1 n)
  show ?case
  proof (cases "n < 10")
    case True
    then show ?thesis
      using is_digit_digit [of n] unat_digit [of n]
      by (simp add: dec_digits.simps [of n] del: of_nat_add)
  next
    case False
    with 1 have "atoi_digits 0 (dec_digits (n div 10)) = n div 10" by simp
    with False show ?thesis
      using is_digit_digit [of "n mod 10"] unat_digit [of "n mod 10"]
      by (simp add: dec_digits.simps [of n] atoi_digits_append dec_digits_are_digits del: of_nat_add)
  qed
qed

lemma digit_not_sign: "is_digit c \<Longrightarrow> \<not> is_space c \<and> c \<noteq> 45 \<and> c \<noteq> 43"
  by (auto simp: is_digit_def is_space_def word_le_nat_alt)

text \<open>Reading back what \<open>std::to_string\<close> printed.\<close>

lemma dec_digits_Cons: "\<exists>c cs. dec_digits n = c # cs \<and> is_digit c"
  using dec_digits_not_Nil [of n] dec_digits_are_digits [of n] by (cases "dec_digits n") auto

lemma dropWhile_space_digit: "is_digit c \<Longrightarrow> dropWhile is_space (c # cs) = c # cs"
  by (simp add: digit_not_sign)

lemma atoi_to_string [simp]: "atoi (to_string v) = v"
proof (cases "v < 0")
  case True
  have "\<not> is_space 45" by (simp add: is_space_def word_le_nat_alt)
  with True show ?thesis
    by (simp add: atoi_def to_string_def atoi_dec_digits)
next
  case False
  obtain c cs where d: "dec_digits (nat v) = c # cs" and c: "is_digit c"
    using dec_digits_Cons by blast
  have "atoi (to_string v) = int (atoi_digits 0 (c # cs))"
    using False digit_not_sign [OF c] by (simp add: atoi_def to_string_def d)
  also have "\<dots> = v" using False by (simp add: d [symmetric] atoi_dec_digits)
  finally show ?thesis .
qed

section \<open>Case-insensitive comparison\<close>

definition tolower :: "byte \<Rightarrow> byte" where
  "tolower c = (if 65 \<le> c \<and> c \<le> 90 then c + 32 else c)"

definition lowercase :: "cstring \<Rightarrow> cstring" where
  "lowercase s = map tolower s"

text \<open>A byte of a NUL-terminated string; past its end the terminator.\<close>

definition char_at :: "cstring \<Rightarrow> nat \<Rightarrow> byte" where
  "char_at s i = (if i < length s then s ! i else 0)"

text \<open>\<open>strncasecmp(a, b, n) == 0\<close>: equal up to case in the first \<open>n\<close> characters or up to a NUL.\<close>

fun strncasecmp_from :: "nat \<Rightarrow> nat \<Rightarrow> cstring \<Rightarrow> cstring \<Rightarrow> bool" where
  "strncasecmp_from i 0 a b = True"
| "strncasecmp_from i (Suc n) a b =
     (if tolower (char_at a i) \<noteq> tolower (char_at b i) then False
      else if char_at a i = 0 then True
      else strncasecmp_from (Suc i) n a b)"

definition strncasecmp_eq :: "cstring \<Rightarrow> cstring \<Rightarrow> nat \<Rightarrow> bool" where
  "strncasecmp_eq a b n = strncasecmp_from 0 n a b"

text \<open>\<open>std::string(char *)\<close> stops at the first NUL.\<close>

definition from_c_str :: "bytes \<Rightarrow> cstring" where
  "from_c_str s = takeWhile (\<lambda>c. c \<noteq> 0) s"

definition c_str :: "cstring \<Rightarrow> bytes" where
  "c_str s = s @ [0]"

lemma tolower_0 [simp]: "tolower c = 0 \<longleftrightarrow> c = 0"
proof -
  have "65 \<le> c \<and> c \<le> 90 \<Longrightarrow> c + 32 \<noteq> 0"
    by (auto simp: word_le_nat_alt word_unat_eq_iff unat_word_ariths)
  moreover have "\<not> (65 \<le> (0 :: byte))" by simp
  ultimately show ?thesis by (auto simp: tolower_def)
qed

lemma strncasecmp_from_refl: "strncasecmp_from i n a a"
  by (induction n arbitrary: i) auto

lemma strncasecmp_eq_refl [simp]: "strncasecmp_eq a a n"
  by (simp add: strncasecmp_eq_def strncasecmp_from_refl)

lemma strncasecmp_from_iff:
  assumes "0 \<notin> set a" and "i + n \<le> length a"
  shows "strncasecmp_from i n a b \<longleftrightarrow>
     (\<forall>k < n. tolower (char_at a (i + k)) = tolower (char_at b (i + k)))"
  using assms(2)
proof (induction n arbitrary: i)
  case 0
  then show ?case by simp
next
  case (Suc n)
  from Suc.prems have "char_at a i \<in> set a" by (simp add: char_at_def)
  with assms(1) have nz: "char_at a i \<noteq> 0" by metis
  have IH: "strncasecmp_from (Suc i) n a b \<longleftrightarrow>
     (\<forall>k < n. tolower (char_at a (Suc i + k)) = tolower (char_at b (Suc i + k)))"
    using Suc by simp
  show ?case
    using nz by (auto simp: IH less_Suc_eq_0_disj)
qed

lemma strncasecmp_eq_lowercase:
  assumes "0 \<notin> set a" and "length a = length b"
  shows "strncasecmp_eq a b (length a) \<longleftrightarrow> lowercase a = lowercase b"
  using assms
  by (simp add: strncasecmp_eq_def strncasecmp_from_iff lowercase_def list_eq_iff_nth_eq char_at_def)

end
