(* ===== verification/Log.thy ===== *)
theory Log
  imports CString
begin

text \<open>
  \<open>src/log.cc\<close>, \<open>include/log.h\<close> and \<open>src/error.cc\<close>: the log line and the error texts. The
  date comes from the system's clock and is a parameter.
\<close>

section \<open>Formatting into a buffer\<close>

text \<open>
  \<open>snprintf\<close> stores what fits with a terminating zero byte and returns the full length. The
  rest of the array keeps what it held.
\<close>

definition snprintf_into :: "bytes \<Rightarrow> cstring \<Rightarrow> bytes \<times> nat" where
  "snprintf_into arr s =
     (let stored = take (length arr - 1) s @ [0]
      in (stored @ drop (length stored) arr, length s))"

definition FSW_LOG_BUFFER_SIZE :: nat where "FSW_LOG_BUFFER_SIZE = 1024"
definition FSW_LOG_DATE_STRLEN :: nat where "FSW_LOG_DATE_STRLEN = 64"
definition FSW_ERROR_MSG_SIZE :: nat where "FSW_ERROR_MSG_SIZE = 512"

datatype fswLog_level =
  FSW_LOG_DEBUG | FSW_LOG_TRACE | FSW_LOG_INFO | FSW_LOG_NOTICE | FSW_LOG_WARNING | FSW_LOG_ERROR

fun level_str :: "fswLog_level \<Rightarrow> cstring" where
  "level_str FSW_LOG_DEBUG = str ''DEBUG''"
| "level_str FSW_LOG_NOTICE = str ''NOTICE''"
| "level_str FSW_LOG_ERROR = str ''ERROR''"
| "level_str FSW_LOG_WARNING = str ''WARNING''"
| "level_str FSW_LOG_TRACE = str ''TRACE''"
| "level_str FSW_LOG_INFO = str ''INFO''"

text \<open>The format \<open>"[%s]\\t%s\\t%s\\n"\<close>.\<close>

definition log_line :: "cstring \<Rightarrow> cstring \<Rightarrow> cstring \<Rightarrow> cstring" where
  "log_line date lvl cnt = str ''['' @ date @ str '']'' @ [9] @ lvl @ [9] @ cnt @ [10]"

text \<open>
  \<open>fswLog_put\<close> with the formatted time \<open>date\<close> and the contents \<open>junk\<close> of its two arrays: the
  bytes that it writes, \<open>n\<close> of them from the start of the array.
\<close>

definition fswLog_put :: "fswLog_level \<Rightarrow> cstring \<Rightarrow> cstring \<Rightarrow> bytes \<Rightarrow> bytes \<Rightarrow> bytes res" where
  "fswLog_put level cnt date junk1 junk2 =
     (case snprintf_into junk1 date of (date_arr, _) \<Rightarrow>
        case snprintf_into junk2 (log_line (from_c_str date_arr) (level_str level) cnt) of
          (log_str, n) \<Rightarrow> mem_read log_str 0 n)"

text \<open>The messages of the macros: formatted into an array of 512 bytes.\<close>

definition log_message :: "cstring \<Rightarrow> cstring" where
  "log_message s = from_c_str (fst (snprintf_into (replicate FSW_ERROR_MSG_SIZE 0) s))"

definition FSW_ERROR_SESSION_CLOSED_BY_SERVER :: int where "FSW_ERROR_SESSION_CLOSED_BY_SERVER = 1001"
definition FSW_ERROR_SESSION_CLOSED_BY_CLIENT :: int where "FSW_ERROR_SESSION_CLOSED_BY_CLIENT = 1002"

definition fsw_strerror :: "int \<Rightarrow> cstring" where
  "fsw_strerror code =
     (if code = FSW_ERROR_SESSION_CLOSED_BY_SERVER then str ''Session closed by server''
      else if code = FSW_ERROR_SESSION_CLOSED_BY_CLIENT then str ''Session closed by client''
      else log_message (str ''Unknown error: '' @ to_string code))"

section \<open>The log line fits\<close>

lemma from_c_str_terminated: "from_c_str (t @ 0 # r) = takeWhile (\<lambda>c. c \<noteq> 0) t"
  by (induction t) (simp_all add: from_c_str_def)

lemma from_c_str_snprintf: "length (from_c_str (fst (snprintf_into arr s))) \<le> length arr - 1"
proof -
  have "from_c_str (fst (snprintf_into arr s)) = takeWhile (\<lambda>c. c \<noteq> 0) (take (length arr - 1) s)"
    by (simp add: snprintf_into_def Let_def from_c_str_terminated)
  then show ?thesis
    using length_takeWhile_le [of "\<lambda>c. c \<noteq> 0" "take (length arr - 1) s"] by simp
qed

lemma snprintf_fits: "length s < length arr \<Longrightarrow> mem_read (fst (snprintf_into arr s)) 0 (length s) = Inr s"
  by (simp add: snprintf_into_def Let_def mem_read_def)

lemma length_level_str: "length (level_str l) \<le> 7"
  by (cases l) (simp_all add: str_def)

text \<open>
  \<open>fswLog_put\<close> writes exactly the line of its message, whatever the arrays held before:
  the count that \<open>snprintf\<close> returned never reaches beyond the array, because messages come
  from the 512-byte arrays of the macros and dates are cut to 63 bytes.
\<close>

theorem fswLog_put_writes_line:
  assumes "length junk1 = FSW_LOG_DATE_STRLEN" and "length junk2 = FSW_LOG_BUFFER_SIZE"
  shows "\<exists>d. fswLog_put level (log_message s) date junk1 junk2 = Inr (log_line d (level_str level) (log_message s)) \<and>
    length (log_line d (level_str level) (log_message s)) < FSW_LOG_BUFFER_SIZE"
proof -
  let ?d = "from_c_str (fst (snprintf_into junk1 date))"
  let ?line = "log_line ?d (level_str level) (log_message s)"
  have "length ?d \<le> 63" using from_c_str_snprintf [of junk1 date] assms(1) by (simp add: FSW_LOG_DATE_STRLEN_def)
  moreover have "length (log_message s) \<le> 511"
    using from_c_str_snprintf [of "replicate FSW_ERROR_MSG_SIZE 0" s] by (simp add: log_message_def FSW_ERROR_MSG_SIZE_def)
  ultimately have l: "length ?line < FSW_LOG_BUFFER_SIZE"
    using length_level_str [of level] by (simp add: log_line_def str_def FSW_LOG_BUFFER_SIZE_def)
  then have "mem_read (fst (snprintf_into junk2 ?line)) 0 (length ?line) = Inr ?line"
    using assms(2) by (intro snprintf_fits) simp
  moreover have "snd (snprintf_into junk2 ?line) = length ?line" by (simp add: snprintf_into_def Let_def)
  ultimately have "fswLog_put level (log_message s) date junk1 junk2 = Inr ?line"
    by (simp add: fswLog_put_def split_beta)
  with l show ?thesis by blast
qed

theorem fswLog_put_writes_line_witness:
  "\<exists>d. fswLog_put FSW_LOG_ERROR (log_message (str ''x'')) (str ''d'') (replicate 64 7) (replicate 1024 8) =
     Inr (log_line d (str ''ERROR'') (log_message (str ''x'')))"
  using fswLog_put_writes_line [of "replicate 64 7" "replicate 1024 8" FSW_LOG_ERROR "str ''x''" "str ''d''"]
  by (auto simp: FSW_LOG_DATE_STRLEN_def FSW_LOG_BUFFER_SIZE_def)

end
