(* ===== verification/Net.thy ===== *)
theory Net
  imports CString
begin

text \<open>
  \<open>src/socket.cc\<close>, the thin layer over the system's sockets, and the system below it. The
  system is a parameter: a record of its calls, each of which takes and returns the state
  \<open>'e\<close> of the world outside the running coroutine. \<open>sys_yield\<close> is what happens while the
  coroutine is suspended: the other coroutines run and the world goes on.
\<close>

section \<open>The system\<close>

record 'e sys =
  sys_errno :: "'e \<Rightarrow> int"
  sys_strerror :: "int \<Rightarrow> cstring"
  sys_socket :: "int \<Rightarrow> int \<Rightarrow> int \<Rightarrow> 'e \<Rightarrow> int \<times> 'e"
  sys_bind :: "int \<Rightarrow> u32 \<Rightarrow> u16 \<Rightarrow> 'e \<Rightarrow> int \<times> 'e"
  sys_listen :: "int \<Rightarrow> int \<Rightarrow> 'e \<Rightarrow> int \<times> 'e"
  sys_accept :: "int \<Rightarrow> 'e \<Rightarrow> int \<times> 'e"
  sys_connect :: "int \<Rightarrow> u32 \<Rightarrow> u16 \<Rightarrow> 'e \<Rightarrow> int \<times> 'e"
  sys_recv :: "int \<Rightarrow> nat \<Rightarrow> 'e \<Rightarrow> (int \<times> bytes) \<times> 'e"
  sys_send :: "int \<Rightarrow> bytes \<Rightarrow> 'e \<Rightarrow> int \<times> 'e"
  sys_close :: "int \<Rightarrow> 'e \<Rightarrow> int \<times> 'e"
  sys_shutdown :: "int \<Rightarrow> int \<Rightarrow> 'e \<Rightarrow> int \<times> 'e"
  sys_setsockopt :: "int \<Rightarrow> int \<Rightarrow> int \<Rightarrow> bytes \<Rightarrow> 'e \<Rightarrow> int \<times> 'e"
  sys_getsockopt :: "int \<Rightarrow> int \<Rightarrow> int \<Rightarrow> 'e \<Rightarrow> (int \<times> bytes) \<times> 'e"
  sys_getsockname :: "int \<Rightarrow> 'e \<Rightarrow> (int \<times> u32 \<times> u16) \<times> 'e"
  sys_getpeername :: "int \<Rightarrow> 'e \<Rightarrow> (int \<times> u32 \<times> u16) \<times> 'e"
  sys_getfl :: "int \<Rightarrow> 'e \<Rightarrow> int \<times> 'e"
  sys_setfl :: "int \<Rightarrow> int \<Rightarrow> 'e \<Rightarrow> int \<times> 'e"
  sys_epoll_add :: "int \<Rightarrow> u32 \<Rightarrow> 'e \<Rightarrow> int \<times> 'e"
  sys_epoll_del :: "int \<Rightarrow> 'e \<Rightarrow> int \<times> 'e"
  sys_yield :: "'e \<Rightarrow> 'e"
  sys_inet_aton :: "cstring \<Rightarrow> int \<times> u32"
  sys_inet_pton :: "cstring \<Rightarrow> int \<times> u32"
  sys_inet_ntoa :: "u32 \<Rightarrow> cstring"

definition EAGAIN :: int where "EAGAIN = 11"
definition EINPROGRESS :: int where "EINPROGRESS = 115"
definition AF_INET :: int where "AF_INET = 2"
definition SOCK_STREAM :: int where "SOCK_STREAM = 1"
definition SOL_SOCKET :: int where "SOL_SOCKET = 1"
definition SO_REUSEADDR :: int where "SO_REUSEADDR = 2"
definition SHUT_WR :: int where "SHUT_WR = 1"
definition O_NONBLOCK :: int where "O_NONBLOCK = 2048"
definition FSW_SOCK_TCP :: int where "FSW_SOCK_TCP = 1"

section \<open>Sockets\<close>

text \<open>A \<open>fsw::Socket\<close> is its descriptor \<open>fd\<close>.\<close>

text \<open>
  The check after \<open>::socket\<close> compares the name of the system function, not its result, so a
  failure goes unnoticed.
\<close>

definition Socket_new :: "'e sys \<Rightarrow> int \<Rightarrow> int \<Rightarrow> int \<Rightarrow> 'e \<Rightarrow> int \<times> 'e" where
  "Socket_new sys domain ty protocol e = sys_socket sys domain ty protocol e"

definition ok_call :: "('e \<Rightarrow> int \<times> 'e) \<Rightarrow> 'e \<Rightarrow> bool \<times> 'e" where
  "ok_call f e = (case f e of (ret, e) \<Rightarrow> (if ret < 0 then False else True, e))"

definition Socket_bind :: "'e sys \<Rightarrow> int \<Rightarrow> int \<Rightarrow> cstring \<Rightarrow> u16 \<Rightarrow> 'e \<Rightarrow> bool \<times> 'e" where
  "Socket_bind sys fd ty host port e =
     (if ty = FSW_SOCK_TCP then
        (case sys_inet_aton sys host of (ret, addr) \<Rightarrow>
           if ret < 0 then (False, e)
           else case sys_bind sys fd addr (htons port) e of (ret, e) \<Rightarrow>
             if ret < 0 then (False, e) else (True, e))
      else (False, e))"

definition Socket_listen :: "'e sys \<Rightarrow> int \<Rightarrow> int \<Rightarrow> 'e \<Rightarrow> bool \<times> 'e" where
  "Socket_listen sys fd backlog = ok_call (sys_listen sys fd backlog)"

definition Socket_accept :: "'e sys \<Rightarrow> int \<Rightarrow> 'e \<Rightarrow> int \<times> 'e" where
  "Socket_accept sys fd = sys_accept sys fd"

definition Socket_close :: "'e sys \<Rightarrow> int \<Rightarrow> 'e \<Rightarrow> bool \<times> 'e" where
  "Socket_close sys fd = ok_call (sys_close sys fd)"

definition Socket_shutdown :: "'e sys \<Rightarrow> int \<Rightarrow> int \<Rightarrow> 'e \<Rightarrow> bool \<times> 'e" where
  "Socket_shutdown sys fd how = ok_call (sys_shutdown sys fd how)"

definition Socket_set_option :: "'e sys \<Rightarrow> int \<Rightarrow> int \<Rightarrow> int \<Rightarrow> bytes \<Rightarrow> 'e \<Rightarrow> bool \<times> 'e" where
  "Socket_set_option sys fd level optname optval = ok_call (sys_setsockopt sys fd level optname optval)"

definition Socket_get_option :: "'e sys \<Rightarrow> int \<Rightarrow> int \<Rightarrow> int \<Rightarrow> 'e \<Rightarrow> (bool \<times> bytes) \<times> 'e" where
  "Socket_get_option sys fd level optname e =
     (case sys_getsockopt sys fd level optname e of ((ret, val), e) \<Rightarrow> ((\<not> ret < 0, val), e))"

definition Socket_getname :: "'e sys \<Rightarrow> int \<Rightarrow> 'e \<Rightarrow> (bool \<times> u32 \<times> u16) \<times> 'e" where
  "Socket_getname sys fd e =
     (case sys_getsockname sys fd e of ((ret, addr), e) \<Rightarrow> ((\<not> ret < 0, addr), e))"

definition Socket_getpeername :: "'e sys \<Rightarrow> int \<Rightarrow> 'e \<Rightarrow> (bool \<times> u32 \<times> u16) \<times> 'e" where
  "Socket_getpeername sys fd e =
     (case sys_getpeername sys fd e of ((ret, addr), e) \<Rightarrow> ((\<not> ret < 0, addr), e))"

definition Socket_recv :: "'e sys \<Rightarrow> int \<Rightarrow> nat \<Rightarrow> 'e \<Rightarrow> (int \<times> bytes) \<times> 'e" where
  "Socket_recv sys fd len = sys_recv sys fd len"

definition Socket_send :: "'e sys \<Rightarrow> int \<Rightarrow> bytes \<Rightarrow> 'e \<Rightarrow> int \<times> 'e" where
  "Socket_send sys fd bs = sys_send sys fd bs"

definition Socket_set_nonblock :: "'e sys \<Rightarrow> int \<Rightarrow> 'e \<Rightarrow> int \<times> 'e" where
  "Socket_set_nonblock sys fd e =
     (case sys_getfl sys fd e of (flags, e) \<Rightarrow>
        if flags < 0 then (-1, e) else sys_setfl sys fd (flags OR O_NONBLOCK) e)"

section \<open>The contract of a stream socket\<close>

text \<open>
  What \<open>recv(2)\<close> and \<open>send(2)\<close> document for a stream socket \<open>fd\<close>. \<open>inc e\<close> is what is
  still to be delivered on it and \<open>out e\<close> what has been accepted from it: a \<open>recv\<close> of a
  positive length delivers the next bytes, at most \<open>len\<close>, or fails and delivers nothing; a
  \<open>send\<close> accepts the first bytes or fails and accepts none. Waiting changes neither.
\<close>

definition recv_stream :: "'e sys \<Rightarrow> int \<Rightarrow> ('e \<Rightarrow> bytes) \<Rightarrow> bool" where
  "recv_stream sys fd inc \<longleftrightarrow>
     (\<forall>len e ret bs e'. sys_recv sys fd len e = ((ret, bs), e') \<longrightarrow>
        inc e = bs @ inc e' \<and> ret \<le> int len \<and>
        (0 \<le> ret \<longrightarrow> length bs = nat ret) \<and> (ret < 0 \<longrightarrow> bs = [])) \<and>
     (\<forall>ev e. inc (snd (sys_epoll_add sys fd ev e)) = inc e) \<and>
     (\<forall>e. inc (snd (sys_epoll_del sys fd e)) = inc e) \<and> (\<forall>e. inc (sys_yield sys e) = inc e)"

definition send_stream :: "'e sys \<Rightarrow> int \<Rightarrow> ('e \<Rightarrow> bytes) \<Rightarrow> bool" where
  "send_stream sys fd out \<longleftrightarrow>
     (\<forall>bs e ret e'. sys_send sys fd bs e = (ret, e') \<longrightarrow>
        ret \<le> int (length bs) \<and> out e' = out e @ take (nat ret) bs) \<and>
     (\<forall>ev e. out (snd (sys_epoll_add sys fd ev e)) = out e) \<and>
     (\<forall>e. out (snd (sys_epoll_del sys fd e)) = out e) \<and> (\<forall>e. out (sys_yield sys e) = out e)"

end
