(* ===== verification/Buffer.thy ===== *)
theory Buffer
  imports CString
begin

text \<open>
  \<open>fsw::Buffer\<close> (\<open>include/buffer.h\<close>, \<open>src/buffer.cc\<close>): a block of \<open>_size + 1\<close>
  bytes whose first \<open>_length\<close> bytes are the contents and are followed by a NUL. Sizes are
  64-bit \<open>size_t\<close> values, so the capacity check of \<open>append\<close> is the wrapping addition
  of the code. The interface its clients rely on is the locale \<open>byte_sink\<close>.
\<close>

section \<open>The class\<close>

text \<open>\<open>buf_ptr\<close> is the address that \<open>new char[]\<close> returned for the block.\<close>

record buffer =
  buf_ptr :: nat
  buf_size :: u64
  buf_length :: u64
  buf_data :: bytes

definition Buffer_new :: "nat \<Rightarrow> u64 \<Rightarrow> buffer" where
  "Buffer_new p sz =
     \<lparr>buf_ptr = p, buf_size = sz, buf_length = 0, buf_data = replicate (unat (sz + 1)) 0\<rparr>"

definition append_chars :: "buffer \<Rightarrow> bytes \<Rightarrow> u64 \<Rightarrow> buffer res" where
  "append_chars b src len =
     (if buf_size b < buf_length b + len then Inl ExitError
      else res_bind (mem_read src 0 (unat len)) (\<lambda>bs.
           res_bind (mem_write (buf_data b) (unat (buf_length b)) bs) (\<lambda>d.
           let l = buf_length b + len in
           res_bind (mem_write d (unat l) [0]) (\<lambda>d'.
           Inr (b\<lparr>buf_length := l, buf_data := d'\<rparr>)))))"

definition append_string :: "buffer \<Rightarrow> cstring \<Rightarrow> buffer res" where
  "append_string b s = append_chars b (c_str s) (of_nat (length s))"

definition append_int :: "buffer \<Rightarrow> u32 \<Rightarrow> buffer res" where
  "append_int b v = append_string b (to_string (sint v))"

definition append_buffer :: "buffer \<Rightarrow> buffer \<Rightarrow> buffer res" where
  "append_buffer b t = append_chars b (buf_data t) (buf_length t)"

definition Buffer_dup :: "nat \<Rightarrow> buffer \<Rightarrow> buffer res" where
  "Buffer_dup p b = append_buffer (Buffer_new p (buf_length b)) b"

definition mem_equal :: "bytes \<Rightarrow> bytes \<Rightarrow> nat \<Rightarrow> bool res" where
  "mem_equal a b n =
     res_bind (mem_read a 0 n) (\<lambda>xs. res_bind (mem_read b 0 n) (\<lambda>ys. Inr (xs = ys)))"

definition equal_buffer :: "buffer \<Rightarrow> buffer \<Rightarrow> bool res" where
  "equal_buffer b t =
     (if buf_length b \<noteq> buf_length t then Inr False
      else mem_equal (buf_data b) (buf_data t) (unat (buf_length b)))"

definition equal_string :: "buffer \<Rightarrow> cstring \<Rightarrow> bool res" where
  "equal_string b s =
     (if buf_length b \<noteq> of_nat (length s) then Inr False
      else mem_equal (buf_data b) (c_str s) (unat (buf_length b)))"

text \<open>\<open>this\<close> and \<open>target\<close> are the addresses of the two objects.\<close>

definition deep_equal :: "nat \<Rightarrow> nat \<Rightarrow> buffer \<Rightarrow> buffer \<Rightarrow> bool res" where
  "deep_equal this target b t =
     (if this \<noteq> target \<or> buf_size b \<noteq> buf_size t \<or> buf_length b \<noteq> buf_length t
         \<or> buf_ptr b \<noteq> buf_ptr t
      then Inr False
      else mem_equal (buf_data b) (buf_data t) (unat (buf_length b)))"

definition Buffer_clear :: "buffer \<Rightarrow> buffer res" where
  "Buffer_clear b =
     res_bind (mem_write (buf_data b) 0 [0]) (\<lambda>d. Inr (b\<lparr>buf_length := 0, buf_data := d\<rparr>))"

section \<open>Representation invariant\<close>

definition buf_contents :: "buffer \<Rightarrow> bytes" where
  "buf_contents b = take (unat (buf_length b)) (buf_data b)"

definition buf_cap :: "buffer \<Rightarrow> nat" where
  "buf_cap b = unat (buf_size b)"

definition buf_wf :: "buffer \<Rightarrow> bool" where
  "buf_wf b \<longleftrightarrow>
     buf_size b \<noteq> -1 \<and>
     length (buf_data b) = Suc (unat (buf_size b)) \<and>
     buf_length b \<le> buf_size b \<and>
     buf_data b ! unat (buf_length b) = 0"

lemma unat_size_bound: "unat (x :: u64) < 2 ^ 64"
  using unsigned_less [where 'a = nat, of x] by simp

lemma buf_wf_length: "buf_wf b \<Longrightarrow> unat (buf_length b) \<le> buf_cap b"
  by (simp add: buf_wf_def buf_cap_def word_le_nat_alt)

lemma length_contents: "buf_wf b \<Longrightarrow> length (buf_contents b) = unat (buf_length b)"
  using buf_wf_length [of b] by (simp add: buf_wf_def buf_contents_def buf_cap_def)

lemma unat_plus_1: "sz \<noteq> -1 \<Longrightarrow> unat (sz + 1 :: u64) = Suc (unat sz)"
  by (metis unatSuc add.commute eq_neg_iff_add_eq_0)

lemma Buffer_new_wf [wf_intros]: "sz \<noteq> -1 \<Longrightarrow> buf_wf (Buffer_new p sz)"
  by (simp add: buf_wf_def Buffer_new_def unat_plus_1)

lemma contents_Buffer_new [simp]: "buf_contents (Buffer_new p sz) = []"
  by (simp add: buf_contents_def Buffer_new_def)

lemma cap_Buffer_new [simp]: "buf_cap (Buffer_new p sz) = unat sz"
  by (simp add: buf_cap_def Buffer_new_def)

section \<open>Appending\<close>

lemma unat_add_small:
  "unat (a :: u64) + unat b < 2 ^ 64 \<Longrightarrow> unat (a + b) = unat a + unat b"
  by (simp add: unat_word_ariths)

lemma append_chars_fits:
  assumes wf: "buf_wf b" and fits: "unat (buf_length b) + unat len \<le> buf_cap b"
    and src: "unat len \<le> length src"
  obtains b' where "append_chars b src len = Inr b'" and "buf_wf b'"
    and "buf_contents b' = buf_contents b @ take (unat len) src"
    and "buf_cap b' = buf_cap b" and "buf_ptr b' = buf_ptr b"
proof -
  let ?n = "unat len" and ?l = "unat (buf_length b)"
  let ?d = "take ?l (buf_data b) @ take ?n src @ drop (?l + ?n) (buf_data b)"
  have u: "unat (buf_length b + len) = ?l + ?n"
    using fits unat_size_bound [of "buf_size b"] by (intro unat_add_small) (simp add: buf_cap_def)
  have len: "length (buf_data b) = Suc (buf_cap b)" using wf by (simp add: buf_wf_def buf_cap_def)
  have ld: "length ?d = Suc (buf_cap b)" using fits len src by simp
  have g: "\<not> buf_size b < buf_length b + len"
    using fits by (simp add: word_less_nat_alt u buf_cap_def)
  let ?b = "b\<lparr>buf_length := buf_length b + len, buf_data := ?d[?l + ?n := 0]\<rparr>"
  have "append_chars b src len = Inr ?b"
    using g src fits len ld
    by (simp add: append_chars_def mem_read_def mem_write_def [of "buf_data b"] Let_def u
        mem_write_single)
  moreover have "buf_wf ?b"
    using ld fits wf by (simp add: buf_wf_def u word_le_nat_alt buf_cap_def)
  moreover have "buf_contents ?b = buf_contents b @ take ?n src"
    using fits len src by (simp add: buf_contents_def u)
  ultimately show ?thesis by (intro that [of ?b]) (simp_all add: buf_cap_def)
qed

lemma append_chars_full:
  assumes "buf_cap b < unat (buf_length b) + unat len"
    and "unat (buf_length b) + unat len < 2 ^ 64"
  shows "append_chars b src len = Inl ExitError"
  using assms by (simp add: append_chars_def word_less_nat_alt unat_add_small buf_cap_def)

lemma append_chars_wraps:
  assumes wf: "buf_wf b" and wrap: "2 ^ 64 \<le> unat (buf_length b) + unat len"
  shows "append_chars b src len = Inl OutOfBounds"
proof -
  have "unat (buf_length b + len) = unat (buf_length b) + unat len - 2 ^ 64"
    using wrap unat_size_bound [of len] unat_size_bound [of "buf_length b"]
    by (simp add: unat_word_ariths le_mod_geq)
  then have "\<not> buf_size b < buf_length b + len"
    using buf_wf_length [OF wf] unat_size_bound [of len]
    by (simp add: word_less_nat_alt buf_cap_def)
  moreover have "length (buf_data b) < unat (buf_length b) + unat len"
    using wf wrap unat_size_bound [of "buf_size b + 1"] by (simp add: buf_wf_def unat_plus_1)
  ultimately show ?thesis
    using wf by (auto simp: append_chars_def mem_read_def mem_write_def buf_wf_def)
qed

lemma append_chars_wf [wf_intros]:
  assumes "buf_wf b" and "append_chars b src len = Inr b'"
  shows "buf_wf b' \<and> buf_cap b' = buf_cap b \<and> buf_contents b' = buf_contents b @ take (unat len) src"
proof -
  have "unat len \<le> length src"
    using assms(2) by (auto simp: append_chars_def res_bind_eq_Inr mem_read_Inr split: if_splits)
  moreover have "unat (buf_length b) + unat len \<le> buf_cap b"
    using assms append_chars_full [of b len src] append_chars_wraps [OF assms(1), of len src] by force
  ultimately obtain c where "append_chars b src len = Inr c" "buf_wf c"
      "buf_contents c = buf_contents b @ take (unat len) src" "buf_cap c = buf_cap b"
    using append_chars_fits [OF assms(1)] by metis
  with assms(2) show ?thesis by simp
qed

text \<open>
  C21: for every buffer in its invariant and every source block long enough, \<open>append\<close>
  (\<open>src/buffer.cc\<close>) has exactly three outcomes: the bytes are added behind the contents and
  the invariant is kept; the capacity is exceeded and the process exits; or the 64-bit sum of
  the lengths wraps, so the capacity check passes and the copy leaves the block.
\<close>

theorem append_chars_outcomes:
  assumes "buf_wf b" and "unat len \<le> length src"
  shows "case append_chars b src len of
     Inr b' \<Rightarrow> unat (buf_length b) + unat len \<le> buf_cap b \<and> buf_wf b' \<and>
       buf_cap b' = buf_cap b \<and> buf_contents b' = buf_contents b @ take (unat len) src
   | Inl e \<Rightarrow>
       (e = ExitError \<and> buf_cap b < unat (buf_length b) + unat len \<and>
          unat (buf_length b) + unat len < 2 ^ 64) \<or>
       (e = OutOfBounds \<and> 2 ^ 64 \<le> unat (buf_length b) + unat len)"
proof -
  consider "unat (buf_length b) + unat len \<le> buf_cap b"
    | "buf_cap b < unat (buf_length b) + unat len" "unat (buf_length b) + unat len < 2 ^ 64"
    | "2 ^ 64 \<le> unat (buf_length b) + unat len"
    by linarith
  then show ?thesis
  proof cases
    case 1
    then obtain b' where "append_chars b src len = Inr b'" "buf_wf b'"
      "buf_contents b' = buf_contents b @ take (unat len) src" "buf_cap b' = buf_cap b"
      using append_chars_fits [OF assms(1) _ assms(2)] by blast
    with 1 show ?thesis by simp
  next
    case 2
    then show ?thesis by (simp add: append_chars_full)
  next
    case 3
    then show ?thesis by (simp add: append_chars_wraps [OF assms(1)])
  qed
qed

theorem append_chars_outcomes_witness:
  "buf_wf (Buffer_new 0 2) \<and>
   (\<exists>b'. append_chars (Buffer_new 0 2) [1, 2, 3] 2 = Inr b' \<and> buf_contents b' = [1, 2])"
proof -
  have wf: "buf_wf (Buffer_new 0 2)" by (rule Buffer_new_wf) simp
  have fits: "\<exists>b'. append_chars (Buffer_new 0 2) [1, 2, 3] 2 = Inr b'"
    by (simp add: append_chars_def Buffer_new_def mem_read_def mem_write_def)
  show ?thesis
    using wf fits append_chars_outcomes [OF wf, of 2 "[1, 2, 3]"] by auto
qed

section \<open>Strings, integers and whole buffers\<close>

text \<open>
  What the clients of a buffer rely on: a bounded log of bytes. Appending either adds the
  bytes or, when they do not fit, ends the process; a chain of appends adds their concatenation.
\<close>

locale byte_sink =
  fixes put :: "'b \<Rightarrow> bytes \<Rightarrow> 'b res"
    and contents :: "'b \<Rightarrow> bytes"
    and cap :: "'b \<Rightarrow> nat"
    and inv :: "'b \<Rightarrow> bool"
  assumes put_fits: "inv b \<Longrightarrow> length (contents b) + length s \<le> cap b \<Longrightarrow>
      \<exists>b'. put b s = Inr b' \<and> inv b' \<and> cap b' = cap b \<and> contents b' = contents b @ s"
    and put_full: "inv b \<Longrightarrow> cap b < length (contents b) + length s \<Longrightarrow>
      length (contents b) + length s < 2 ^ 64 \<Longrightarrow> put b s = Inl ExitError"
begin

lemma put_all_fits:
  "inv b \<Longrightarrow> length (contents b) + length (concat ss) \<le> cap b \<Longrightarrow>
   \<exists>b'. res_fold put b ss = Inr b' \<and> inv b' \<and> cap b' = cap b \<and>
     contents b' = contents b @ concat ss"
proof (induction ss arbitrary: b)
  case Nil
  then show ?case by simp
next
  case (Cons s ss)
  then obtain b1 where b1: "put b s = Inr b1" "inv b1" "cap b1 = cap b"
      "contents b1 = contents b @ s"
    using put_fits [of b s] by auto
  then show ?case using Cons.IH [of b1] Cons.prems by auto
qed

lemma put_all_full:
  "inv b \<Longrightarrow> length (contents b) \<le> cap b \<Longrightarrow> cap b < length (contents b) + length (concat ss) \<Longrightarrow>
   length (contents b) + length (concat ss) < 2 ^ 64 \<Longrightarrow> res_fold put b ss = Inl ExitError"
proof (induction ss arbitrary: b)
  case Nil
  then show ?case by simp
next
  case (Cons s ss)
  show ?case
  proof (cases "length (contents b) + length s \<le> cap b")
    case True
    then obtain b1 where "put b s = Inr b1" "inv b1" "cap b1 = cap b" "contents b1 = contents b @ s"
      using put_fits Cons.prems by blast
    then show ?thesis using Cons.IH [of b1] Cons.prems True by simp
  next
    case False
    then show ?thesis using put_full Cons.prems by simp
  qed
qed

lemma put_all_exact:
  assumes "inv b" and "length (contents b) \<le> cap b"
    and "length (contents b) + length (concat ss) < 2 ^ 64"
  shows "case res_fold put b ss of
     Inr b' \<Rightarrow> inv b' \<and> cap b' = cap b \<and> contents b' = contents b @ concat ss
   | Inl e \<Rightarrow> e = ExitError \<and> cap b < length (contents b) + length (concat ss)"
  using put_all_fits [OF assms(1)] put_all_full [OF assms(1,2) _ assms(3)]
  by (cases "length (contents b) + length (concat ss) \<le> cap b") fastforce+

end

lemma append_string_fits:
  assumes "buf_wf b" and "length (buf_contents b) + length s \<le> buf_cap b"
  shows "\<exists>b'. append_string b s = Inr b' \<and> buf_wf b' \<and> buf_cap b' = buf_cap b \<and>
     buf_contents b' = buf_contents b @ s"
proof -
  have l: "length s < 2 ^ 64" using assms(2) unat_size_bound [of "buf_size b"]
    by (simp add: buf_cap_def)
  then have u: "unat (of_nat (length s) :: u64) = length s" by (simp add: unat_of_nat)
  have "unat (buf_length b) + unat (of_nat (length s) :: u64) \<le> buf_cap b"
    using assms by (simp only: u length_contents)
  moreover have "unat (of_nat (length s) :: u64) \<le> length (c_str s)"
    by (simp only: u c_str_def) simp
  ultimately obtain b' where b': "append_string b s = Inr b'" "buf_wf b'" "buf_cap b' = buf_cap b"
    and c: "buf_contents b' = buf_contents b @ take (unat (of_nat (length s) :: u64)) (c_str s)"
    using append_chars_fits [OF assms(1)] unfolding append_string_def by blast
  from c have "buf_contents b' = buf_contents b @ s" by (simp only: u c_str_def) simp
  with b' show ?thesis by blast
qed

lemma append_string_full:
  assumes "buf_wf b" and "buf_cap b < length (buf_contents b) + length s"
    and "length (buf_contents b) + length s < 2 ^ 64"
  shows "append_string b s = Inl ExitError"
proof -
  have u: "unat (of_nat (length s) :: u64) = length s"
    using assms(3) by (simp add: unat_of_nat)
  show ?thesis
    using assms by (simp only: append_string_def)
      (rule append_chars_full; simp only: u length_contents)
qed

lemma append_string_wf [wf_intros]:
  "buf_wf b \<Longrightarrow> append_string b s = Inr b' \<Longrightarrow> buf_wf b'"
  unfolding append_string_def by (blast dest: append_chars_wf)

interpretation bsink: byte_sink append_string buf_contents buf_cap buf_wf
  by unfold_locales (simp_all add: append_string_fits append_string_full)

lemma append_chars_cong:
  assumes "unat len \<le> length s" and "unat len \<le> length t" and "take (unat len) s = take (unat len) t"
  shows "append_chars b s len = append_chars b t len"
  using assms by (simp add: append_chars_def mem_read_def)

lemma append_chars_all: "append_chars b s (of_nat (length s)) = append_string b s"
proof -
  have "unat (of_nat (length s) :: u64) \<le> length s" by (simp add: unat_of_nat)
  then show ?thesis unfolding append_string_def
    by (intro append_chars_cong) (simp_all add: c_str_def)
qed

lemma append_buffer_contents:
  assumes "buf_wf t"
  shows "append_buffer b t = append_string b (buf_contents t)"
proof -
  have "unat (buf_length t) \<le> length (buf_data t)"
    using assms by (simp add: buf_wf_def word_le_nat_alt)
  moreover have "of_nat (length (buf_contents t)) = buf_length t"
    using assms by (simp add: length_contents)
  ultimately show ?thesis
    unfolding append_buffer_def append_string_def using length_contents [OF assms]
    by (simp del: of_nat_unat, intro append_chars_cong) (simp_all add: c_str_def buf_contents_def)
qed

lemma append_string_Nil: "buf_wf b \<Longrightarrow> append_string b [] = Inr b"
  by (simp add: append_string_def append_chars_def mem_read_def mem_write_def [of _ _ "[]"]
      mem_write_single buf_wf_def word_le_nat_alt not_less list_update_same_conv)

lemma Buffer_clear_wf:
  "buf_wf b \<Longrightarrow> \<exists>b'. Buffer_clear b = Inr b' \<and> buf_wf b' \<and> buf_contents b' = [] \<and> buf_cap b' = buf_cap b"
  by (cases "buf_data b")
     (auto simp: Buffer_clear_def mem_write_def buf_wf_def buf_contents_def buf_cap_def)

lemma mem_equal_take:
  "n \<le> length a \<Longrightarrow> n \<le> length b \<Longrightarrow> mem_equal a b n = Inr (take n a = take n b)"
  by (simp add: mem_equal_def mem_read_def)

lemma contents_length_neq:
  "buf_wf b \<Longrightarrow> buf_wf t \<Longrightarrow> buf_length b \<noteq> buf_length t \<Longrightarrow> buf_contents b \<noteq> buf_contents t"
  by (metis length_contents word_unat_eq_iff)

lemma wf_data_length: "buf_wf b \<Longrightarrow> unat (buf_length b) \<le> length (buf_data b)"
  by (simp add: buf_wf_def word_le_nat_alt)

lemma equal_buffer_contents:
  assumes "buf_wf b" and "buf_wf t"
  shows "equal_buffer b t = Inr (buf_contents b = buf_contents t)"
  using wf_data_length [OF assms(1)] wf_data_length [OF assms(2)] contents_length_neq [OF assms]
  by (auto simp: equal_buffer_def mem_equal_take buf_contents_def)

text \<open>
  On buffers in their invariant, \<open>equal\<close> decides whether the contents are the same, and
  both overloads agree on it.
\<close>

theorem equal_buffer_iff:
  assumes "buf_wf b" and "buf_wf t"
  shows "equal_buffer b t = Inr (buf_contents b = buf_contents t) \<and>
    equal_string b (buf_contents t) = Inr (buf_contents b = buf_contents t)"
proof -
  have l: "length (buf_contents t) = unat (buf_length t)"
    using assms(2) by (rule length_contents)
  have "equal_string b (buf_contents t) = Inr (buf_contents b = buf_contents t)"
  proof (cases "buf_length b = buf_length t")
    case True
    then have "take (unat (buf_length b)) (c_str (buf_contents t)) = buf_contents t"
      and "unat (buf_length b) \<le> length (c_str (buf_contents t))"
      using l by (simp_all add: c_str_def)
    with True wf_data_length [OF assms(1)] l show ?thesis
      by (simp add: equal_string_def mem_equal_take) (simp add: buf_contents_def)
  next
    case False
    with contents_length_neq [OF assms] l show ?thesis by (simp add: equal_string_def)
  qed
  with equal_buffer_contents [OF assms] show ?thesis ..
qed

theorem equal_buffer_iff_witness:
  "equal_buffer (Buffer_new 0 4) (Buffer_new 1 9) = Inr True"
proof -
  have "buf_wf (Buffer_new 0 4)" and "buf_wf (Buffer_new 1 9)" by (simp_all add: Buffer_new_wf)
  from equal_buffer_iff [OF this] show ?thesis by simp
qed

text \<open>
  \<open>dup\<close> makes a buffer with the same contents and just enough capacity for them; the copy
  is \<open>equal\<close> to the original and not \<open>deep_equal\<close> to it, whatever its address.
\<close>

theorem Buffer_dup_equal:
  assumes "buf_wf b" and "this \<noteq> that"
  shows "\<exists>b'. Buffer_dup p b = Inr b' \<and> buf_wf b' \<and> buf_cap b' = length (buf_contents b) \<and>
    buf_contents b' = buf_contents b \<and> equal_buffer b b' = Inr True \<and>
    deep_equal this that b b' = Inr False"
proof -
  have "buf_length b \<noteq> -1"
    using assms(1) by (metis buf_wf_def word_order.extremum_unique)
  then have "buf_wf (Buffer_new p (buf_length b))" by (rule Buffer_new_wf)
  then obtain b' where b': "Buffer_dup p b = Inr b'" "buf_wf b'"
      "buf_cap b' = length (buf_contents b)" "buf_contents b' = buf_contents b"
    using append_string_fits [of "Buffer_new p (buf_length b)" "buf_contents b"] assms(1)
    by (auto simp: Buffer_dup_def length_contents append_buffer_contents)
  with assms equal_buffer_contents [OF assms(1) b'(2)] show ?thesis by (simp add: deep_equal_def)
qed

theorem Buffer_dup_equal_witness:
  "\<exists>b'. Buffer_dup 7 (Buffer_new 0 4) = Inr b' \<and> buf_contents b' = []"
  using Buffer_dup_equal [of "Buffer_new 0 4" 1 2 7] by (auto simp: Buffer_new_wf)

end
