(* ===== verification/Std_Map.thy ===== *)
theory Std_Map
  imports CString "HOL-Library.List_Lexorder"
begin

text \<open>
  \<open>std::map<std::string, T>\<close>, which holds headers, settings and handlers: the pairs in the
  order of their keys, and the keys in the lexicographic order of their bytes, which is the
  order in which the sources iterate over them.
\<close>

section \<open>The interface\<close>

text \<open>What the users of a map rely on: what a lookup finds after \<open>m[k] = v\<close>, and the order.\<close>

locale ordered_map =
  fixes put :: "'k::linorder \<Rightarrow> 'v \<Rightarrow> 'm \<Rightarrow> 'm"
    and find :: "'k \<Rightarrow> 'm \<Rightarrow> 'v option"
    and empty :: 'm
    and entries :: "'m \<Rightarrow> ('k \<times> 'v) list"
    and inv :: "'m \<Rightarrow> bool"
  assumes find_put: "find k (put k' v m) = (if k = k' then Some v else find k m)"
    and find_empty: "find k empty = None"
    and inv_empty: "inv empty"
    and inv_put: "inv m \<Longrightarrow> inv (put k v m)"
    and entries_sorted: "inv m \<Longrightarrow> sorted_wrt (<) (map fst (entries m))"
    and find_entries: "inv m \<Longrightarrow> find k m = Some v \<longleftrightarrow> (k, v) \<in> set (entries m)"
begin

lemma find_put_same [simp]: "find k (put k v m) = Some v"
  by (simp add: find_put)

lemma entries_distinct: "inv m \<Longrightarrow> distinct (map fst (entries m))"
  using entries_sorted by (auto simp: strict_sorted_iff)

text \<open>A map built by insertions is determined by what can be found in it.\<close>

lemma find_determines:
  assumes "inv m" and "inv m'" and "\<And>k. find k m = find k m'"
  shows "set (entries m) = set (entries m')"
  using find_entries [OF assms(1)] find_entries [OF assms(2)] assms(3) by auto

end

section \<open>The association list\<close>

type_synonym 'v str_map = "(cstring \<times> 'v) list"

fun map_put :: "'k::linorder \<Rightarrow> 'v \<Rightarrow> ('k \<times> 'v) list \<Rightarrow> ('k \<times> 'v) list" where
  "map_put k v [] = [(k, v)]"
| "map_put k v ((k', v') # m) =
     (if k < k' then (k, v) # (k', v') # m
      else if k = k' then (k, v) # m
      else (k', v') # map_put k v m)"

fun map_find :: "'k \<Rightarrow> ('k \<times> 'v) list \<Rightarrow> 'v option" where
  "map_find k [] = None"
| "map_find k ((k', v) # m) = (if k = k' then Some v else map_find k m)"

definition map_wf :: "('k::linorder \<times> 'v) list \<Rightarrow> bool" where
  "map_wf m \<longleftrightarrow> sorted_wrt (<) (map fst m)"

lemma map_find_put: "map_find k (map_put k' v m) = (if k = k' then Some v else map_find k m)"
  by (induction m rule: map_find.induct) auto

lemma fst_map_put: "fst ` set (map_put k v m) = insert k (fst ` set m)"
  by (induction k v m rule: map_put.induct) auto

lemma map_put_wf [wf_intros]: "map_wf m \<Longrightarrow> map_wf (map_put k v m)"
proof (induction k v m rule: map_put.induct)
  case (2 k v k' v' m)
  then show ?case
    using fst_map_put [of k v m] by (auto simp: map_wf_def dest: less_trans)
qed (simp add: map_wf_def)

lemma map_find_set: "map_wf m \<Longrightarrow> map_find k m = Some v \<longleftrightarrow> (k, v) \<in> set m"
proof (induction m)
  case (Cons x m)
  then show ?case by (cases x) (force simp: map_wf_def)
qed simp

interpretation smap: ordered_map map_put map_find "[]" "\<lambda>m. m" map_wf
  by unfold_locales (simp_all add: map_find_put map_put_wf map_find_set, simp_all add: map_wf_def)

end
