(* ===== verification/Co_Socket.thy ===== *)
theory Co_Socket
  imports Net Buffer Std_Map Event_Poll
begin

text \<open>
  \<open>src/coroutine/socket.cc\<close> and \<open>include/coroutine_socket.h\<close>: sockets that wait in the event
  loop instead of blocking, seen from the coroutine that uses them. A call that gives up the
  processor goes on after \<open>sys_yield\<close>; its scheduling is the subject of \<open>Event_Poll\<close> and
  \<open>Event_Loop\<close>. Loops that call the system again have fuel.
\<close>

section \<open>Waiting and trying again\<close>

definition sock_wait_event :: "'e sys \<Rightarrow> int \<Rightarrow> nat \<Rightarrow> 'e \<Rightarrow> bool \<times> 'e" where
  "sock_wait_event sys fd event e =
     (case sys_epoll_add sys fd (if event = FSW_EVENT_READ then EPOLLIN else EPOLLOUT) e of
        (ret, e) \<Rightarrow>
          if ret < 0 then (False, e)
          else (case sys_epoll_del sys fd (sys_yield sys e) of
            (ret, e) \<Rightarrow> if ret < 0 then (False, e) else (True, e)))"

text \<open>
  The loop \<open>do { ret = call } while (ret < 0 && errno == err && wait)\<close> of all the calls; the
  calls give the bytes they moved beside the result.
\<close>

primrec retry :: "nat \<Rightarrow> 'e sys \<Rightarrow> ('e \<Rightarrow> (int \<times> 'a) \<times> 'e) \<Rightarrow> int \<Rightarrow> ('e \<Rightarrow> bool \<times> 'e) \<Rightarrow> ('e, int \<times> 'a) call" where
  "retry 0 sys f err wait e = None"
| "retry (Suc n) sys f err wait e =
     (case f e of ((ret, x), e) \<Rightarrow>
        if ret < 0 \<and> sys_errno sys e = err then
          (case wait e of (ok, e) \<Rightarrow>
             if ok then retry n sys f err wait e else call_return (ret, x) e)
        else call_return (ret, x) e)"

text \<open>
  The loop of \<open>recv_all\<close> and \<open>send_all\<close>, from \<open>got\<close> bytes on: \<open>m\<close> bounds its turns and
  \<open>n\<close> the tries of each.
\<close>

primrec transfer_all ::
    "nat \<Rightarrow> nat \<Rightarrow> 'e sys \<Rightarrow> (nat \<Rightarrow> 'e \<Rightarrow> (int \<times> bytes) \<times> 'e) \<Rightarrow> ('e \<Rightarrow> bool \<times> 'e) \<Rightarrow> nat \<Rightarrow>
     int \<Rightarrow> bytes \<Rightarrow> ('e, int \<times> bytes) call" where
  "transfer_all 0 n sys f wait len got buf e = None"
| "transfer_all (Suc m) n sys f wait len got buf e =
     call_bind (retry n sys (f (nat got)) EAGAIN wait) (\<lambda>(ret, bs).
       if ret \<le> 0 then call_return (if got = 0 then ret else got, buf)
       else if nat (got + ret) = len then call_return (got + ret, buf @ bs)
       else transfer_all m n sys f wait len (got + ret) (buf @ bs)) e"

definition send_from :: "'e sys \<Rightarrow> int \<Rightarrow> bytes \<Rightarrow> nat \<Rightarrow> 'e \<Rightarrow> (int \<times> bytes) \<times> 'e" where
  "send_from sys fd buf got e =
     (case Socket_send sys fd (drop got buf) e of
        (ret, e) \<Rightarrow> ((ret, take (nat ret) (drop got buf)), e))"

text \<open>An \<open>int\<close> that is given a \<open>ssize_t\<close>.\<close>

definition to_int :: "int \<Rightarrow> int" where
  "to_int r = sint (word_of_int r :: u32)"

section \<open>The socket\<close>

definition READ_BUF_MAX_SIZE :: nat where "READ_BUF_MAX_SIZE = 1024"
definition WRITE_BUF_MAX_SIZE :: nat where "WRITE_BUF_MAX_SIZE = 1024"

record co_socket =
  sock_fd :: int
  err_code :: int
  err_msg :: cstring
  read_buf :: "buffer option"
  write_buf :: "buffer option"

definition set_err :: "'e sys \<Rightarrow> 'e \<Rightarrow> co_socket \<Rightarrow> co_socket" where
  "set_err sys e s =
     (let code = sys_errno sys e
      in s\<lparr>err_code := code, err_msg := if code \<noteq> 0 then sys_strerror sys code else []\<rparr>)"

definition co_socket_of_fd :: "'e sys \<Rightarrow> int \<Rightarrow> 'e \<Rightarrow> co_socket \<times> 'e" where
  "co_socket_of_fd sys fd e =
     (let s = \<lparr>sock_fd = fd, err_code = 0, err_msg = [], read_buf = None, write_buf = None\<rparr>
      in case Socket_set_nonblock sys fd e of
        (ret, e) \<Rightarrow> if ret < 0 then (set_err sys e s, e) else (s, e))"

definition co_socket_new :: "'e sys \<Rightarrow> int \<Rightarrow> int \<Rightarrow> int \<Rightarrow> 'e \<Rightarrow> co_socket \<times> 'e" where
  "co_socket_new sys domain ty protocol e =
     (case Socket_new sys domain ty protocol e of (fd, e) \<Rightarrow> co_socket_of_fd sys fd e)"

definition co_socket_delete :: "'e sys \<Rightarrow> co_socket \<Rightarrow> 'e \<Rightarrow> 'e" where
  "co_socket_delete sys s e = snd (Socket_close sys (sock_fd s) e)"

definition err_unless :: "'e sys \<Rightarrow> co_socket \<Rightarrow> bool \<times> 'e \<Rightarrow> (bool \<times> co_socket) \<times> 'e" where
  "err_unless sys s r = (case r of (ok, e) \<Rightarrow> ((ok, if ok then s else set_err sys e s), e))"

definition co_bind :: "'e sys \<Rightarrow> co_socket \<Rightarrow> int \<Rightarrow> cstring \<Rightarrow> u16 \<Rightarrow> 'e \<Rightarrow> (bool \<times> co_socket) \<times> 'e" where
  "co_bind sys s ty host port e = err_unless sys s (Socket_bind sys (sock_fd s) ty host port e)"

definition co_listen :: "'e sys \<Rightarrow> co_socket \<Rightarrow> int \<Rightarrow> 'e \<Rightarrow> (bool \<times> co_socket) \<times> 'e" where
  "co_listen sys s backlog e = err_unless sys s (Socket_listen sys (sock_fd s) backlog e)"

text \<open>\<open>accept\<close> makes a socket of whatever the system answered, a negative answer too.\<close>

definition co_accept :: "nat \<Rightarrow> 'e sys \<Rightarrow> co_socket \<Rightarrow> ('e, co_socket) call" where
  "co_accept n sys s =
     call_bind (retry n sys (\<lambda>e. case Socket_accept sys (sock_fd s) e of (r, e) \<Rightarrow> ((r, ()), e)) EAGAIN
        (sock_wait_event sys (sock_fd s) FSW_EVENT_READ))
       (\<lambda>(connfd, _) e. case co_socket_of_fd sys connfd e of (c, e) \<Rightarrow> call_return c e)"

definition co_recv :: "nat \<Rightarrow> 'e sys \<Rightarrow> co_socket \<Rightarrow> nat \<Rightarrow> ('e, int \<times> bytes) call" where
  "co_recv n sys s len =
     retry n sys (\<lambda>e. case Socket_recv sys (sock_fd s) len e of ((r, bs), e) \<Rightarrow> ((to_int r, bs), e)) EAGAIN
       (sock_wait_event sys (sock_fd s) FSW_EVENT_READ)"

definition co_recv_all :: "nat \<Rightarrow> nat \<Rightarrow> 'e sys \<Rightarrow> co_socket \<Rightarrow> nat \<Rightarrow> ('e, int \<times> bytes) call" where
  "co_recv_all m n sys s len =
     transfer_all m n sys (\<lambda>got. Socket_recv sys (sock_fd s) (len - got))
       (sock_wait_event sys (sock_fd s) FSW_EVENT_READ) len 0 []"

definition co_send :: "nat \<Rightarrow> 'e sys \<Rightarrow> co_socket \<Rightarrow> bytes \<Rightarrow> ('e, int) call" where
  "co_send n sys s buf =
     call_bind (retry n sys (\<lambda>e. case Socket_send sys (sock_fd s) buf e of (r, e) \<Rightarrow> ((to_int r, ()), e)) EAGAIN
       (sock_wait_event sys (sock_fd s) FSW_EVENT_WRITE)) (\<lambda>(ret, _). call_return ret)"

text \<open>\<open>send_all\<close> waits for the socket to become readable.\<close>

definition co_send_all :: "nat \<Rightarrow> nat \<Rightarrow> 'e sys \<Rightarrow> co_socket \<Rightarrow> bytes \<Rightarrow> ('e, int) call" where
  "co_send_all m n sys s buf =
     call_bind (transfer_all m n sys (send_from sys (sock_fd s) buf)
       (sock_wait_event sys (sock_fd s) FSW_EVENT_READ) (length buf) 0 []) (\<lambda>(ret, _). call_return ret)"

definition co_close :: "'e sys \<Rightarrow> co_socket \<Rightarrow> 'e \<Rightarrow> (bool \<times> co_socket) \<times> 'e" where
  "co_close sys s e = err_unless sys s (Socket_close sys (sock_fd s) e)"

definition co_connect :: "nat \<Rightarrow> 'e sys \<Rightarrow> co_socket \<Rightarrow> u32 \<Rightarrow> u16 \<Rightarrow> ('e, bool \<times> co_socket) call" where
  "co_connect n sys s addr port =
     call_bind (retry n sys (\<lambda>e. case sys_connect sys (sock_fd s) addr port e of (r, e) \<Rightarrow> ((r, ()), e)) EINPROGRESS
       (sock_wait_event sys (sock_fd s) FSW_EVENT_WRITE))
       (\<lambda>(ret, _) e. call_return (ret = 0, if ret < 0 then set_err sys e s else s) e)"

definition co_connect_host :: "nat \<Rightarrow> 'e sys \<Rightarrow> co_socket \<Rightarrow> cstring \<Rightarrow> u16 \<Rightarrow> ('e, bool \<times> co_socket) call" where
  "co_connect_host n sys s host port =
     (case sys_inet_pton sys host of
        (ret, addr) \<Rightarrow> if ret = 0 then call_fault ExitError else co_connect n sys s addr (htons port))"

definition co_shutdown :: "'e sys \<Rightarrow> co_socket \<Rightarrow> int \<Rightarrow> 'e \<Rightarrow> (bool \<times> co_socket) \<times> 'e" where
  "co_shutdown sys s how e = err_unless sys s (Socket_shutdown sys (sock_fd s) how e)"

definition co_set_option :: "'e sys \<Rightarrow> co_socket \<Rightarrow> int \<Rightarrow> int \<Rightarrow> bytes \<Rightarrow> 'e \<Rightarrow> (bool \<times> co_socket) \<times> 'e" where
  "co_set_option sys s level optname optval e =
     err_unless sys s (Socket_set_option sys (sock_fd s) level optname optval e)"

definition co_get_option :: "'e sys \<Rightarrow> co_socket \<Rightarrow> int \<Rightarrow> int \<Rightarrow> 'e \<Rightarrow> ((bool \<times> bytes) \<times> co_socket) \<times> 'e" where
  "co_get_option sys s level optname e =
     (case Socket_get_option sys (sock_fd s) level optname e of
        ((ok, val), e) \<Rightarrow> (((ok, val), if ok then s else set_err sys e s), e))"

definition name_info :: "'e sys \<Rightarrow> (bool \<times> u32 \<times> u16) \<times> 'e \<Rightarrow> cstring str_map \<times> 'e" where
  "name_info sys r =
     (case r of ((ok, addr, port), e) \<Rightarrow>
        (if ok then map_put (str ''port'') (to_string (int (unat (ntohs port))))
           (map_put (str ''address'') (sys_inet_ntoa sys addr) []) else [], e))"

definition co_get_name :: "'e sys \<Rightarrow> co_socket \<Rightarrow> 'e \<Rightarrow> cstring str_map \<times> 'e" where
  "co_get_name sys s e = name_info sys (Socket_getname sys (sock_fd s) e)"

definition co_get_peername :: "'e sys \<Rightarrow> co_socket \<Rightarrow> 'e \<Rightarrow> cstring str_map \<times> 'e" where
  "co_get_peername sys s e = name_info sys (Socket_getpeername sys (sock_fd s) e)"

definition get_read_buf :: "co_socket \<Rightarrow> buffer \<times> co_socket" where
  "get_read_buf s =
     (case read_buf s of
        Some b \<Rightarrow> (b, s)
      | None \<Rightarrow> let b = Buffer_new 0 (of_nat READ_BUF_MAX_SIZE) in (b, s\<lparr>read_buf := Some b\<rparr>))"

definition get_write_buf :: "co_socket \<Rightarrow> buffer \<times> co_socket" where
  "get_write_buf s =
     (case write_buf s of
        Some b \<Rightarrow> (b, s)
      | None \<Rightarrow> let b = Buffer_new 0 (of_nat WRITE_BUF_MAX_SIZE) in (b, s\<lparr>write_buf := Some b\<rparr>))"

text \<open>The received bytes are written at the start of the block of the read buffer.\<close>

definition write_block :: "buffer \<Rightarrow> bytes \<Rightarrow> buffer res" where
  "write_block b bs = res_bind (mem_write (buf_data b) 0 bs) (\<lambda>d. Inr (b\<lparr>buf_data := d\<rparr>))"

primrec check_client_close :: "nat \<Rightarrow> nat \<Rightarrow> 'e sys \<Rightarrow> co_socket \<Rightarrow> ('e, unit) call" where
  "check_client_close 0 n sys s e = None"
| "check_client_close (Suc m) n sys s e =
     (if read_buf s = None then call_fault NullPointer e
      else call_bind (co_recv n sys s READ_BUF_MAX_SIZE)
        (\<lambda>(ret, bs). if 0 < ret then check_client_close m n sys s else call_return ()) e)"

lemma to_int_small: "-1 \<le> r \<Longrightarrow> r < 2 ^ 31 \<Longrightarrow> to_int r = r"
  unfolding to_int_def by (simp add: signed_of_int signed_take_bit_int_eq_self)

text \<open>Only the descriptor of a socket matters to its transfers.\<close>

lemma co_recv_fd: "sock_fd s = sock_fd s' \<Longrightarrow> co_recv n sys s len = co_recv n sys s' len"
  by (simp only: co_recv_def)

lemma co_send_fd: "sock_fd s = sock_fd s' \<Longrightarrow> co_send n sys s bs = co_send n sys s' bs"
  by (simp only: co_send_def)

section \<open>Trying again comes to an end\<close>

text \<open>
  \<open>bud\<close> bounds how often a call can still say that it would block: a wait that succeeds after
  such an answer uses some of it up, and nothing gives it back.
\<close>

definition patience :: "'e sys \<Rightarrow> ('e \<Rightarrow> (int \<times> 'a) \<times> 'e) \<Rightarrow> int \<Rightarrow> ('e \<Rightarrow> bool \<times> 'e) \<Rightarrow> ('e \<Rightarrow> nat) \<Rightarrow> bool" where
  "patience sys f err wait bud \<longleftrightarrow>
     (\<forall>e ret x e1. f e = ((ret, x), e1) \<longrightarrow> bud e1 \<le> bud e \<and>
        (ret < 0 \<and> sys_errno sys e1 = err \<longrightarrow>
           bud (snd (wait e1)) \<le> bud e \<and> (fst (wait e1) \<longrightarrow> bud (snd (wait e1)) < bud e)))"

lemma retry_returns:
  assumes "patience sys f err wait bud"
    and step: "\<And>e ret x e1. I e \<Longrightarrow> f e = ((ret, x), e1) \<Longrightarrow> Q ret x e1 \<and> (ret < 0 \<longrightarrow> I e1)"
    and wait: "\<And>e. I e \<Longrightarrow> I (snd (wait e))"
    and refused: "\<And>ret x e. Q ret x e \<Longrightarrow> ret < 0 \<Longrightarrow> Q ret x (snd (wait e))"
  shows "I e \<Longrightarrow> bud e < n \<Longrightarrow>
    \<exists>ret x e'. retry n sys f err wait e = Some (Inr ((ret, x), e')) \<and> bud e' \<le> bud e \<and> Q ret x e' \<and>
      (\<exists>e0 e1. I e0 \<and> f e0 = ((ret, x), e1) \<and> \<not> (ret < 0 \<and> sys_errno sys e1 = err \<and> fst (wait e1)))"
proof (induction n arbitrary: e)
  case (Suc n)
  obtain ret x e1 where f: "f e = ((ret, x), e1)" by (metis prod.exhaust)
  obtain ok e2 where w: "wait e1 = (ok, e2)" by force
  have p: "bud e1 \<le> bud e" "ret < 0 \<and> sys_errno sys e1 = err \<Longrightarrow> bud e2 \<le> bud e \<and> (ok \<longrightarrow> bud e2 < bud e)"
    using assms(1) [unfolded patience_def, rule_format, OF f] w by simp_all
  note q = step [OF Suc.prems(1) f]
  show ?case
  proof (cases "ret < 0 \<and> sys_errno sys e1 = err \<and> ok")
    case True
    then have i: "I e2" "bud e2 < n" and b: "bud e2 \<le> bud e" using q wait [of e1] w p Suc.prems(2) by auto
    have "retry (Suc n) sys f err wait e = retry n sys f err wait e2" using True f w by simp
    with Suc.IH [OF i] b show ?thesis by (metis order_trans)
  next
    case False
    let ?e = "if ret < 0 \<and> sys_errno sys e1 = err then e2 else e1"
    have "retry (Suc n) sys f err wait e = Some (Inr ((ret, x), ?e))"
      using False f w by (simp add: call_return_def)
    moreover have "Q ret x ?e" "bud ?e \<le> bud e" using q p refused [of ret x e1] w by auto
    moreover have "I e \<and> f e = ((ret, x), e1) \<and> \<not> (ret < 0 \<and> sys_errno sys e1 = err \<and> fst (wait e1))"
      using False Suc.prems(1) f w by simp
    ultimately show ?thesis by blast
  qed
qed simp

section \<open>Moving all of it\<close>

lemma transfer_all_returns:
  assumes pat: "\<And>t. patience sys (f t) EAGAIN wait bud"
    and step: "\<And>buf e ret bs e1. I buf e \<Longrightarrow> length buf \<le> len \<Longrightarrow> f (length buf) e = ((ret, bs), e1) \<Longrightarrow>
      (0 < ret \<longrightarrow> I (buf @ bs) e1 \<and> length bs = nat ret \<and> length buf + length bs \<le> len) \<and>
      (ret \<le> 0 \<longrightarrow> I buf e1)"
    and wait: "\<And>buf e. I buf e \<Longrightarrow> I buf (snd (wait e))"
  shows "I buf e \<Longrightarrow> length buf \<le> len \<Longrightarrow> len - length buf < m \<Longrightarrow> bud e < n \<Longrightarrow>
    \<exists>ret buf' e'. transfer_all m n sys f wait len (int (length buf)) buf e = Some (Inr ((ret, buf'), e')) \<and>
      I buf' e' \<and> length buf' \<le> len \<and> (ret = int (length buf') \<or> buf' = [] \<and> ret \<le> 0) \<and>
      (length buf' < len \<longrightarrow> (\<exists>e0 r bs e1. f (length buf') e0 = ((r, bs), e1) \<and> r \<le> 0 \<and>
         \<not> (r < 0 \<and> sys_errno sys e1 = EAGAIN \<and> fst (wait e1))))"
proof (induction m arbitrary: buf e)
  case (Suc m)
  define Q where "Q ret bs e1 \<longleftrightarrow>
      (0 < ret \<longrightarrow> I (buf @ bs) e1 \<and> length bs = nat ret \<and> length buf + length bs \<le> len) \<and>
      (ret \<le> 0 \<longrightarrow> I buf e1)" for ret :: int and bs e1
  have "\<exists>ret bs e'. retry n sys (f (length buf)) EAGAIN wait e = Some (Inr ((ret, bs), e')) \<and> bud e' \<le> bud e \<and>
      Q ret bs e' \<and> (\<exists>e0 e1. I buf e0 \<and> f (length buf) e0 = ((ret, bs), e1) \<and>
        \<not> (ret < 0 \<and> sys_errno sys e1 = EAGAIN \<and> fst (wait e1)))"
  proof (rule retry_returns [where I = "I buf" and bud = bud])
    show "patience sys (f (length buf)) EAGAIN wait bud" by (rule pat)
    show "I buf e" "bud e < n" by (rule Suc.prems(1), rule Suc.prems(4))
    show "Q ret x e1 \<and> (ret < 0 \<longrightarrow> I buf e1)" if "I buf e" "f (length buf) e = ((ret, x), e1)" for e ret x e1
      using step [OF that(1) Suc.prems(2) that(2)] unfolding Q_def by auto
    show "I buf (snd (wait e))" if "I buf e" for e using that by (rule wait)
    show "Q ret x (snd (wait e))" if "Q ret x e" "ret < 0" for ret x e
      using that wait [of buf e] by (simp add: Q_def)
  qed
  then obtain ret bs e' e0 e1 where r: "retry n sys (f (length buf)) EAGAIN wait e = Some (Inr ((ret, bs), e'))"
    and b: "bud e' \<le> bud e" and q: "Q ret bs e'" and c: "f (length buf) e0 = ((ret, bs), e1)"
      "\<not> (ret < 0 \<and> sys_errno sys e1 = EAGAIN \<and> fst (wait e1))"
    by blast
  consider "ret \<le> 0" | "0 < ret" "length buf + nat ret = len" | "0 < ret" "length buf + nat ret < len"
    using q unfolding Q_def by (metis le_less_linear le_neq_implies_less)
  then show ?case
  proof cases
    case 1
    then have "transfer_all (Suc m) n sys f wait len (int (length buf)) buf e =
        Some (Inr ((if buf = [] then ret else int (length buf), buf), e'))"
      using r by (simp add: call_bind_def call_return_def)
    moreover have "I buf e'" using q 1 by (simp add: Q_def)
    moreover have "(if buf = [] then ret else int (length buf)) = int (length buf) \<or>
        buf = [] \<and> (if buf = [] then ret else int (length buf)) \<le> 0"
      using 1 by simp
    moreover have "\<exists>e0 r bs e1. f (length buf) e0 = ((r, bs), e1) \<and> r \<le> 0 \<and>
        \<not> (r < 0 \<and> sys_errno sys e1 = EAGAIN \<and> fst (wait e1))"
      using c 1 by blast
    ultimately show ?thesis using Suc.prems(2) by blast
  next
    case 2
    then have l: "length bs = nat ret" "I (buf @ bs) e'" using q by (simp_all add: Q_def)
    have "transfer_all (Suc m) n sys f wait len (int (length buf)) buf e =
        Some (Inr ((int (length (buf @ bs)), buf @ bs), e'))"
      using r 2 l by (simp add: call_bind_def call_return_def nat_add_distrib)
    then show ?thesis using 2 l by fastforce
  next
    case 3
    let ?buf = "buf @ bs"
    have l: "length bs = nat ret" "I ?buf e'" using 3 q by (auto simp: Q_def)
    then have "transfer_all (Suc m) n sys f wait len (int (length buf)) buf e =
        transfer_all m n sys f wait len (int (length ?buf)) ?buf e'"
      using r 3 by (simp add: call_bind_def nat_add_distrib)
    moreover have "length ?buf \<le> len" "len - length ?buf < m" "bud e' < n"
      using l 3 b Suc.prems by auto
    ultimately show ?thesis using Suc.IH [OF l(2)] by simp
  qed
qed simp

lemma wait_event_keeps:
  assumes "\<And>ev e. P (snd (sys_epoll_add sys fd ev e)) = P e" and "\<And>e. P (snd (sys_epoll_del sys fd e)) = P e"
    and "\<And>e. P (sys_yield sys e) = P e"
  shows "P (snd (sock_wait_event sys fd event e)) = P e"
proof -
  let ?add = "sys_epoll_add sys fd (if event = FSW_EVENT_READ then EPOLLIN else EPOLLOUT) e"
  obtain r1 e1 where a: "?add = (r1, e1)" by force
  obtain r2 e2 where d: "sys_epoll_del sys fd (sys_yield sys e1) = (r2, e2)" by force
  have "P e1 = P e" "P e2 = P e"
    using assms(1) [of "if event = FSW_EVENT_READ then EPOLLIN else EPOLLOUT" e] a
      assms(2) [of "sys_yield sys e1"] assms(3) [of e1] d by simp_all
  with a d show ?thesis by (simp add: sock_wait_event_def split: if_splits)
qed


text \<open>
  A concrete system for examples: one stream socket that delivers and accepts two bytes at a
  time and answers \<open>EAGAIN\<close> until it was waited for \<open>blocked\<close> times.
\<close>

record demo =
  blocked :: nat
  to_read :: bytes
  written :: bytes

definition demo_sys :: "demo sys" where
  "demo_sys = \<lparr>sys_errno = (\<lambda>e. if 0 < blocked e then EAGAIN else 0), sys_strerror = (\<lambda>_. []),
     sys_socket = (\<lambda>_ _ _ e. (3, e)), sys_bind = (\<lambda>_ _ _ e. (0, e)), sys_listen = (\<lambda>_ _ e. (0, e)),
     sys_accept = (\<lambda>_ e. (if 0 < blocked e then -1 else 4, e)), sys_connect = (\<lambda>_ _ _ e. (0, e)),
     sys_recv = (\<lambda>_ len e. if 0 < blocked e then ((-1, []), e) else
       let n = min (min 2 len) (length (to_read e))
       in ((int n, take n (to_read e)), e\<lparr>to_read := drop n (to_read e)\<rparr>)),
     sys_send = (\<lambda>_ bs e. if 0 < blocked e then (-1, e) else
       let n = min 2 (length bs) in (int n, e\<lparr>written := written e @ take n bs\<rparr>)),
     sys_close = (\<lambda>_ e. (0, e)), sys_shutdown = (\<lambda>_ _ e. (0, e)),
     sys_setsockopt = (\<lambda>_ _ _ _ e. (0, e)), sys_getsockopt = (\<lambda>_ _ _ e. ((0, []), e)),
     sys_getsockname = (\<lambda>_ e. ((0, 0, 0), e)), sys_getpeername = (\<lambda>_ e. ((0, 0, 0), e)),
     sys_getfl = (\<lambda>_ e. (0, e)), sys_setfl = (\<lambda>_ _ e. (0, e)),
     sys_epoll_add = (\<lambda>_ _ e. (0, e)), sys_epoll_del = (\<lambda>_ e. (0, e)),
     sys_yield = (\<lambda>e. e\<lparr>blocked := blocked e - 1\<rparr>),
     sys_inet_aton = (\<lambda>_. (1, 0)), sys_inet_pton = (\<lambda>_. (1, 0)), sys_inet_ntoa = (\<lambda>_. [])\<rparr>"

definition demo_socket :: co_socket where
  "demo_socket = \<lparr>sock_fd = 4, err_code = 0, err_msg = [], read_buf = None, write_buf = None\<rparr>"

lemma demo_wait: "sock_wait_event demo_sys fd ev e = (True, e\<lparr>blocked := blocked e - 1\<rparr>)"
  by (simp add: sock_wait_event_def demo_sys_def)

lemma demo_recv_stream: "recv_stream demo_sys fd to_read"
  by (auto simp: recv_stream_def demo_sys_def Let_def split: if_splits)

lemma demo_send_stream: "send_stream demo_sys fd written"
  by (auto simp: send_stream_def demo_sys_def Let_def split: if_splits)

lemma demo_recv_patience:
  "patience demo_sys (Socket_recv demo_sys fd len) EAGAIN (sock_wait_event demo_sys fd ev) blocked"
  unfolding patience_def demo_wait
  by (auto simp: Socket_recv_def demo_sys_def Let_def EAGAIN_def split: if_splits)

lemma demo_send_patience:
  "patience demo_sys (send_from demo_sys fd buf t) EAGAIN (sock_wait_event demo_sys fd ev) blocked"
  unfolding patience_def demo_wait
  by (auto simp: send_from_def Socket_send_def demo_sys_def Let_def EAGAIN_def split: if_splits)


lemma send_from_extends:
  assumes "send_stream sys fd out" and "out e1 = sent @ b" and "b = take (length b) buf" and "length b \<le> length buf"
    and "send_from sys fd buf (length b) e1 = ((ret, bs), e2)"
  shows "if 0 < ret then out e2 = sent @ b @ bs \<and> b @ bs = take (length (b @ bs)) buf \<and> length bs = nat ret \<and>
    length b + length bs \<le> length buf else out e2 = sent @ b"
proof -
  have s: "sys_send sys fd (drop (length b) buf) e1 = (ret, e2)" "bs = take (nat ret) (drop (length b) buf)"
    using assms(5) by (auto simp: send_from_def Socket_send_def split: prod.splits)
  have "ret \<le> int (length buf) - int (length b)" "out e2 = out e1 @ bs"
    using assms(1) [unfolded send_stream_def, THEN conjunct1, rule_format, OF s(1)] assms(4) s(2) by auto
  moreover have "b @ bs = take (length b + length bs) buf"
    using assms(3) s(2) by (metis append_take_drop_id length_append length_take min.absorb2
        nat_le_linear append_eq_conv_conj take_add take_all_iff)
  ultimately show ?thesis using assms(2,4) s(2) by auto
qed



lemma retry_errno_cong: "sys_errno sys = sys_errno sys' \<Longrightarrow> retry n sys f err wait e = retry n sys' f err wait e"
  by (induction n arbitrary: e) (simp_all split: prod.splits)

lemma transfer_all_cong:
  assumes "sys_errno sys = sys_errno sys'"
  shows "transfer_all m n sys f wait len got buf e = transfer_all m n sys' f wait len got buf e"
proof (induction m arbitrary: got buf e)
  case (Suc m)
  have "retry n sys (f (nat got)) EAGAIN wait e = retry n sys' (f (nat got)) EAGAIN wait e"
    by (rule retry_errno_cong) (rule assms)
  then show ?case by (simp add: call_bind_def Suc.IH split: option.splits sum.splits prod.splits)
qed simp

text \<open>
  When a \<open>send\<close> would block, \<open>send_all\<close> waits for input on the socket and never for room
  to write: what the system answers when it is asked about writability makes no difference to it.
\<close>

theorem send_all_ignores_writability:
  assumes "\<And>fd e. g fd EPOLLIN e = sys_epoll_add sys fd EPOLLIN e"
  shows "co_send_all m n (sys\<lparr>sys_epoll_add := g\<rparr>) s buf e = co_send_all m n sys s buf e"
proof -
  let ?sys = "sys\<lparr>sys_epoll_add := g\<rparr>"
  have "sock_wait_event ?sys fd FSW_EVENT_READ = sock_wait_event sys fd FSW_EVENT_READ" for fd
    using assms by (auto simp: sock_wait_event_def fun_eq_iff split: prod.splits)
  moreover have "send_from ?sys fd buf = send_from sys fd buf" for fd
    by (simp add: send_from_def Socket_send_def fun_eq_iff)
  ultimately have "transfer_all m n ?sys (send_from ?sys (sock_fd s) buf) (sock_wait_event ?sys (sock_fd s) FSW_EVENT_READ)
        (length buf) 0 [] e =
      transfer_all m n sys (send_from sys (sock_fd s) buf) (sock_wait_event sys (sock_fd s) FSW_EVENT_READ) (length buf) 0 [] e"
    by (simp add: transfer_all_cong [of ?sys sys])
  then show ?thesis by (simp add: co_send_all_def call_bind_def)
qed

theorem send_all_ignores_writability_witness:
  "co_send_all 4 3 (demo_sys\<lparr>sys_epoll_add := \<lambda>fd ev e. if ev = EPOLLIN then (0, e) else (-1, e)\<rparr>)
     demo_socket [7, 8, 9] \<lparr>blocked = 2, to_read = [], written = []\<rparr> =
   co_send_all 4 3 demo_sys demo_socket [7, 8, 9] \<lparr>blocked = 2, to_read = [], written = []\<rparr>"
  by (rule send_all_ignores_writability) (simp add: demo_sys_def)

text \<open>A system that moves everything at once, for examples.\<close>

definition quick_sys :: "demo sys" where
  "quick_sys = demo_sys\<lparr>
     sys_recv := \<lambda>_ len e. ((int (min len (length (to_read e))), take len (to_read e)), e\<lparr>to_read := drop len (to_read e)\<rparr>),
     sys_send := \<lambda>_ bs e. (int (length bs), e\<lparr>written := written e @ bs\<rparr>)\<rparr>"

lemma quick_recv:
  "length x \<le> len \<Longrightarrow> to_int (int (length x)) = int (length x) \<Longrightarrow> co_recv 1 quick_sys s len \<lparr>blocked = 0, to_read = x, written = z\<rparr> =
     Some (Inr ((int (length x), x), \<lparr>blocked = 0, to_read = [], written = z\<rparr>))"
  by (simp add: co_recv_def Socket_recv_def quick_sys_def call_return_def min_absorb2)

lemma quick_send:
  "to_int (int (length x)) = int (length x) \<Longrightarrow> co_send 1 quick_sys s x e = Some (Inr (int (length x), e\<lparr>written := written e @ x\<rparr>))"
  by (simp add: co_send_def Socket_send_def quick_sys_def call_bind_def call_return_def)

end
