(* ===== verification/Websocket_Frame.thy ===== *)
theory Websocket_Frame
  imports Buffer
begin

text \<open>
  \<open>src/websocket_frame.cc\<close> and \<open>include/websocket_frame.h\<close>: the two-byte frame header and
  its bit-fields, the 64-bit network order, the masking loop that works on eight bytes at a
  time, and the encoding and decoding of a frame in a \<open>Buffer\<close>. The reference is the frame
  layout of RFC 6455.
\<close>

section \<open>The frame header\<close>

definition MASK_LEN :: nat where "MASK_LEN = 4"
definition HEADER_LEN :: nat where "HEADER_LEN = 2"

record frame_header =
  opcode :: byte
  rsv3 :: byte
  rsv2 :: byte
  rsv1 :: byte
  fin :: byte
  len7 :: byte
  mask_bit :: byte

text \<open>The layout of the bit-fields in the two bytes, the first field in the low bits.\<close>

definition header_of_bytes :: "byte \<Rightarrow> byte \<Rightarrow> frame_header" where
  "header_of_bytes b0 b1 =
     \<lparr>opcode = take_bit 4 b0, rsv3 = take_bit 1 (drop_bit 4 b0), rsv2 = take_bit 1 (drop_bit 5 b0),
      rsv1 = take_bit 1 (drop_bit 6 b0), fin = drop_bit 7 b0,
      len7 = take_bit 7 b1, mask_bit = drop_bit 7 b1\<rparr>"

definition bytes_of_header :: "frame_header \<Rightarrow> bytes" where
  "bytes_of_header h =
     [take_bit 4 (opcode h) OR push_bit 4 (take_bit 1 (rsv3 h)) OR push_bit 5 (take_bit 1 (rsv2 h))
        OR push_bit 6 (take_bit 1 (rsv1 h)) OR push_bit 7 (take_bit 1 (fin h)),
      take_bit 7 (len7 h) OR push_bit 7 (take_bit 1 (mask_bit h))]"

text \<open>\<open>class Frame\<close>; \<open>ws_payload\<close> is the offset of the payload pointer in the message.\<close>

record ws_frame =
  ws_header :: frame_header
  mask_key :: bytes
  header_length :: u16
  payload_length :: u64
  ws_payload :: nat

section \<open>Byte order and masking\<close>

definition ntoh64 :: "u64 \<Rightarrow> u64" where
  "ntoh64 net =
     (let low = ntohl (ucast (net AND 0xFFFFFFFF)); high = ntohl (ucast (drop_bit 32 net))
      in push_bit 32 (ucast low) OR ucast high)"

definition hton64 :: "u64 \<Rightarrow> u64" where
  "hton64 host =
     (let low = htonl (ucast (host AND 0xFFFFFFFF));
          high = htonl (ucast (drop_bit 32 host AND 0xFFFFFFFF))
      in push_bit 32 (ucast low) OR ucast high)"

text \<open>The first loop of \<open>mask\<close>: \<open>n\<close> eight-byte words at the front of \<open>data\<close>.\<close>

fun mask_words :: "nat \<Rightarrow> u64 \<Rightarrow> bytes \<Rightarrow> bytes" where
  "mask_words 0 key64 data = data"
| "mask_words (Suc n) key64 data =
     store_le 8 (load_le (take 8 data) XOR key64) @ mask_words n key64 (drop 8 data)"

text \<open>The second loop: the bytes from \<open>i\<close> on.\<close>

fun mask_bytes :: "nat \<Rightarrow> bytes \<Rightarrow> bytes \<Rightarrow> bytes" where
  "mask_bytes i key [] = []"
| "mask_bytes i key (d # ds) = (d XOR key ! (i mod MASK_LEN)) # mask_bytes (Suc i) key ds"

definition ws_mask :: "bytes \<Rightarrow> bytes \<Rightarrow> bytes" where
  "ws_mask data key =
     (let n = length data div 8;
          key64 = push_bit 32 (ucast (load_le (take 4 key) :: u32)) OR ucast (load_le (take 4 key) :: u32);
          data' = mask_words n key64 data
      in take (n * 8) data' @ mask_bytes (n * 8) key (drop (n * 8) data'))"

section \<open>Decoding\<close>

definition fetch_header :: "bytes \<Rightarrow> ws_frame \<Rightarrow> ws_frame res" where
  "fetch_header msg f =
     res_bind (mem_read msg 0 HEADER_LEN) (\<lambda>bs.
     Inr (f\<lparr>ws_header := header_of_bytes (bs ! 0) (bs ! 1)\<rparr>))"

text \<open>
  \<open>fetch_payload\<close> returns the frame and the message, whose payload it unmasks in place. The
  length comes from the message; whether the message has that many bytes is not checked by the
  code, so a longer one leaves the block.
\<close>

definition payload_len_field :: "bytes \<Rightarrow> byte \<Rightarrow> (u64 \<times> nat) res" where
  "payload_len_field msg l =
     (if l = 126 then
        res_bind (mem_read msg HEADER_LEN 2) (\<lambda>bs. Inr (ucast (ntohs (load_le bs)), HEADER_LEN + 2))
      else if l = 127 then
        res_bind (mem_read msg HEADER_LEN 8) (\<lambda>bs. Inr (ntoh64 (load_le bs), HEADER_LEN + 8))
      else Inr (ucast l, HEADER_LEN))"

definition fetch_payload :: "bytes \<Rightarrow> ws_frame \<Rightarrow> (ws_frame \<times> bytes) res" where
  "fetch_payload msg f =
     res_bind (mem_read msg 1 1) (\<lambda>b1.
     let l = b1 ! 0 AND 0x7f;
         f = f\<lparr>ws_header := (ws_header f)\<lparr>len7 := l\<rparr>\<rparr> in
     res_bind (payload_len_field msg l) (\<lambda>(plen, hlen).
     if mask_bit (ws_header f) \<noteq> 0 then
       res_bind (mem_read msg hlen MASK_LEN) (\<lambda>key.
       let hlen' = hlen + MASK_LEN;
           f = f\<lparr>mask_key := key, header_length := of_nat hlen', payload_length := plen,
                 ws_payload := hlen'\<rparr> in
       if plen > 0 then
         res_bind (mem_read msg hlen' (unat plen)) (\<lambda>data.
         res_bind (mem_write msg hlen' (ws_mask data key)) (\<lambda>msg'. Inr (f, msg')))
       else Inr (f, msg))
     else Inr (f\<lparr>header_length := of_nat hlen, payload_length := plen, ws_payload := hlen\<rparr>, msg)))"

definition ws_decode :: "buffer \<Rightarrow> ws_frame \<Rightarrow> (ws_frame \<times> buffer) res" where
  "ws_decode buf f =
     res_bind (fetch_header (buf_data buf) f) (\<lambda>f.
     res_bind (fetch_payload (buf_data buf) f) (\<lambda>(f, msg).
     Inr (f, buf\<lparr>buf_data := msg\<rparr>)))"

section \<open>Encoding\<close>

text \<open>The header of the frame, its length field and the number of bytes written, \<open>pos\<close>.\<close>

definition encode_length :: "u64 \<Rightarrow> byte \<times> bytes" where
  "encode_length n =
     (if n < 126 then (ucast n, [])
      else if n < 65536 then (126, store_le 2 (htons (ucast n)))
      else (127, store_le 8 (hton64 n)))"

definition encode_header :: "byte \<Rightarrow> byte \<Rightarrow> byte \<Rightarrow> frame_header" where
  "encode_header op finish l =
     \<lparr>opcode = take_bit 4 op, rsv3 = 0, rsv2 = 0, rsv1 = 0, fin = take_bit 1 finish,
      len7 = take_bit 7 l, mask_bit = 0\<rparr>"

definition ws_encode :: "buffer \<Rightarrow> buffer \<Rightarrow> byte \<Rightarrow> byte \<Rightarrow> buffer res" where
  "ws_encode enc data op finish =
     (let (l, ext) = encode_length (buf_length data);
          h = encode_header op finish l;
          hdr = bytes_of_header h @ ext in
      res_bind (append_chars enc hdr (of_nat (length hdr))) (\<lambda>enc.
      if mask_bit h \<noteq> 0 then
        res_bind (append_string enc (str ''258E'')) (\<lambda>enc.
        if buf_length data > 0 then
          let offset = unat (buf_length enc) in
          res_bind (append_buffer enc data) (\<lambda>enc.
          res_bind (mem_read (buf_data enc) offset (unat (buf_length data))) (\<lambda>bs.
          res_bind (mem_write (buf_data enc) offset (ws_mask bs (str ''258E''))) (\<lambda>d.
          Inr (enc\<lparr>buf_data := d\<rparr>))))
        else Inr enc)
      else if buf_length data > 0 then append_buffer enc data
      else Inr enc))"

section \<open>The reference: RFC 6455\<close>

definition mask_ref :: "bytes \<Rightarrow> bytes \<Rightarrow> bytes" where
  "mask_ref data key = map (\<lambda>i. data ! i XOR key ! (i mod 4)) [0..<length data]"

definition rfc_length :: "nat \<Rightarrow> nat \<times> bytes" where
  "rfc_length n =
     (if n < 126 then (n, []) else if n < 65536 then (126, be_bytes 2 n) else (127, be_bytes 8 n))"

text \<open>A frame with its reserved bits clear; \<open>key\<close> is the masking key, if there is one.\<close>

definition rfc_frame :: "bool \<Rightarrow> nat \<Rightarrow> bytes option \<Rightarrow> bytes \<Rightarrow> bytes" where
  "rfc_frame final op key data =
     (let (l, ext) = rfc_length (length data) in
      [of_nat (op mod 16 + (if final then 128 else 0)),
       of_nat (l + (case key of None \<Rightarrow> 0 | Some _ \<Rightarrow> 128))] @ ext @
      (case key of None \<Rightarrow> data | Some k \<Rightarrow> k @ mask_ref data k))"

text \<open>The header that frame has.\<close>

definition rfc_header :: "bool \<Rightarrow> nat \<Rightarrow> bool \<Rightarrow> nat \<Rightarrow> frame_header" where
  "rfc_header final op masked n =
     \<lparr>opcode = of_nat (op mod 16), rsv3 = 0, rsv2 = 0, rsv1 = 0, fin = (if final then 1 else 0),
      len7 = of_nat (fst (rfc_length n)), mask_bit = (if masked then 1 else 0)\<rparr>"

section \<open>Byte order\<close>

lemma low_half_nat: "unat (ucast ((x :: u64) AND 0xFFFFFFFF) :: u32) = unat x mod 2 ^ 32"
proof -
  have "x AND 0xFFFFFFFF = take_bit 32 x" by (simp add: take_bit_eq_mask mask_eq_exp_minus_1)
  then show ?thesis
    by (simp only: unsigned_ucast_eq unat_take_bit_word) (simp add: take_bit_eq_mod)
qed

lemma high_half_nat: "unat (ucast (drop_bit 32 (x :: u64)) :: u32) = unat x div 2 ^ 32"
proof -
  have "unat x < 2 ^ 32 * 2 ^ 32" using unsigned_less [where 'a = nat, of x] by simp
  then have "unat x div 2 ^ 32 < 2 ^ 32" by (simp add: less_mult_imp_div_less)
  then show ?thesis
    by (simp only: unsigned_ucast_eq unat_drop_bit_word) (simp add: take_bit_eq_mod)
qed

lemma store_halves:
  "store_le 4 (ucast ((x :: u64) AND 0xFFFFFFFF) :: u32) @ store_le 4 (ucast (drop_bit 32 x) :: u32)
   = store_le 8 x"
proof -
  have "nat_le (4 + 4) (unat x) = nat_le 4 (unat x mod 256 ^ 4) @ nat_le 4 (unat x div 256 ^ 4)"
    by (simp only: nat_le_add nat_le_mod)
  then show ?thesis by (simp add: store_le_def low_half_nat high_half_nat)
qed

lemma high_and: "(drop_bit 32 (x :: u64) AND 0xFFFFFFFF) = drop_bit 32 x"
proof -
  have "drop_bit 32 x AND 0xFFFFFFFF = take_bit 32 (drop_bit 32 x)"
    by (simp add: take_bit_eq_mask mask_eq_exp_minus_1)
  also have "\<dots> = drop_bit 32 x"
    by (rule bit_word_eqI) (auto simp: bit_simps dest: bit_imp_le_length)
  finally show ?thesis .
qed

lemma store_ntohl: "store_le 4 (ntohl w) = rev (store_le 4 w)"
  by (simp add: ntohl_def store_bswap)

lemma store_htonl_rev: "store_le 4 (htonl w) = rev (store_le 4 w)"
  by (simp add: htonl_def store_bswap)

lemma store_hton64: "store_le 8 (hton64 x) = rev (store_le 8 x)"
  by (simp only: hton64_def Let_def store_join64 store_htonl_rev rev_append [symmetric] high_and store_halves)

lemma store_ntoh64: "store_le 8 (ntoh64 x) = rev (store_le 8 x)"
  by (simp only: ntoh64_def Let_def store_join64 store_ntohl rev_append [symmetric] store_halves)

lemma store_le_inj: "store_le 8 (x :: u64) = store_le 8 y \<longleftrightarrow> x = y"
proof
  assume "store_le 8 x = store_le 8 y"
  then have "load_le (store_le 8 x) = (load_le (store_le 8 y) :: u64)" by simp
  then show "x = y" by (simp add: load_store)
qed simp

lemma hton64_bswap: "hton64 x = bswap 8 x"
  by (simp add: store_le_inj [symmetric] store_hton64 store_bswap)

lemma ntoh64_bswap: "ntoh64 x = bswap 8 x"
  by (simp add: store_le_inj [symmetric] store_ntoh64 store_bswap)

lemma store_hton64_be: "store_le 8 (hton64 x) = be_bytes 8 (unat x)"
  by (simp only: store_hton64) (simp add: be_bytes_def store_le_def)

section \<open>Masking\<close>

lemma key64_bytes:
  "length key = 4 \<Longrightarrow>
   store_le 8 (push_bit 32 (ucast (load_le key :: u32)) OR ucast (load_le key :: u32) :: u64) = key @ key"
  by (simp add: store_join64 store_load)

lemma mask_bytes_nth:
  "mask_bytes i key ds = map (\<lambda>j. ds ! j XOR key ! ((i + j) mod 4)) [0..<length ds]"
proof (induction ds arbitrary: i)
  case Nil
  then show ?case by simp
next
  case (Cons d ds)
  then show ?case by (simp add: MASK_LEN_def upt_conv_Cons map_Suc_upt [symmetric] del: upt_Suc)
qed

lemma length_mask_words [simp]: "8 * n \<le> length data \<Longrightarrow> length (mask_words n k data) = length data"
  by (induction n arbitrary: data) auto

lemma mask_words_nth:
  assumes "store_le 8 key64 = key @ key" and "length key = 4"
  shows "8 * n \<le> length data \<Longrightarrow> i < length data \<Longrightarrow>
    mask_words n key64 data ! i = (if i < 8 * n then data ! i XOR key ! (i mod 4) else data ! i)"
proof (induction n arbitrary: data i)
  case 0
  then show ?case by simp
next
  case (Suc n)
  have w: "store_le 8 (load_le (take 8 data) XOR key64) = map2 (XOR) (take 8 data) (key @ key)"
    using Suc.prems(1) assms(1) by (simp add: store_le_xor store_load)
  show ?case
  proof (cases "i < 8")
    case True
    have "(key @ key) ! i = key ! (i mod 4)"
      using True assms(2) by (auto simp: nth_append dest!: byte_bits)
    with True Suc.prems w assms(2) show ?thesis by (simp add: nth_append)
  next
    case False
    then have "i mod 4 = (i - 8) mod 4" by presburger
    with False Suc.IH [of "drop 8 data" "i - 8"] Suc.prems show ?thesis
      by (auto simp: nth_append)
  qed
qed

lemma ws_mask_ref:
  assumes "length key = 4"
  shows "ws_mask data key = mask_ref data key"
proof -
  let ?n = "length data div 8"
  let ?k = "push_bit 32 (ucast (load_le key :: u32)) OR ucast (load_le key :: u32) :: u64"
  have k: "store_le 8 ?k = key @ key" using assms by (rule key64_bytes)
  have n: "8 * ?n \<le> length data" by simp
  have "mask_ref data key ! i = ws_mask data key ! i" if "i < length data" for i
  proof (cases "i < 8 * ?n")
    case True
    then show ?thesis
      using that assms n mask_words_nth [OF k assms n that]
      by (simp add: ws_mask_def mask_ref_def Let_def nth_append)
  next
    case False
    then show ?thesis
      using that assms n mask_words_nth [OF k assms n that]
      by (simp add: ws_mask_def mask_ref_def Let_def nth_append mask_bytes_nth)
  qed
  then show ?thesis
    using assms n by (intro nth_equalityI) (simp_all add: ws_mask_def mask_ref_def Let_def mask_bytes_nth)
qed
lemma mask_ref_involution:
  "length key = 4 \<Longrightarrow> mask_ref (mask_ref data key) key = data"
  by (rule nth_equalityI) (simp_all add: mask_ref_def xor.assoc)

text \<open>
  C19: the masking loop, which works on eight bytes at a time with a doubled key and finishes
  byte by byte, is the byte-wise masking of RFC 6455, and masking twice gives the data back.
\<close>

theorem ws_mask_bytewise:
  assumes "length key = 4"
  shows "ws_mask data key = mask_ref data key \<and> ws_mask (ws_mask data key) key = data"
  using assms mask_ref_involution [OF assms] by (simp add: ws_mask_ref)

theorem ws_mask_bytewise_witness:
  "ws_mask [1, 2, 3, 4, 5, 6, 7, 8, 9] [1, 0, 0, 1] = mask_ref [1, 2, 3, 4, 5, 6, 7, 8, 9] [1, 0, 0, 1]"
  using ws_mask_bytewise [of "[1, 0, 0, 1]"] by simp

text \<open>
  \<open>hton64\<close> and \<open>ntoh64\<close> (each built from two 32-bit conversions) reverse all eight
  bytes: what is stored is the big-endian number, and they undo each other.
\<close>

theorem hton64_network_order:
  "store_le 8 (hton64 x) = be_bytes 8 (unat x) \<and> ntoh64 (hton64 x) = x \<and> hton64 (ntoh64 x) = x"
  by (intro conjI store_hton64_be) (simp_all add: hton64_bswap ntoh64_bswap bswap_bswap)

section \<open>Header\<close>

lemma header_of_bytes_of_header:
  "bytes_of_header (header_of_bytes b0 b1) = [b0, b1]"
proof -
  have "take_bit 4 b0 OR push_bit 4 (take_bit 1 (drop_bit 4 b0)) OR push_bit 5 (take_bit 1 (drop_bit 5 b0))
        OR push_bit 6 (take_bit 1 (drop_bit 6 b0)) OR push_bit 7 (take_bit 1 (drop_bit 7 b0)) = b0"
    by (rule byte_eqI, drule byte_bits) (elim disjE; simp add: bit_simps del: take_bit_Suc_0)
  moreover have "take_bit 7 b1 OR push_bit 7 (take_bit 1 (drop_bit 7 b1)) = b1"
    by (rule byte_eqI, drule byte_bits) (elim disjE; simp add: bit_simps del: take_bit_Suc_0)
  ultimately show ?thesis
    by (simp add: bytes_of_header_def header_of_bytes_def del: take_bit_Suc_0)
qed

text \<open>The first byte and the second byte of an encoded header as numbers.\<close>

lemma join_bit7: "take_bit 7 a OR push_bit 7 (take_bit 1 b) = take_bit 7 a + push_bit 7 (take_bit 1 (b :: byte))"
proof -
  have "take_bit 7 a AND push_bit 7 (take_bit 1 b) = 0"
    by (rule byte_eqI, drule byte_bits) (auto simp: bit_simps)
  then show ?thesis by (simp add: disjunctive_add_eq_or)
qed

lemma encode_header_bytes:
  "bytes_of_header (encode_header op finish l) =
     [of_nat (unat op mod 16 + unat finish mod 2 * 128), take_bit 7 l]"
proof -
  have "take_bit 4 op OR push_bit 7 (take_bit 1 finish) = take_bit 7 (take_bit 4 op) + push_bit 7 (take_bit 1 finish)"
    using join_bit7 [of "take_bit 4 op" finish] by (simp del: take_bit_Suc_0)
  also have "\<dots> = of_nat (unat op mod 16 + unat finish mod 2 * 128)"
    by (simp add: word_unat_eq_iff unat_word_ariths unat_take_bit_word unat_push_bit_word unat_of_nat
        del: take_bit_Suc_0)
  finally show ?thesis
    by (simp add: bytes_of_header_def encode_header_def del: take_bit_Suc_0)
qed

lemma encode_length_rfc:
  assumes "encode_length n = (l, ext)"
  shows "rfc_length (unat n) = (unat l, ext) \<and> take_bit 7 l = l"
proof -
  have "n < 126 \<Longrightarrow> unat (ucast n :: byte) = unat n"
    by (simp add: unsigned_ucast_eq take_bit_eq_mod word_less_nat_alt)
  moreover have "n < 65536 \<Longrightarrow> unat (ucast n :: u16) = unat n"
    by (simp add: unsigned_ucast_eq take_bit_eq_mod word_less_nat_alt)
  moreover have "n < 126 \<Longrightarrow> take_bit 7 (ucast n :: byte) = ucast n"
    by (simp only: word_unat_eq_iff unat_take_bit_word)
      (simp add: unsigned_ucast_eq take_bit_eq_mod word_less_nat_alt)
  ultimately show ?thesis
    using assms
    by (auto simp: encode_length_def rfc_length_def word_less_nat_alt store_htons store_hton64_be split: if_splits)
qed

section \<open>Encoding\<close>

lemma frame_header_rfc:
  assumes "encode_length (of_nat (length data)) = (l, ext)" and "length data < 2 ^ 64"
  shows "rfc_frame (odd (unat finish)) (unat op) None data =
    bytes_of_header (encode_header op finish l) @ ext @ data"
proof -
  have u: "unat (of_nat (length data) :: u64) = length data" using assms(2) by (simp add: unat_of_nat)
  have "unat finish mod 2 * 128 = (if odd (unat finish) then 128 else 0)"
    by (simp add: odd_iff_mod_2_eq_one)
  with encode_length_rfc [OF assms(1)] u show ?thesis
    by (simp add: rfc_frame_def encode_header_bytes)
qed

lemma ws_encode_chain:
  assumes "buf_wf enc" and "buf_wf data" and "encode_length (buf_length data) = (l, ext)"
  shows "ws_encode enc data op finish =
    res_fold append_string enc [bytes_of_header (encode_header op finish l) @ ext, buf_contents data]"
proof -
  let ?h = "bytes_of_header (encode_header op finish l) @ ext"
  have "buf_length data = 0 \<longleftrightarrow> buf_contents data = []"
    using length_contents [OF assms(2)] by (metis length_0_conv unat_eq_zero)
  then have nil: "buf_length data = 0 \<Longrightarrow> buf_wf b \<Longrightarrow> append_string b (buf_contents data) = Inr b" for b
    by (simp add: append_string_Nil)
  have "buf_wf b" if "append_string enc ?h = Inr b" for b
    using append_string_wf [OF assms(1) that] .
  then show ?thesis
    using nil by (auto simp: ws_encode_def assms(3) encode_header_def append_chars_all
        append_buffer_contents [OF assms(2)] res_bind_def word_greater_zero_iff split: sum.splits)
qed

lemma ws_encode_rfc:
  assumes "buf_wf enc" and "buf_wf data"
    and "length (buf_contents enc) + length (buf_contents data) + 10 < 2 ^ 64"
  shows "case ws_encode enc data op finish of
      Inr enc' \<Rightarrow> buf_wf enc' \<and> buf_cap enc' = buf_cap enc \<and>
        buf_contents enc' = buf_contents enc @ rfc_frame (odd (unat finish)) (unat op) None (buf_contents data)
    | Inl e \<Rightarrow> e = ExitError \<and> buf_cap enc < length (buf_contents enc) +
        length (rfc_frame (odd (unat finish)) (unat op) None (buf_contents data))"
proof -
  obtain l ext where le: "encode_length (buf_length data) = (l, ext)" by fastforce
  let ?h = "bytes_of_header (encode_header op finish l) @ ext"
  have n: "of_nat (length (buf_contents data)) = buf_length data" "length (buf_contents data) < 2 ^ 64"
    using unat_size_bound [of "buf_length data"] length_contents [OF assms(2)] by simp_all
  have r: "rfc_frame (odd (unat finish)) (unat op) None (buf_contents data) =
      concat [?h, buf_contents data]"
    using frame_header_rfc [OF _ n(2)] n(1) le by simp
  have "length (concat [?h, buf_contents data]) \<le> length (buf_contents data) + 10"
    using le by (auto simp: encode_length_def bytes_of_header_def split: if_splits)
  then have small: "length (buf_contents enc) + length (concat [?h, buf_contents data]) < 2 ^ 64"
    using assms(3) by linarith
  have "length (buf_contents enc) \<le> buf_cap enc"
    using assms(1) by (simp add: length_contents buf_wf_length)
  from bsink.put_all_exact [OF assms(1) this small] show ?thesis
    by (simp only: ws_encode_chain [OF assms(1,2) le] r)
qed

text \<open>
  C18: \<open>Frame::encode\<close> appends to the output buffer exactly the RFC 6455 frame of its arguments
  (final bit, opcode, unmasked payload in the shortest length form), for payloads of any length;
  when that frame does not fit, the process exits.
\<close>

theorem ws_encode_rfc6455:
  assumes "buf_wf enc" and "buf_wf data"
    and "length (buf_contents enc) + length (buf_contents data) + 10 < 2 ^ 64"
  shows "case ws_encode enc data op finish of
      Inr enc' \<Rightarrow> buf_wf enc' \<and> buf_cap enc' = buf_cap enc \<and>
        buf_contents enc' = buf_contents enc @ rfc_frame (odd (unat finish)) (unat op) None (buf_contents data)
    | Inl e \<Rightarrow> e = ExitError \<and> buf_cap enc < length (buf_contents enc) +
        length (rfc_frame (odd (unat finish)) (unat op) None (buf_contents data))"
  using assms by (rule ws_encode_rfc)

theorem ws_encode_rfc6455_witness:
  "case ws_encode (Buffer_new 0 16) (Buffer_new 1 4) 1 1 of
      Inr enc' \<Rightarrow> buf_contents enc' = [129, 0]
    | Inl e \<Rightarrow> False"
proof -
  have "buf_wf (Buffer_new 0 16)" and "buf_wf (Buffer_new 1 4)" by (simp_all add: Buffer_new_wf)
  from ws_encode_rfc6455 [OF this, of 1 1] show ?thesis
    by (simp add: rfc_frame_def rfc_length_def split: sum.splits)
qed

section \<open>Decoding\<close>

lemma length_mask_ref [simp]: "length (mask_ref data key) = length data"
  by (simp add: mask_ref_def)

lemma ntohs_be: "n < 65536 \<Longrightarrow> ntohs (load_le (be_bytes 2 n)) = of_nat n"
proof -
  assume n: "n < 65536"
  have "be_bytes 2 n = store_le 2 (htons (of_nat n))" using n by (simp add: store_htons unat_of_nat)
  then show ?thesis by (simp add: load_store)
qed

lemma ntoh64_be: "n < 2 ^ 64 \<Longrightarrow> ntoh64 (load_le (be_bytes 8 n)) = of_nat n"
proof -
  assume n: "n < 2 ^ 64"
  have "be_bytes 8 n = store_le 8 (hton64 (of_nat n))" using n by (simp add: store_hton64_be unat_of_nat)
  then show ?thesis by (simp add: load_store hton64_bswap ntoh64_bswap bswap_bswap)
qed

lemma payload_len_field_rfc:
  assumes "rfc_length n = (l, ext)" and "n < 2 ^ 64"
  shows "payload_len_field (b0 # b1 # ext @ rest) (of_nat l) = Inr (of_nat n, 2 + length ext)"
proof -
  have b: "(of_nat n :: byte) \<noteq> 126 \<and> (of_nat n :: byte) \<noteq> 127" if "n < 126"
    using that by (auto simp: word_unat_eq_iff unat_of_nat)
  have u: "ucast (of_nat n :: byte) = (of_nat n :: u64)" if "n < 126"
    using that by (simp add: word_unat_eq_iff unsigned_ucast_eq take_bit_eq_mod unat_of_nat)
  have v: "ucast (of_nat n :: u16) = (of_nat n :: u64)" if "n < 65536"
    using that by (simp add: word_unat_eq_iff unsigned_ucast_eq take_bit_eq_mod unat_of_nat)
  show ?thesis
    using assms b u v ntohs_be [of n] ntoh64_be [of n]
    by (auto simp: rfc_length_def payload_len_field_def HEADER_LEN_def mem_read_def split: if_splits)
qed

lemma rfc_length_lt: "fst (rfc_length n) < 128"
  by (simp add: rfc_length_def)

lemma len_byte:
  assumes "l < 128"
  shows "(of_nat (l + (if m then 128 else 0)) :: byte) AND 0x7f = of_nat l"
    and "drop_bit 7 (of_nat (l + (if m then 128 else 0)) :: byte) = (if m then 1 else 0)"
    and "take_bit 7 (of_nat (l + (if m then 128 else 0)) :: byte) = of_nat l"
proof -
  let ?b = "of_nat (l + (if m then 128 else 0)) :: byte"
  have u: "unat ?b = l + (if m then 128 else 0)" using assms by (simp only: unat_of_nat_byte) simp
  show t: "take_bit 7 ?b = of_nat l"
    using assms by (simp only: word_unat_eq_iff unat_take_bit_word u) (simp add: unat_of_nat)
  show "drop_bit 7 ?b = (if m then 1 else 0)"
    using assms by (simp only: word_unat_eq_iff unat_drop_bit_word u) (simp add: div_add_self2)
  have "?b AND 0x7f = take_bit 7 ?b" by (simp add: take_bit_eq_mask mask_eq_exp_minus_1)
  with t show "?b AND 0x7f = of_nat l" by simp
qed

lemma first_byte:
  assumes "k < 16"
  shows "take_bit 4 (of_nat (k + (if f then 128 else 0)) :: byte) = of_nat k"
    and "take_bit 1 (drop_bit 4 (of_nat (k + (if f then 128 else 0)) :: byte)) = 0"
    and "take_bit 1 (drop_bit 5 (of_nat (k + (if f then 128 else 0)) :: byte)) = 0"
    and "take_bit 1 (drop_bit 6 (of_nat (k + (if f then 128 else 0)) :: byte)) = 0"
proof -
  let ?b = "of_nat (k + (if f then 128 else 0)) :: byte"
  have u: "unat ?b = k + (if f then 128 else 0)" using assms by (simp only: unat_of_nat_byte) simp
  have "(k + 128) mod 16 = k"
    using assms mod_mult_self2 [of k 16 8] by simp
  moreover have "(k + 128) div 16 = 8" "(k + 128) div 32 = 4" "(k + 128) div 64 = 2"
    using assms by (auto intro!: div_nat_eqI)
  ultimately show "take_bit 4 ?b = of_nat k" "take_bit 1 (drop_bit 4 ?b) = 0"
    "take_bit 1 (drop_bit 5 ?b) = 0" "take_bit 1 (drop_bit 6 ?b) = 0"
    using assms
    by (simp_all only: word_unat_eq_iff unat_take_bit_word unat_drop_bit_word u)
      (simp_all add: unat_of_nat)
qed

lemma header_of_rfc:
  "header_of_bytes (of_nat (op mod 16 + (if final then 128 else 0)))
     (of_nat (fst (rfc_length n) + (if masked then 128 else 0))) = rfc_header final op masked n"
proof -
  have k: "op mod 16 < 16" and k': "op mod 16 < 128"
    by (simp, rule less_trans [of _ 16]) simp_all
  show ?thesis
    unfolding header_of_bytes_def rfc_header_def first_byte [OF k] len_byte [OF k']
      len_byte [OF rfc_length_lt] ..
qed

text \<open>The bytes of a frame behind its first two.\<close>

definition rfc_rest :: "bytes option \<Rightarrow> bytes \<Rightarrow> bytes" where
  "rfc_rest key data =
     snd (rfc_length (length data)) @ (case key of None \<Rightarrow> data | Some k \<Rightarrow> k @ mask_ref data k)"

definition rfc_offset :: "bytes option \<Rightarrow> bytes \<Rightarrow> nat" where
  "rfc_offset key data =
     2 + length (snd (rfc_length (length data))) + (case key of None \<Rightarrow> 0 | Some k \<Rightarrow> 4)"

lemma rfc_frame_bytes:
  "rfc_frame final op key data =
     of_nat (op mod 16 + (if final then 128 else 0)) #
     of_nat (fst (rfc_length (length data)) + (if key \<noteq> None then 128 else 0)) # rfc_rest key data"
  by (simp add: rfc_frame_def rfc_rest_def split: prod.splits option.splits)

definition frame_result :: "bool \<Rightarrow> nat \<Rightarrow> bytes option \<Rightarrow> bytes \<Rightarrow> ws_frame \<Rightarrow> ws_frame" where
  "frame_result final op key data f =
     f\<lparr>ws_header := rfc_header final op (key \<noteq> None) (length data),
       mask_key := (case key of None \<Rightarrow> mask_key f | Some k \<Rightarrow> k),
       header_length := of_nat (rfc_offset key data),
       payload_length := of_nat (length data), ws_payload := rfc_offset key data\<rparr>"

text \<open>The two branches of \<open>fetch_payload\<close>, once the length field is read.\<close>

lemma fetch_payload_plain:
  assumes "mem_read m 1 1 = Inr [b1]" and "payload_len_field m (b1 AND 0x7f) = Inr (plen, hlen)"
    and "mask_bit (ws_header f) = 0"
  shows "fetch_payload m f =
     Inr (f\<lparr>ws_header := (ws_header f)\<lparr>len7 := b1 AND 0x7f\<rparr>, header_length := of_nat hlen,
            payload_length := plen, ws_payload := hlen\<rparr>, m)"
  using assms by (simp add: fetch_payload_def)

lemma fetch_payload_masked:
  assumes "mem_read m 1 1 = Inr [b1]" and "payload_len_field m (b1 AND 0x7f) = Inr (plen, hlen)"
    and "mask_bit (ws_header f) \<noteq> 0" and "mem_read m hlen 4 = Inr key"
    and "mem_read m (hlen + 4) (unat plen) = Inr data" and "mem_write m (hlen + 4) (ws_mask data key) = Inr m'"
    and "plen = 0 \<Longrightarrow> m' = m"
  shows "fetch_payload m f =
     Inr (f\<lparr>ws_header := (ws_header f)\<lparr>len7 := b1 AND 0x7f\<rparr>, mask_key := key,
            header_length := of_nat (hlen + 4), payload_length := plen, ws_payload := hlen + 4\<rparr>, m')"
  using assms by (simp add: fetch_payload_def MASK_LEN_def Let_def word_greater_zero_iff)

lemma rfc_header_len7:
  "rfc_length n = (l, ext) \<Longrightarrow> (rfc_header final op m n)\<lparr>len7 := of_nat l\<rparr> = rfc_header final op m n"
  by (simp add: rfc_header_def)

lemma fetch_payload_rfc:
  assumes n: "length data < 2 ^ 64" and key: "\<And>k. key = Some k \<Longrightarrow> length k = 4"
    and h: "ws_header f = rfc_header final op (key \<noteq> None) (length data)"
    and m: "m = rfc_frame final op key data @ rest"
  shows "\<exists>pre. fetch_payload m f = Inr (frame_result final op key data f, pre @ data @ rest) \<and>
    length pre = rfc_offset key data"
proof -
  obtain l ext where le: "rfc_length (length data) = (l, ext)" by fastforce
  obtain b0 b1 where m1: "m = b0 # b1 # ext @ drop (length ext) (rfc_rest key data) @ rest"
    and b1: "b1 = of_nat (l + (if key \<noteq> None then 128 else 0))"
    unfolding m rfc_frame_bytes rfc_rest_def by (simp add: le)
  have l: "b1 AND 0x7f = of_nat l"
    unfolding b1 using rfc_length_lt [of "length data"] le by (intro len_byte) simp
  have plf: "payload_len_field m (b1 AND 0x7f) = Inr (of_nat (length data), 2 + length ext)"
    unfolding m1 l using payload_len_field_rfc [OF le n] by simp
  have read1: "mem_read m 1 1 = Inr [b1]" unfolding m1 by (simp add: mem_read_def)
  show ?thesis
  proof (cases key)
    case None
    then have "mask_bit (ws_header f) = 0" using h by (simp add: rfc_header_def)
    from fetch_payload_plain [OF read1 plf this]
    have "fetch_payload m f = Inr (frame_result final op key data f, m)"
      using None by (simp add: h l rfc_header_len7 [OF le] frame_result_def rfc_offset_def le)
    moreover have "m = (b0 # b1 # ext) @ data @ rest"
      using None by (simp add: m1 rfc_rest_def le)
    ultimately show ?thesis
      using None by (intro exI [of _ "b0 # b1 # ext"]) (simp add: rfc_offset_def le)
  next
    case (Some k)
    with key have k: "length k = 4" by simp
    have u: "unat (of_nat (length data) :: u64) = length data" using n by (simp add: unat_of_nat)
    have m2: "m = (b0 # b1 # ext @ k) @ mask_ref data k @ rest"
      using Some by (simp add: m1 rfc_rest_def le)
    have w: "ws_mask (mask_ref data k) k = data" using k by (simp add: ws_mask_ref mask_ref_involution)
    let ?m' = "(b0 # b1 # ext @ k) @ data @ rest"
    have "mask_bit (ws_header f) \<noteq> 0" using h Some by (simp add: rfc_header_def)
    moreover have "mem_read m (2 + length ext) 4 = Inr k"
      using mem_read_middle [of "b0 # b1 # ext" _ k 4 "mask_ref data k @ rest"] k by (simp add: m2)
    moreover have "mem_read m (2 + length ext + 4) (unat (of_nat (length data) :: u64)) = Inr (mask_ref data k)"
      unfolding m2 u by (rule mem_read_middle) (simp_all add: k)
    moreover have "mem_write m (2 + length ext + 4) (ws_mask (mask_ref data k) k) = Inr ?m'"
      unfolding m2 w by (rule mem_write_middle) (simp_all add: k)
    moreover have "(of_nat (length data) :: u64) = 0 \<Longrightarrow> ?m' = m"
      using u by (simp add: m2 mask_ref_def)
    ultimately have "fetch_payload m f =
     Inr (f\<lparr>ws_header := (ws_header f)\<lparr>len7 := b1 AND 0x7f\<rparr>, mask_key := k,
            header_length := of_nat (2 + length ext + 4), payload_length := of_nat (length data),
            ws_payload := 2 + length ext + 4\<rparr>, ?m')"
      by (rule fetch_payload_masked [OF read1 plf])
    then show ?thesis
      using Some k by (intro exI [of _ "b0 # b1 # ext @ k"])
        (simp add: h l rfc_header_len7 [OF le] frame_result_def rfc_offset_def le)
  qed
qed

lemma ws_decode_rfc:
  assumes "length data < 2 ^ 64" and "case key of None \<Rightarrow> True | Some k \<Rightarrow> length k = 4"
    and "buf_data buf = rfc_frame final op key data @ rest"
  shows "\<exists>f' buf'. ws_decode buf f = Inr (f', buf') \<and>
    ws_header f' = rfc_header final op (key \<noteq> None) (length data) \<and>
    payload_length f' = of_nat (length data) \<and> header_length f' = of_nat (ws_payload f') \<and>
    mem_read (buf_data buf') (ws_payload f') (length data) = Inr data"
proof -
  have key: "\<And>k. key = Some k \<Longrightarrow> length k = 4" using assms(2) by simp
  let ?f = "f\<lparr>ws_header := rfc_header final op (key \<noteq> None) (length data)\<rparr>"
  have "fetch_header (buf_data buf) f = Inr ?f"
    unfolding assms(3) by (simp add: fetch_header_def HEADER_LEN_def mem_read_def rfc_frame_bytes
        header_of_rfc [of op final "length data" "key \<noteq> None", simplified])
  moreover obtain pre where
      "fetch_payload (buf_data buf) ?f = Inr (frame_result final op key data ?f, pre @ data @ rest)"
      "length pre = rfc_offset key data"
    using fetch_payload_rfc [OF assms(1) key _ assms(3), of ?f] by auto
  ultimately show ?thesis
    by (simp add: ws_decode_def frame_result_def mem_read_middle)
qed

text \<open>
  C17: decoding a buffer that starts with an RFC 6455 frame (any opcode, final or not, masked with
  any key or unmasked, any payload length) yields its opcode, final bit and payload length, and
  leaves at the payload pointer the payload as it was before masking.
\<close>

theorem ws_decode_rfc6455:
  assumes "length data < 2 ^ 64" and "case key of None \<Rightarrow> True | Some k \<Rightarrow> length k = 4"
    and "buf_data buf = rfc_frame final op key data @ rest"
  shows "\<exists>f' buf'. ws_decode buf f = Inr (f', buf') \<and>
    ws_header f' = rfc_header final op (key \<noteq> None) (length data) \<and>
    payload_length f' = of_nat (length data) \<and> header_length f' = of_nat (ws_payload f') \<and>
    mem_read (buf_data buf') (ws_payload f') (length data) = Inr data"
  using assms by (rule ws_decode_rfc)

theorem ws_decode_rfc6455_witness:
  "\<exists>f' buf'. ws_decode ((Buffer_new 0 16)\<lparr>buf_data := rfc_frame True 1 (Some [1, 2, 3, 4]) [7, 8] @ [0]\<rparr>)
      \<lparr>ws_header = header_of_bytes 0 0, mask_key = [0, 0, 0, 0], header_length = 0, payload_length = 0,
       ws_payload = 0\<rparr> = Inr (f', buf') \<and>
    mem_read (buf_data buf') (ws_payload f') 2 = Inr [7, 8]"
proof -
  have n: "length [7, 8 :: byte] < 2 ^ 64" by simp
  have k: "case Some [1, 2, 3, 4 :: byte] of None \<Rightarrow> True | Some k \<Rightarrow> length k = 4" by simp
  show ?thesis
    using ws_decode_rfc6455 [OF n k, of "(Buffer_new 0 16)\<lparr>buf_data :=
        rfc_frame True 1 (Some [1, 2, 3, 4]) [7, 8] @ [0]\<rparr>" True 1 "[0]"
      "\<lparr>ws_header = header_of_bytes 0 0, mask_key = [0, 0, 0, 0], header_length = 0,
        payload_length = 0, ws_payload = 0\<rparr>"]
    by (auto simp: numeral_2_eq_2)
qed

text \<open>
  C20: the length a client claims is not checked against what was received: whenever the length
  field of a masked frame says more bytes than the block holds behind the header,
  \<open>fetch_payload\<close> reads and unmasks beyond its end. The witness is a length field of 2000 in
  the server's read buffer of \<open>READ_BUF_MAX_SIZE\<close> (1024) bytes.
\<close>

theorem ws_decode_overrun:
  assumes "2 \<le> length (buf_data buf)" and "drop_bit 7 (buf_data buf ! 1) \<noteq> 0"
    and "payload_len_field (buf_data buf) (buf_data buf ! 1 AND 0x7f) = Inr (plen, hlen)"
    and "0 < plen" and "length (buf_data buf) < hlen + MASK_LEN + unat plen"
  shows "ws_decode buf f = Inl OutOfBounds"
proof -
  obtain b0 b1 rest where m: "buf_data buf = b0 # b1 # rest"
    using assms(1) by (cases "buf_data buf"; cases "tl (buf_data buf)") auto
  then show ?thesis
    using assms(2-)
    by (simp add: ws_decode_def fetch_header_def fetch_payload_def HEADER_LEN_def mem_read_def
        header_of_bytes_def Let_def)
qed

theorem ws_decode_overrun_witness:
  "ws_decode ((Buffer_new 0 1024)\<lparr>buf_data := [130, 254, 7, 208, 1, 2, 3, 4] @ replicate 1017 0\<rparr>)
      \<lparr>ws_header = header_of_bytes 0 0, mask_key = [0, 0, 0, 0], header_length = 0,
        payload_length = 0, ws_payload = 0\<rparr> = Inl OutOfBounds"
proof (rule ws_decode_overrun)
  let ?b = "(Buffer_new 0 1024)\<lparr>buf_data := [130, 254, 7, 208, 1, 2, 3, 4] @ replicate 1017 0\<rparr>"
  have "be_bytes 2 2000 = [7, 208]" by (simp only: be_bytes_def numeral_2_eq_2) simp
  then have "ntohs (load_le [7, 208]) = 2000" using ntohs_be [of 2000] by simp
  then show "payload_len_field (buf_data ?b) (buf_data ?b ! 1 AND 0x7f) = Inr (2000, 4)"
    by (simp add: payload_len_field_def HEADER_LEN_def mem_read_def)
qed (simp_all add: MASK_LEN_def)

end
