(* ===== verification/Http.thy ===== *)
theory Http
  imports Co_Socket Base64 Websocket_Frame
begin

text \<open>
  \<open>src/coroutine/http/http.cc\<close> and \<open>include/coroutine_http.h\<close>: requests as the callbacks of
  the parser fill them in, responses as they are written into the write buffer of the
  connection, and the WebSocket handshake. The parser (\<open>thirdparty/http_parser\<close>) and
  \<open>SHA1\<close> are parameters.
\<close>

section \<open>Requests, responses and contexts\<close>

text \<open>
  A member without an initial value is an \<open>option\<close>. \<open>path\<close> and \<open>body\<close> are the allocated
  arrays with their terminating zero byte, \<open>None\<close> for \<open>nullptr\<close>.
\<close>

record request =
  req_method :: cstring
  version :: "int option"
  path :: "bytes option"
  path_len :: "u32 option"
  body :: "bytes option"
  body_length :: "u64 option"
  req_header :: "cstring str_map"

record response =
  resp_version :: "int option"
  status :: int
  reason :: cstring
  resp_header :: "cstring str_map"

text \<open>
  The context of a connection, with the world outside (\<open>env\<close>). \<open>current_header_name\<close> points
  into the block of the read buffer: it is kept as the offset.
\<close>

record ('e, 'p) ctx =
  env :: 'e
  conn :: co_socket
  parser :: 'p
  request :: request
  response :: response
  current_header_name :: "nat option"
  current_header_name_len :: nat
  keep_alive :: "bool option"

definition Request_new :: request where
  "Request_new = \<lparr>req_method = [], version = None, path = None, path_len = None, body = None,
     body_length = None, req_header = []\<rparr>"

definition Response_new :: response where
  "Response_new = \<lparr>resp_version = None, status = 200, reason = [], resp_header = []\<rparr>"

definition Ctx_new :: "'e \<Rightarrow> co_socket \<Rightarrow> 'p \<Rightarrow> ('e, 'p) ctx" where
  "Ctx_new e c p = \<lparr>env = e, conn = c, parser = p, request = Request_new, response = Response_new,
     current_header_name = None, current_header_name_len = 0, keep_alive = None\<rparr>"

definition has_header :: "request \<Rightarrow> cstring \<Rightarrow> bool" where
  "has_header r name \<longleftrightarrow> map_find name (req_header r) \<noteq> None"

definition get_header :: "request \<Rightarrow> cstring \<Rightarrow> cstring" where
  "get_header r name = (case map_find name (req_header r) of None \<Rightarrow> [] | Some v \<Rightarrow> v)"

definition header_contain_value :: "request \<Rightarrow> cstring \<Rightarrow> cstring \<Rightarrow> bool" where
  "header_contain_value r name value =
     (case map_find name (req_header r) of
        None \<Rightarrow> False
      | Some v \<Rightarrow> if lowercase v \<noteq> value then False else True)"

definition has_sec_websocket_key :: "request \<Rightarrow> bool" where
  "has_sec_websocket_key r = has_header r (str ''sec-websocket-key'')"

definition clear_path :: "request \<Rightarrow> request" where
  "clear_path r = r\<lparr>path := None, path_len := Some 0\<rparr>"

definition clear_req_header :: "request \<Rightarrow> request" where
  "clear_req_header r = r\<lparr>req_header := []\<rparr>"

definition clear_body :: "request \<Rightarrow> request" where
  "clear_body r = r\<lparr>body := None, body_length := Some 0\<rparr>"

definition Request_clear :: "request \<Rightarrow> request" where
  "Request_clear r = clear_body (clear_req_header (clear_path r))"

definition clear_header :: "response \<Rightarrow> response" where
  "clear_header r = r\<lparr>resp_header := []\<rparr>"

definition Ctx_clear :: "('e, 'p) ctx \<Rightarrow> ('e, 'p) ctx" where
  "Ctx_clear c = c\<lparr>request := Request_clear (request c), response := clear_header (response c)\<rparr>"

definition set_version :: "int \<Rightarrow> response \<Rightarrow> response" where
  "set_version v r = r\<lparr>resp_version := Some v\<rparr>"

text \<open>The text for another version is formatted into the 512-byte array \<open>fsw_error\<close>.\<close>

definition get_real_version :: "response \<Rightarrow> cstring res" where
  "get_real_version r =
     (case resp_version r of
        None \<Rightarrow> Inl Uninitialised
      | Some v \<Rightarrow> Inr (if v = 100 then str ''1.0'' else if v = 101 then str ''1.1''
          else if v = 200 then str ''2.0'' else take 511 (str ''Unknown version: '' @ to_string v)))"

section \<open>The callbacks of the parser\<close>

text \<open>
  What \<open>http_parser_execute\<close> reports of a block: the callbacks in order, the positions in the
  block as offset and length. \<open>OnHeadersComplete\<close> carries the fields that the parser has then:
  the version, the method and what \<open>http_should_keep_alive\<close> answers.
\<close>

datatype parser_event =
    OnMessageBegin
  | OnUrl nat nat
  | OnStatus nat nat
  | OnHeaderField nat nat
  | OnHeaderValue nat nat
  | OnHeadersComplete int int nat bool
  | OnBody nat nat
  | OnMessageComplete

record 'p http_parser =
  http_parser_init :: 'p
  http_parser_execute :: "'p \<Rightarrow> bytes \<Rightarrow> 'p \<times> parser_event list"

definition HTTP_GET :: nat where "HTTP_GET = 1"
definition HTTP_POST :: nat where "HTTP_POST = 3"

definition set_http_version :: "int \<Rightarrow> int \<Rightarrow> request \<Rightarrow> request" where
  "set_http_version major minor r = r\<lparr>version := Some (major * 100 + minor)\<rparr>"

definition set_http_method :: "nat \<Rightarrow> request \<Rightarrow> request" where
  "set_http_method m r =
     (if m = HTTP_GET then r\<lparr>req_method := str ''GET''\<rparr>
      else if m = HTTP_POST then r\<lparr>req_method := str ''POST''\<rparr> else r)"

definition on_url :: "bytes \<Rightarrow> nat \<Rightarrow> nat \<Rightarrow> ('e, 'p) ctx \<Rightarrow> ('e, 'p) ctx res" where
  "on_url block ofs len c =
     res_bind (mem_read block ofs len) (\<lambda>bs.
     Inr (c\<lparr>request := (request c)\<lparr>path := Some (bs @ [0]), path_len := Some (of_nat len)\<rparr>\<rparr>))"

definition on_header_field :: "nat \<Rightarrow> nat \<Rightarrow> ('e, 'p) ctx \<Rightarrow> ('e, 'p) ctx" where
  "on_header_field ofs len c = c\<lparr>current_header_name := Some ofs, current_header_name_len := len\<rparr>"

definition on_header_value :: "bytes \<Rightarrow> nat \<Rightarrow> nat \<Rightarrow> ('e, 'p) ctx \<Rightarrow> ('e, 'p) ctx res" where
  "on_header_value block ofs len c =
     (case current_header_name c of
        None \<Rightarrow> Inl Uninitialised
      | Some p \<Rightarrow>
          res_bind (mem_read block p (current_header_name_len c)) (\<lambda>name.
          res_bind (mem_read block ofs len) (\<lambda>value.
          Inr (c\<lparr>request := (request c)\<lparr>req_header :=
            map_put (lowercase name) value (req_header (request c))\<rparr>\<rparr>))))"

definition on_headers_complete :: "int \<Rightarrow> int \<Rightarrow> nat \<Rightarrow> bool \<Rightarrow> ('e, 'p) ctx \<Rightarrow> ('e, 'p) ctx" where
  "on_headers_complete major minor m ka c =
     c\<lparr>request := set_http_method m (set_http_version major minor (request c)), keep_alive := Some ka\<rparr>"

definition on_body :: "bytes \<Rightarrow> nat \<Rightarrow> nat \<Rightarrow> ('e, 'p) ctx \<Rightarrow> ('e, 'p) ctx res" where
  "on_body block ofs len c =
     res_bind (mem_read block ofs len) (\<lambda>bs.
     Inr (c\<lparr>request := (request c)\<lparr>body := Some (bs @ [0]), body_length := Some (of_nat len)\<rparr>\<rparr>))"

fun parser_settings :: "bytes \<Rightarrow> ('e, 'p) ctx \<Rightarrow> parser_event \<Rightarrow> ('e, 'p) ctx res" where
  "parser_settings block c OnMessageBegin = Inr c"
| "parser_settings block c (OnUrl ofs len) = on_url block ofs len c"
| "parser_settings block c (OnStatus ofs len) = Inr c"
| "parser_settings block c (OnHeaderField ofs len) = Inr (on_header_field ofs len c)"
| "parser_settings block c (OnHeaderValue ofs len) = on_header_value block ofs len c"
| "parser_settings block c (OnHeadersComplete major minor m ka) = Inr (on_headers_complete major minor m ka c)"
| "parser_settings block c (OnBody ofs len) = on_body block ofs len c"
| "parser_settings block c OnMessageComplete = Inr c"

text \<open>The length is a \<open>ssize_t\<close> that is passed as a \<open>size_t\<close>: a negative one is larger than any block.\<close>

definition Ctx_parse :: "'p http_parser \<Rightarrow> int \<Rightarrow> ('e, 'p) ctx \<Rightarrow> ('e, 'p) ctx res" where
  "Ctx_parse hp recved c =
     (case get_read_buf (conn c) of (b, s) \<Rightarrow>
        let c = c\<lparr>conn := s\<rparr> in
        res_bind (if 0 \<le> recved then mem_read (buf_data b) 0 (nat recved) else Inl OutOfBounds) (\<lambda>data.
          case http_parser_execute hp (parser c) data of
            (p, evs) \<Rightarrow> res_fold (parser_settings (buf_data b)) (c\<lparr>parser := p\<rparr>) evs))"

section \<open>Building a response\<close>

definition crlf :: cstring where "crlf = [13, 10]"

definition status_table :: "(int \<times> cstring) list" where
  "status_table =
    [(100, str ''100 Continue''),
     (101, str ''101 Switching Protocols''),
     (201, str ''201 Created''),
     (202, str ''202 Accepted''),
     (203, str ''203 Non-Authoritative Information''),
     (204, str ''204 No Content''),
     (205, str ''205 Reset Content''),
     (206, str ''206 Partial Content''),
     (207, str ''207 Multi-Status''),
     (208, str ''208 Already Reported''),
     (226, str ''226 IM Used''),
     (300, str ''300 Multiple Choices''),
     (301, str ''301 Moved Permanently''),
     (302, str ''302 Found''),
     (303, str ''303 See Other''),
     (304, str ''304 Not Modified''),
     (305, str ''305 Use Proxy''),
     (307, str ''307 Temporary Redirect''),
     (400, str ''400 Bad Request''),
     (401, str ''401 Unauthorized''),
     (402, str ''402 Payment Required''),
     (403, str ''403 Forbidden''),
     (404, str ''404 Not Found''),
     (405, str ''405 Method Not Allowed''),
     (406, str ''406 Not Acceptable''),
     (407, str ''407 Proxy Authentication Required''),
     (408, str ''408 Request Timeout''),
     (409, str ''409 Conflict''),
     (410, str ''410 Gone''),
     (411, str ''411 Length Required''),
     (412, str ''412 Precondition Failed''),
     (413, str ''413 Request Entity Too Large''),
     (414, str ''414 Request URI Too Long''),
     (415, str ''415 Unsupported Media Type''),
     (416, str ''416 Requested Range Not Satisfiable''),
     (417, str ''417 Expectation Failed''),
     (418, str ''418 I'' @ [39] @ str ''m a teapot''),
     (421, str ''421 Misdirected Request''),
     (422, str ''422 Unprocessable Entity''),
     (423, str ''423 Locked''),
     (424, str ''424 Failed Dependency''),
     (426, str ''426 Upgrade Required''),
     (428, str ''428 Precondition Required''),
     (429, str ''429 Too Many Requests''),
     (431, str ''431 Request Header Fields Too Large''),
     (500, str ''500 Internal Server Error''),
     (501, str ''501 Method Not Implemented''),
     (502, str ''502 Bad Gateway''),
     (503, str ''503 Service Unavailable''),
     (504, str ''504 Gateway Timeout''),
     (505, str ''505 HTTP Version Not Supported''),
     (506, str ''506 Variant Also Negotiates''),
     (507, str ''507 Insufficient Storage''),
     (508, str ''508 Loop Detected''),
     (510, str ''510 Not Extended''),
     (511, str ''511 Network Authentication Required'')]"

definition get_status_message :: "int \<Rightarrow> cstring" where
  "get_status_message st =
     (case map_of status_table st of Some m \<Rightarrow> m | None \<Rightarrow> str ''200 OK'')"

definition build_http_status_line :: "int \<Rightarrow> buffer \<Rightarrow> buffer res" where
  "build_http_status_line st b =
     res_fold append_string b [str ''HTTP/1.1 '', get_status_message st, crlf]"

definition append_header :: "buffer \<Rightarrow> cstring \<times> cstring \<Rightarrow> buffer res" where
  "append_header b h = res_fold append_string b [fst h, str '': '', snd h, crlf]"

definition build_http_header :: "bool \<Rightarrow> cstring str_map \<Rightarrow> u32 \<Rightarrow> buffer \<Rightarrow> buffer res" where
  "build_http_header ka hs len b =
     res_bind (res_fold append_header b hs) (\<lambda>b.
     res_bind (if ka
       then res_bind (append_string b (str ''Connection: Keep-Alive'' @ crlf)) (\<lambda>b.
         res_bind (append_string b (str ''Content-Length: '')) (\<lambda>b.
         res_bind (append_int b len) (\<lambda>b. append_string b crlf)))
       else res_bind (append_string b (str ''Connection: Close'' @ crlf)) (\<lambda>b.
         res_bind (append_string b (str ''Content-Length: '')) (\<lambda>b.
         res_bind (append_int b len) (\<lambda>b. append_string b crlf)))) (\<lambda>b.
     append_string b crlf))"

definition build_http_body :: "buffer option \<Rightarrow> buffer \<Rightarrow> buffer res" where
  "build_http_body bd b =
     (case bd of
        None \<Rightarrow> Inr b
      | Some t \<Rightarrow> res_bind (append_buffer b t) (\<lambda>b. append_string b crlf))"

section \<open>Sending\<close>

definition in_env :: "('e, 'a) call \<Rightarrow> (('e, 'p) ctx, 'a) call" where
  "in_env = call_on env (\<lambda>e c. c\<lparr>env := e\<rparr>)"

definition put_write_buf :: "buffer \<Rightarrow> ('e, 'p) ctx \<Rightarrow> ('e, 'p) ctx" where
  "put_write_buf b c = c\<lparr>conn := (conn c)\<lparr>write_buf := Some b\<rparr>\<rparr>"

definition with_write_buf :: "(buffer \<Rightarrow> buffer res) \<Rightarrow> (('e, 'p) ctx, unit) call" where
  "with_write_buf f c =
     (case get_write_buf (conn c) of (b, s) \<Rightarrow>
        call_bind (call_res (f b)) (\<lambda>b'. call_modify (put_write_buf b')) (c\<lparr>conn := s\<rparr>))"

definition clear_write_buf :: "(('e, 'p) ctx, unit) call" where
  "clear_write_buf = with_write_buf Buffer_clear"

definition send_response :: "nat \<Rightarrow> 'e sys \<Rightarrow> (('e, 'p) ctx, int) call" where
  "send_response n sys c =
     (case get_write_buf (conn c) of (b, s) \<Rightarrow>
        call_bind (call_res (mem_read (buf_data b) 0 (unat (buf_length b))))
          (\<lambda>bs. in_env (co_send n sys s bs)) (c\<lparr>conn := s\<rparr>))"

definition body_size :: "buffer option \<Rightarrow> u64 \<Rightarrow> u64" where
  "body_size bd sz = (case bd of Some t \<Rightarrow> buf_length t | None \<Rightarrow> sz)"

definition Response_end :: "nat \<Rightarrow> 'e sys \<Rightarrow> buffer option \<Rightarrow> u64 \<Rightarrow> (('e, 'p) ctx, unit) call" where
  "Response_end n sys bd sz =
     call_then clear_write_buf
     (call_bind (call_get (\<lambda>c. status (response c))) (\<lambda>st.
      call_then (with_write_buf (build_http_status_line st))
     (call_bind (call_get (\<lambda>c. (keep_alive c, resp_header (response c)))) (\<lambda>(ka, hs).
      case ka of
        None \<Rightarrow> call_fault Uninitialised
      | Some ka \<Rightarrow>
          call_then (with_write_buf (build_http_header ka hs (ucast (body_size bd sz))))
         (call_then (with_write_buf (build_http_body bd))
         (call_then (send_response n sys) (call_return ())))))))"

definition set_status :: "int \<Rightarrow> ('e, 'p) ctx \<Rightarrow> ('e, 'p) ctx" where
  "set_status st c = c\<lparr>response := (response c)\<lparr>status := st\<rparr>\<rparr>"

definition set_resp_header :: "cstring \<Rightarrow> cstring \<Rightarrow> ('e, 'p) ctx \<Rightarrow> ('e, 'p) ctx" where
  "set_resp_header k v c =
     c\<lparr>response := (response c)\<lparr>resp_header := map_put k v (resp_header (response c))\<rparr>\<rparr>"

definition send_not_found_response :: "nat \<Rightarrow> 'e sys \<Rightarrow> (('e, 'p) ctx, unit) call" where
  "send_not_found_response n sys =
     call_then (call_modify (set_status 404)) (Response_end n sys None 0)"

definition send_bad_request_response :: "nat \<Rightarrow> 'e sys \<Rightarrow> cstring \<Rightarrow> (('e, 'p) ctx, unit) call" where
  "send_bad_request_response n sys text =
     call_bind (call_res (append_string (Buffer_new 0 (of_nat (length text))) text)) (\<lambda>b.
     call_then (call_modify (set_status 400)) (Response_end n sys (Some b) 0))"

section \<open>WebSocket\<close>

definition WEBSOCKET_GUID :: cstring where
  "WEBSOCKET_GUID = str ''258EAFA5-E914-47DA-95CA-C5AB0DC85B11''"

definition compute_accept_key :: "(bytes \<Rightarrow> bytes) \<Rightarrow> cstring \<Rightarrow> cstring" where
  "compute_accept_key sha1 key = base64_encode (sha1 (key @ WEBSOCKET_GUID))"

definition bad_handshake :: cstring where
  "bad_handshake = str ''websocket handshake error: ''"

definition check_websocket_upgrade :: "nat \<Rightarrow> 'e sys \<Rightarrow> cstring \<Rightarrow> (('e, 'p) ctx, bool) call" where
  "check_websocket_upgrade n sys key =
     call_bind (call_get request) (\<lambda>r.
     if req_method r \<noteq> str ''GET'' then
       call_then (send_bad_request_response n sys (bad_handshake @ str ''request method is not GET''))
         (call_return False)
     else if \<not> header_contain_value r (str ''connection'') (str ''upgrade'') then
       call_then (send_bad_request_response n sys
         (bad_handshake @ [39] @ str ''upgrade'' @ [39] @ str '' token not found in '' @ [39] @ str ''Connection'' @ [39] @ str '' header''))
         (call_return False)
     else if \<not> header_contain_value r (str ''upgrade'') (str ''websocket'') then
       call_then (send_bad_request_response n sys
         (bad_handshake @ [39] @ str ''websocket'' @ [39] @ str '' token not found in '' @ [39] @ str ''Upgrade'' @ [39] @ str '' header''))
         (call_return False)
     else if \<not> header_contain_value r (str ''sec-websocket-version'') (str ''13'') then
       call_then (send_bad_request_response n sys
         (bad_handshake @ str ''websocket: unsupported version: 13 not found in '' @ [39] @ str ''Sec-Websocket-Version'' @ [39] @ str '' header''))
         (call_return False)
     else if key = [] then
       call_then (send_bad_request_response n sys
         (bad_handshake @ [39] @ str ''Sec-WebSocket-Key'' @ [39] @ str '' header is missing or blank''))
         (call_return False)
     else call_return True)"

definition upgrade :: "(bytes \<Rightarrow> bytes) \<Rightarrow> nat \<Rightarrow> 'e sys \<Rightarrow> (('e, 'p) ctx, bool) call" where
  "upgrade sha1 n sys =
     call_bind (call_get (\<lambda>c. get_header (request c) (str ''sec-websocket-key''))) (\<lambda>key.
     call_bind (check_websocket_upgrade n sys key) (\<lambda>ok.
     if \<not> ok then call_return False
     else call_then (call_modify (set_status 101))
         (call_then (call_modify (set_resp_header (str ''Upgrade'') (str ''websocket'')))
         (call_then (call_modify (set_resp_header (str ''Connection'') (str ''Upgrade'')))
         (call_then (call_modify (set_resp_header (str ''Sec-WebSocket-Accept'') (compute_accept_key sha1 key)))
         (call_then (Response_end n sys None 0) (call_return True)))))))"

text \<open>
  \<open>recv_frame\<close>: the result of \<open>recv\<close> is the length that is appended, as a \<open>size_t\<close>: a failure,
  \<open>-1\<close>, becomes the largest length there is.
\<close>

definition recv_frame :: "nat \<Rightarrow> 'e sys \<Rightarrow> ws_frame \<Rightarrow> (('e, 'p) ctx, ws_frame) call" where
  "recv_frame n sys f c =
     (case get_read_buf (conn c) of (rb, s) \<Rightarrow>
        call_bind (call_res (Buffer_clear rb)) (\<lambda>rb.
        call_bind (in_env (co_recv n sys s READ_BUF_MAX_SIZE)) (\<lambda>(recved, bs).
        call_bind (call_res (write_block (Buffer_new 1 (of_nat READ_BUF_MAX_SIZE)) bs)) (\<lambda>buf.
        call_bind (call_res (append_chars rb (buf_data buf) (word_of_int recved))) (\<lambda>rb.
        call_bind (call_res (ws_decode rb f)) (\<lambda>(f, rb).
        call_then (call_modify (\<lambda>c. c\<lparr>conn := s\<lparr>read_buf := Some rb\<rparr>\<rparr>)) (call_return f)))))) c)"

definition send_frame :: "nat \<Rightarrow> 'e sys \<Rightarrow> buffer \<Rightarrow> byte \<Rightarrow> byte \<Rightarrow> (('e, 'p) ctx, unit) call" where
  "send_frame n sys data op finish =
     call_then clear_write_buf
    (call_then (with_write_buf (\<lambda>b. ws_encode b data op finish))
    (call_then (send_response n sys) (call_return ())))"

text \<open>The destructor of the context says that no more is to come, drains the connection and closes it.\<close>

definition Ctx_delete :: "nat \<Rightarrow> nat \<Rightarrow> 'e sys \<Rightarrow> (('e, 'p) ctx, unit) call" where
  "Ctx_delete m n sys =
     call_then (call_modify (\<lambda>c. c\<lparr>env := snd (co_shutdown sys (conn c) SHUT_WR (env c))\<rparr>))
    (call_bind (call_get conn) (\<lambda>s.
     call_then (in_env (check_client_close m n sys s))
    (call_modify (\<lambda>c. c\<lparr>env := co_socket_delete sys s (env c)\<rparr>))))"

section \<open>The text of a response\<close>

text \<open>The response as one text: the status line, the headers in the order of their names, the body.\<close>

definition http_head :: "int \<Rightarrow> bool \<Rightarrow> cstring str_map \<Rightarrow> int \<Rightarrow> cstring" where
  "http_head st ka hs len =
     str ''HTTP/1.1 '' @ get_status_message st @ crlf @
     concat (map (\<lambda>h. fst h @ str '': '' @ snd h @ crlf) hs) @
     str ''Connection: '' @ (if ka then str ''Keep-Alive'' else str ''Close'') @ crlf @
     str ''Content-Length: '' @ to_string len @ crlf @ crlf"

definition http_text :: "int \<Rightarrow> bool \<Rightarrow> cstring str_map \<Rightarrow> int \<Rightarrow> bytes option \<Rightarrow> cstring" where
  "http_text st ka hs len bd =
     http_head st ka hs len @ (case bd of None \<Rightarrow> [] | Some bs \<Rightarrow> bs @ crlf)"

definition header_parts :: "cstring \<times> cstring \<Rightarrow> cstring list" where
  "header_parts h = [fst h, str '': '', snd h, crlf]"

definition tail_parts :: "bool \<Rightarrow> u32 \<Rightarrow> bytes option \<Rightarrow> cstring list" where
  "tail_parts ka len bd =
     [(if ka then str ''Connection: Keep-Alive'' else str ''Connection: Close'') @ crlf, str ''Content-Length: '',
      to_string (sint len), crlf, crlf] @ (case bd of None \<Rightarrow> [] | Some bs \<Rightarrow> [bs, crlf])"

definition response_build :: "int \<Rightarrow> bool \<Rightarrow> cstring str_map \<Rightarrow> u32 \<Rightarrow> buffer option \<Rightarrow> buffer \<Rightarrow> buffer res" where
  "response_build st ka hs len bd b =
     res_bind (build_http_status_line st b) (\<lambda>b.
     res_bind (build_http_header ka hs len b) (build_http_body bd))"

lemma append_headers_parts: "res_fold append_header b hs = res_fold append_string b (concat (map header_parts hs))"
proof (induction hs arbitrary: b)
  case (Cons h hs)
  have "res_fold append_header b (h # hs) =
      res_bind (res_fold append_string b (header_parts h)) (\<lambda>b'. res_fold append_header b' hs)"
    by (simp add: append_header_def header_parts_def)
  also have "\<dots> = res_fold append_string b (header_parts h @ concat (map header_parts hs))"
    by (simp add: Cons.IH res_fold_append)
  finally show ?case by simp
qed simp

lemma tail_build:
  assumes "\<And>t. bd = Some t \<Longrightarrow> buf_wf t"
  shows "res_bind (build_http_header ka hs len b) (build_http_body bd) =
    res_fold append_string b (concat (map header_parts hs) @ tail_parts ka len (map_option buf_contents bd))"
  using assms
  by (cases bd) (simp_all add: build_http_header_def build_http_body_def [abs_def] append_buffer_contents
      append_headers_parts res_fold_append res_bind_assoc tail_parts_def append_int_def)

lemma response_build_parts:
  assumes "\<And>t. bd = Some t \<Longrightarrow> buf_wf t"
  shows "response_build st ka hs len bd b = res_fold append_string b
    ([str ''HTTP/1.1 '', get_status_message st, crlf] @ concat (map header_parts hs) @
     tail_parts ka len (map_option buf_contents bd))"
  using tail_build [OF assms] unfolding response_build_def build_http_status_line_def
  by (simp add: res_bind_assoc res_fold_append)

lemma concat_parts:
  "concat ([str ''HTTP/1.1 '', get_status_message st, crlf] @ concat (map header_parts hs) @ tail_parts ka len bd) =
   http_text st ka hs (sint len) bd"
proof -
  have "concat (concat (map header_parts hs)) = concat (map (\<lambda>h. fst h @ str '': '' @ snd h @ crlf) hs)"
    by (induction hs) (simp_all add: header_parts_def)
  then show ?thesis
    by (simp add: http_text_def http_head_def tail_parts_def str_def split: option.split)
qed

lemma response_build_exact:
  assumes "buf_wf b" and "buf_contents b = []" and "\<And>t. bd = Some t \<Longrightarrow> buf_wf t"
    and "length (http_text st ka hs (sint len) (map_option buf_contents bd)) < 2 ^ 64"
  shows "case response_build st ka hs len bd b of
      Inr b' \<Rightarrow> buf_wf b' \<and> buf_cap b' = buf_cap b \<and>
        buf_contents b' = http_text st ka hs (sint len) (map_option buf_contents bd)
    | Inl e \<Rightarrow> e = ExitError \<and> buf_cap b < length (http_text st ka hs (sint len) (map_option buf_contents bd))"
proof -
  let ?ss = "[str ''HTTP/1.1 '', get_status_message st, crlf] @ concat (map header_parts hs) @
      tail_parts ka len (map_option buf_contents bd)"
  have r: "response_build st ka hs len bd b = res_fold append_string b ?ss"
    by (rule response_build_parts) (rule assms(3))
  have c: "concat ?ss = http_text st ka hs (sint len) (map_option buf_contents bd)" by (rule concat_parts)
  have "length (buf_contents b) \<le> buf_cap b" by (simp add: assms(2))
  moreover have "length (buf_contents b) + length (concat ?ss) < 2 ^ 64" unfolding c using assms(2,4) by simp
  ultimately have "case res_fold append_string b ?ss of
      Inr b' \<Rightarrow> buf_wf b' \<and> buf_cap b' = buf_cap b \<and> buf_contents b' = buf_contents b @ concat ?ss
    | Inl e \<Rightarrow> e = ExitError \<and> buf_cap b < length (buf_contents b) + length (concat ?ss)"
    by (rule bsink.put_all_exact [OF assms(1)])
  then show ?thesis unfolding r c [symmetric] assms(2) append_Nil list.size(3) add_0 .
qed

section \<open>What a response sends\<close>

text \<open>The buffers of a connection are those that its socket allocates.\<close>

definition conn_ok :: "co_socket \<Rightarrow> bool" where
  "conn_ok s \<longleftrightarrow> (\<forall>b. write_buf s = Some b \<longrightarrow> buf_wf b \<and> buf_cap b = WRITE_BUF_MAX_SIZE)"

lemma unat_1024: "unat (of_nat 1024 :: u64) = 1024"
  by simp

lemma get_write_buf_ok:
  assumes "conn_ok s"
  shows "\<exists>b. get_write_buf s = (b, s\<lparr>write_buf := Some b\<rparr>) \<and> buf_wf b \<and> buf_cap b = WRITE_BUF_MAX_SIZE"
proof (cases "write_buf s")
  case None
  have "buf_wf (Buffer_new 0 (of_nat WRITE_BUF_MAX_SIZE))"
    by (rule Buffer_new_wf) (simp add: WRITE_BUF_MAX_SIZE_def)
  then show ?thesis
    using None by (simp add: get_write_buf_def Let_def WRITE_BUF_MAX_SIZE_def)
next
  case (Some b)
  moreover from this have "s\<lparr>write_buf := Some b\<rparr> = s" by simp
  ultimately show ?thesis using assms by (simp add: get_write_buf_def conn_ok_def)
qed

lemma with_write_buf_eq:
  "get_write_buf (conn c) = (b, (conn c)\<lparr>write_buf := Some b\<rparr>) \<Longrightarrow>
   with_write_buf f c = (case f b of Inl e \<Rightarrow> Some (Inl e)
     | Inr b' \<Rightarrow> Some (Inr ((), c\<lparr>conn := (conn c)\<lparr>write_buf := Some b'\<rparr>\<rparr>)))"
  by (simp add: with_write_buf_def call_modify_def put_write_buf_def split: sum.splits)

lemma with_write_buf_Some [simp]:
  "with_write_buf f (c\<lparr>conn := s\<lparr>write_buf := Some b\<rparr>\<rparr>) = (case f b of Inl e \<Rightarrow> Some (Inl e)
     | Inr b' \<Rightarrow> Some (Inr ((), c\<lparr>conn := s\<lparr>write_buf := Some b'\<rparr>\<rparr>)))"
  by (simp add: with_write_buf_def call_modify_def put_write_buf_def get_write_buf_def split: sum.splits)

lemma clear_write_buf_ok:
  assumes "conn_ok (conn c)"
  shows "\<exists>b. clear_write_buf c = Some (Inr ((), c\<lparr>conn := (conn c)\<lparr>write_buf := Some b\<rparr>\<rparr>)) \<and>
    buf_wf b \<and> buf_cap b = WRITE_BUF_MAX_SIZE \<and> buf_contents b = []"
proof -
  obtain b where b: "get_write_buf (conn c) = (b, (conn c)\<lparr>write_buf := Some b\<rparr>)" "buf_wf b"
    "buf_cap b = WRITE_BUF_MAX_SIZE"
    using get_write_buf_ok [OF assms] by blast
  obtain b' where "Buffer_clear b = Inr b'" "buf_wf b'" "buf_contents b' = []" "buf_cap b' = buf_cap b"
    using Buffer_clear_wf [OF b(2)] by blast
  with b show ?thesis by (intro exI [of _ b']) (simp add: clear_write_buf_def with_write_buf_eq)
qed

lemma Response_end_build:
  assumes "conn_ok (conn c)" and "keep_alive c = Some ka"
  shows "\<exists>b. buf_wf b \<and> buf_cap b = WRITE_BUF_MAX_SIZE \<and> buf_contents b = [] \<and>
    Response_end n sys bd sz c =
      (case response_build (status (response c)) ka (resp_header (response c)) (ucast (body_size bd sz)) bd b of
         Inl e \<Rightarrow> Some (Inl e)
       | Inr b' \<Rightarrow> call_then (send_response n sys) (call_return ()) (c\<lparr>conn := (conn c)\<lparr>write_buf := Some b'\<rparr>\<rparr>))"
proof -
  obtain b where b: "clear_write_buf c = Some (Inr ((), c\<lparr>conn := (conn c)\<lparr>write_buf := Some b\<rparr>\<rparr>))"
    "buf_wf b" "buf_cap b = WRITE_BUF_MAX_SIZE" "buf_contents b = []"
    using clear_write_buf_ok [OF assms(1)] by blast
  have "Response_end n sys bd sz c =
      (case response_build (status (response c)) ka (resp_header (response c)) (ucast (body_size bd sz)) bd b of
         Inl e \<Rightarrow> Some (Inl e)
       | Inr b' \<Rightarrow> call_then (send_response n sys) (call_return ()) (c\<lparr>conn := (conn c)\<lparr>write_buf := Some b'\<rparr>\<rparr>))"
    using b(1) assms(2)
    by (simp add: Response_end_def call_then_def call_bind_def call_get_def response_build_def res_bind_def
        split: sum.splits)
  with b show ?thesis by blast
qed

lemma send_response_eq:
  assumes "buf_wf b"
  shows "send_response n sys (c\<lparr>conn := s\<lparr>write_buf := Some b\<rparr>\<rparr>) =
    in_env (co_send n sys s (buf_contents b)) (c\<lparr>conn := s\<lparr>write_buf := Some b\<rparr>\<rparr>)"
proof -
  have "mem_read (buf_data b) 0 (unat (buf_length b)) = Inr (buf_contents b)"
    using wf_data_length [OF assms] by (simp add: mem_read_def buf_contents_def)
  then show ?thesis
    by (simp add: send_response_def get_write_buf_def co_send_fd [of "s\<lparr>write_buf := Some b\<rparr>" s])
qed

lemma Response_end_text:
  assumes "conn_ok (conn c)" and "keep_alive c = Some ka" and "\<And>t. bd = Some t \<Longrightarrow> buf_wf t"
    and "msg = http_text (status (response c)) ka (resp_header (response c))
      (sint (ucast (body_size bd sz) :: u32)) (map_option buf_contents bd)" and "length msg < 2 ^ 64"
  shows "if length msg \<le> WRITE_BUF_MAX_SIZE
    then \<exists>b. buf_wf b \<and> buf_cap b = WRITE_BUF_MAX_SIZE \<and> buf_contents b = msg \<and>
      Response_end n sys bd sz c =
        (case co_send n sys (conn c) msg (env c) of
           None \<Rightarrow> None
         | Some (Inl e) \<Rightarrow> Some (Inl e)
         | Some (Inr (_, e)) \<Rightarrow> Some (Inr ((), c\<lparr>env := e, conn := (conn c)\<lparr>write_buf := Some b\<rparr>\<rparr>)))
    else Response_end n sys bd sz c = Some (Inl ExitError)"
proof -
  obtain b where b: "buf_wf b" "buf_cap b = WRITE_BUF_MAX_SIZE" "buf_contents b = []"
    and e: "Response_end n sys bd sz c =
      (case response_build (status (response c)) ka (resp_header (response c)) (ucast (body_size bd sz)) bd b of
         Inl e \<Rightarrow> Some (Inl e)
       | Inr b' \<Rightarrow> call_then (send_response n sys) (call_return ()) (c\<lparr>conn := (conn c)\<lparr>write_buf := Some b'\<rparr>\<rparr>))"
    using Response_end_build [OF assms(1,2)] by blast
  let ?r = "response_build (status (response c)) ka (resp_header (response c)) (ucast (body_size bd sz)) bd b"
  have x: "case ?r of
      Inr b' \<Rightarrow> buf_wf b' \<and> buf_cap b' = buf_cap b \<and> buf_contents b' = msg
    | Inl e \<Rightarrow> e = ExitError \<and> buf_cap b < length msg"
    unfolding assms(4) using assms(4,5) by (intro response_build_exact [OF b(1,3)] assms(3)) simp_all
  show ?thesis
  proof (cases ?r)
    case (Inl f)
    then show ?thesis using x e b(2) by simp
  next
    case (Inr b')
    then have b': "buf_wf b'" "buf_cap b' = WRITE_BUF_MAX_SIZE" "buf_contents b' = msg" using x b(2) by simp_all
    then have "length msg \<le> WRITE_BUF_MAX_SIZE" using buf_wf_length [OF b'(1)] length_contents [OF b'(1)] by simp
    moreover have "Response_end n sys bd sz c =
        (case co_send n sys (conn c) msg (env c) of None \<Rightarrow> None | Some (Inl e) \<Rightarrow> Some (Inl e)
         | Some (Inr (_, e)) \<Rightarrow> Some (Inr ((), c\<lparr>env := e, conn := (conn c)\<lparr>write_buf := Some b'\<rparr>\<rparr>)))"
      using e Inr b' by (auto simp: call_then_def call_bind_def send_response_eq in_env_def call_on_def
          call_return_def split: option.splits sum.splits)
    ultimately show ?thesis using b' by auto
  qed
qed

text \<open>
  C29: \<open>Response::end\<close> sends exactly the text of the response in one \<open>send\<close>: status line, headers,
  \<open>Connection\<close>, \<open>Content-Length\<close>, an empty line, the body and a line end. A response that does
  not fit in the 1024 bytes of the write buffer ends the process.
\<close>

theorem Response_end_sends:
  assumes "conn_ok (conn c)" and "keep_alive c = Some ka" and "\<And>t. bd = Some t \<Longrightarrow> buf_wf t"
    and "msg = http_text (status (response c)) ka (resp_header (response c))
      (sint (ucast (body_size bd sz) :: u32)) (map_option buf_contents bd)" and "length msg < 2 ^ 64"
  shows "if length msg \<le> WRITE_BUF_MAX_SIZE
    then \<exists>b. buf_wf b \<and> buf_cap b = WRITE_BUF_MAX_SIZE \<and> buf_contents b = msg \<and>
      Response_end n sys bd sz c =
        (case co_send n sys (conn c) msg (env c) of
           None \<Rightarrow> None
         | Some (Inl e) \<Rightarrow> Some (Inl e)
         | Some (Inr (_, e)) \<Rightarrow> Some (Inr ((), c\<lparr>env := e, conn := (conn c)\<lparr>write_buf := Some b\<rparr>\<rparr>)))
    else Response_end n sys bd sz c = Some (Inl ExitError)"
  by (rule Response_end_text [OF assms])

text \<open>A context for examples, whose request has been parsed.\<close>

definition demo_ctx :: "request \<Rightarrow> (demo, unit) ctx" where
  "demo_ctx r = (Ctx_new \<lparr>blocked = 1, to_read = [], written = []\<rparr> demo_socket ())\<lparr>request := r, keep_alive := Some True\<rparr>"

definition demo_body :: buffer where
  "demo_body = \<lparr>buf_ptr = 0, buf_size = 4, buf_length = 2, buf_data = [104, 105, 0, 0, 0]\<rparr>"

theorem Response_end_sends_witness:
  "\<exists>b. buf_wf b \<and> buf_contents b = http_text 200 True [] 2 (Some (str ''hi'')) \<and>
     Response_end 2 demo_sys (Some demo_body) 0 (demo_ctx Request_new) =
       (case co_send 2 demo_sys demo_socket (http_text 200 True [] 2 (Some (str ''hi''))) (env (demo_ctx Request_new)) of
          None \<Rightarrow> None
        | Some (Inl e) \<Rightarrow> Some (Inl e)
        | Some (Inr (_, e)) \<Rightarrow> Some (Inr ((), (demo_ctx Request_new)\<lparr>env := e, conn := demo_socket\<lparr>write_buf := Some b\<rparr>\<rparr>)))"
proof -
  let ?text = "http_text 200 True [] 2 (Some (str ''hi''))"
  let ?c = "demo_ctx Request_new"
  have s: "conn ?c = demo_socket" "keep_alive ?c = Some True" "status (response ?c) = 200" "resp_header (response ?c) = []"
    by (simp_all add: demo_ctx_def Ctx_new_def Response_new_def)
  have b: "buf_wf demo_body" "buf_contents demo_body = str ''hi''" "sint (ucast (body_size (Some demo_body) 0) :: u32) = 2"
    by code_simp+
  have l: "length ?text \<le> 1024" by code_simp
  have "conn_ok (conn ?c)" by (simp add: conn_ok_def s(1) demo_socket_def)
  from Response_end_sends [OF this s(2), where bd = "Some demo_body" and sz = 0 and msg = ?text and n = 2 and sys = demo_sys]
  show ?thesis using l b s(3,4) unfolding s(1) by (auto simp: WRITE_BUF_MAX_SIZE_def)
qed

end
