(* ===== verification/Http_Handshake.thy ===== *)
theory Http_Handshake
  imports Http
begin

text \<open>
  What the operations of \<open>Http\<close> promise: the headers that a parsed request has, the status
  that a context keeps between two requests, and the WebSocket handshake from the request to
  the bytes that answer it.
\<close>

section \<open>What a response leaves alone\<close>

text \<open>Sending a response changes the connection and the world, and nothing else of the context.\<close>

definition same_messages :: "('e, 'p) ctx \<Rightarrow> ('e, 'p) ctx \<Rightarrow> bool" where
  "same_messages c c' \<longleftrightarrow> request c' = request c \<and> response c' = response c \<and> keep_alive c' = keep_alive c"

lemma with_write_buf_same: "with_write_buf f c = Some (Inr (u, c')) \<Longrightarrow> same_messages c c'"
  by (auto simp: with_write_buf_def same_messages_def put_write_buf_def call_modify_def
      split: prod.splits sum.splits)

lemma in_env_same: "in_env m c = Some (Inr (x, c')) \<Longrightarrow> same_messages c c'"
  by (auto simp: in_env_def call_on_def same_messages_def split: option.splits sum.splits prod.splits)

lemma send_response_same: "send_response n sys c = Some (Inr (x, c')) \<Longrightarrow> same_messages c c'"
  by (auto simp: send_response_def same_messages_def dest!: in_env_same split: prod.splits sum.splits)

lemma Response_end_same:
  assumes "Response_end n sys bd sz c = Some (Inr (u, c'))"
  shows "same_messages c c'"
  using assms
  by (auto simp: Response_end_def call_then_def call_bind_returns call_get_def call_return_def call_fault_def
      clear_write_buf_def split: option.splits dest!: with_write_buf_same send_response_same)
    (simp add: same_messages_def)

text \<open>
  \<open>Ctx::clear\<close> does not reset the status: after a request that was answered by
  \<open>send_not_found_response\<close>, the next response on the same connection starts with
  \<open>404 Not Found\<close> unless its handler sets a status itself.
\<close>

theorem not_found_status_stays:
  assumes "send_not_found_response n sys c = Some (Inr (u, c'))"
  shows "status (response (Ctx_clear c')) = 404 \<and>
    (\<exists>rest. http_text (status (response (Ctx_clear c'))) ka hs len bd = str ''HTTP/1.1 404 Not Found'' @ rest)"
proof -
  have "same_messages (set_status 404 c) c'"
    using assms by (simp add: send_not_found_response_def Response_end_same)
  then have "status (response (Ctx_clear c')) = 404"
    by (simp add: same_messages_def set_status_def Ctx_clear_def clear_header_def)
  moreover have "get_status_message 404 = str ''404 Not Found''" by (simp add: get_status_message_def status_table_def)
  ultimately show ?thesis by (simp add: http_text_def http_head_def str_def)
qed

theorem not_found_status_stays_witness:
  "\<exists>c'. send_not_found_response 2 demo_sys (demo_ctx Request_new) = Some (Inr ((), c')) \<and>
     status (response (Ctx_clear c')) = 404"
proof -
  have "call_returned (\<lambda>_ _. True) (send_not_found_response 2 demo_sys) (demo_ctx Request_new)" by code_simp
  then show ?thesis using not_found_status_stays [of 2 demo_sys "demo_ctx Request_new"]
    by (auto simp: call_returned_iff)
qed

section \<open>The headers of a request\<close>

text \<open>The callbacks for the lines \<open>(p, n), (q, m)\<close>: name and value, each as offset and length.\<close>

definition header_events :: "((nat \<times> nat) \<times> nat \<times> nat) list \<Rightarrow> parser_event list" where
  "header_events ls = concat (map (\<lambda>((p, n), q, m). [OnHeaderField p n, OnHeaderValue q m]) ls)"

definition header_pairs :: "bytes \<Rightarrow> ((nat \<times> nat) \<times> nat \<times> nat) list \<Rightarrow> (cstring \<times> cstring) list" where
  "header_pairs block ls = map (\<lambda>((p, n), q, m). (lowercase (take n (drop p block)), take m (drop q block))) ls"

definition lines_in :: "bytes \<Rightarrow> ((nat \<times> nat) \<times> nat \<times> nat) list \<Rightarrow> bool" where
  "lines_in block ls \<longleftrightarrow> list_all (\<lambda>((p, n), q, m). p + n \<le> length block \<and> q + m \<le> length block) ls"

lemma header_line:
  assumes "p + n \<le> length block" and "q + m \<le> length block"
  shows "\<exists>c1. res_fold (parser_settings block) c [OnHeaderField p n, OnHeaderValue q m] = Inr c1 \<and>
    request c1 = (request c)\<lparr>req_header :=
      map_put (lowercase (take n (drop p block))) (take m (drop q block)) (req_header (request c))\<rparr> \<and> keep_alive c1 = keep_alive c"
  using assms by (simp add: on_header_field_def on_header_value_def mem_read_def)

lemma header_lines:
  assumes "lines_in block ls"
  shows "\<exists>c'. res_fold (parser_settings block) c (header_events ls) = Inr c' \<and>
    request c' = (request c)\<lparr>req_header := req_header (request c')\<rparr> \<and> keep_alive c' = keep_alive c \<and>
    (\<forall>k. map_find k (req_header (request c')) =
       (case map_of (rev (header_pairs block ls)) k of Some v \<Rightarrow> Some v | None \<Rightarrow> map_find k (req_header (request c))))"
  using assms
proof (induction ls arbitrary: c)
  case Nil
  then show ?case by (simp add: header_events_def header_pairs_def)
next
  case (Cons l ls)
  obtain p n q m where l: "l = ((p, n), q, m)" by (metis prod.exhaust)
  have b: "p + n \<le> length block" "q + m \<le> length block" "lines_in block ls"
    using Cons.prems by (auto simp: lines_in_def l)
  obtain c1 where c1: "res_fold (parser_settings block) c [OnHeaderField p n, OnHeaderValue q m] = Inr c1"
    "request c1 = (request c)\<lparr>req_header :=
      map_put (lowercase (take n (drop p block))) (take m (drop q block)) (req_header (request c))\<rparr>" "keep_alive c1 = keep_alive c"
    using header_line [OF b(1,2)] by blast
  have e: "header_events (l # ls) = [OnHeaderField p n, OnHeaderValue q m] @ header_events ls"
    by (simp add: header_events_def l)
  have "res_fold (parser_settings block) c (header_events (l # ls)) = res_fold (parser_settings block) c1 (header_events ls)"
    unfolding e res_fold_append c1(1) by simp
  moreover obtain c' where c': "res_fold (parser_settings block) c1 (header_events ls) = Inr c'"
    "request c' = (request c1)\<lparr>req_header := req_header (request c')\<rparr>" "keep_alive c' = keep_alive c1"
    and f: "map_find k (req_header (request c')) =
      (case map_of (rev (header_pairs block ls)) k of Some v \<Rightarrow> Some v | None \<Rightarrow> map_find k (req_header (request c1)))" for k
    using Cons.IH [OF b(3), of c1] by blast
  moreover have "map_find k (req_header (request c')) =
      (case map_of (rev (header_pairs block (l # ls))) k of Some v \<Rightarrow> Some v | None \<Rightarrow> map_find k (req_header (request c)))" for k
    unfolding f c1(2) request.select_convs request.update_convs map_find_put
    by (cases "map_of (rev (header_pairs block ls)) k") (simp_all add: header_pairs_def l map_add_def map_find_put)
  moreover have "request c' = (request c)\<lparr>req_header := req_header (request c')\<rparr>" using c'(2) c1(2) by simp
  ultimately show ?case using c1(3) by auto
qed

text \<open>
  C31: the callbacks of a block keep every header under its name in lowercase letters, so that a
  lookup does not depend on the case the client used; of two headers of one name the last one counts,
  and headers that the request had before stay unless they are overwritten.
\<close>

theorem headers_of_block:
  assumes "lines_in block ls"
  shows "\<exists>c'. res_fold (parser_settings block) c (header_events ls) = Inr c' \<and>
    (\<forall>k. map_find k (req_header (request c')) =
       (case map_of (rev (header_pairs block ls)) k of Some v \<Rightarrow> Some v | None \<Rightarrow> map_find k (req_header (request c))))"
  using header_lines [OF assms] by blast

text \<open>Two lines \<open>Host:a\<close> and \<open>HOST:b\<close>.\<close>

theorem headers_of_block_witness:
  "\<exists>c'. res_fold (parser_settings (str ''Host:a HOST:b'')) (demo_ctx Request_new)
       (header_events [((0, 4), 5, 1), ((7, 4), 12, 1)]) = Inr c' \<and>
     get_header (request c') (str ''host'') = str ''b''"
proof -
  have "lines_in (str ''Host:a HOST:b'') [((0, 4), 5, 1), ((7, 4), 12, 1)]" by code_simp
  from headers_of_block [OF this, of "demo_ctx Request_new"] obtain c' where
    c': "res_fold (parser_settings (str ''Host:a HOST:b'')) (demo_ctx Request_new)
      (header_events [((0, 4), 5, 1), ((7, 4), 12, 1)]) = Inr c'"
    and f: "map_find (str ''host'') (req_header (request c')) =
      (case map_of (rev (header_pairs (str ''Host:a HOST:b'') [((0, 4), 5, 1), ((7, 4), 12, 1)])) (str ''host'') of
         Some v \<Rightarrow> Some v | None \<Rightarrow> map_find (str ''host'') (req_header (request (demo_ctx Request_new))))"
    by blast
  have "map_of (rev (header_pairs (str ''Host:a HOST:b'') [((0, 4), 5, 1), ((7, 4), 12, 1)])) (str ''host'') = Some (str ''b'')"
    by code_simp
  then show ?thesis using c' f by (simp add: get_header_def)
qed

text \<open>
  When the name and the value of a header arrive in different reads, the value is stored under
  the bytes that the second read left where the name had been, because \<open>current_header_name\<close>
  still points into the buffer that was overwritten.
\<close>

theorem split_header_loses_name:
  assumes "p + n \<le> length block2" and "q + m \<le> length block2"
    and "parser_settings block1 c (OnHeaderField p n) = Inr c1"
  shows "\<exists>c2. parser_settings block2 c1 (OnHeaderValue q m) = Inr c2 \<and>
    map_find (lowercase (take n (drop p block2))) (req_header (request c2)) = Some (take m (drop q block2)) \<and>
    (\<forall>k. k \<noteq> lowercase (take n (drop p block2)) \<longrightarrow> map_find k (req_header (request c2)) = map_find k (req_header (request c)))"
proof -
  have "c1 = on_header_field p n c" using assms(3) by simp
  then show ?thesis
    using assms(1,2) by (simp add: on_header_field_def on_header_value_def mem_read_def map_find_put)
qed

theorem split_header_loses_name_witness:
  "\<exists>c2. parser_settings (str ''a  x'') (on_header_field 0 4 (demo_ctx Request_new)) (OnHeaderValue 0 1) = Inr c2 \<and>
     map_find (str ''a  x'') (req_header (request c2)) = Some (str ''a'')"
  using split_header_loses_name [of 0 4 "str ''a  x''" 0 1 "str ''host''" "demo_ctx Request_new"
      "on_header_field 0 4 (demo_ctx Request_new)"]
  by (auto simp: str_def lowercase_def tolower_def)

section \<open>The WebSocket handshake\<close>

text \<open>What a client has to ask for, and the headers of the answer (in the order of their names).\<close>

definition handshake_ok :: "request \<Rightarrow> bool" where
  "handshake_ok r \<longleftrightarrow>
     req_method r = str ''GET'' \<and>
     map_option lowercase (map_find (str ''connection'') (req_header r)) = Some (str ''upgrade'') \<and>
     map_option lowercase (map_find (str ''upgrade'') (req_header r)) = Some (str ''websocket'') \<and>
     map_option lowercase (map_find (str ''sec-websocket-version'') (req_header r)) = Some (str ''13'') \<and>
     (\<exists>k. map_find (str ''sec-websocket-key'') (req_header r) = Some k \<and> k \<noteq> [])"

definition accept_headers :: "cstring \<Rightarrow> cstring str_map" where
  "accept_headers digest =
     [(str ''Connection'', str ''Upgrade''), (str ''Sec-WebSocket-Accept'', rfc4648 digest), (str ''Upgrade'', str ''websocket'')]"

text \<open>One \<open>send\<close> of the system, as \<open>co_send\<close> repeats it.\<close>

definition send_once :: "'e sys \<Rightarrow> int \<Rightarrow> bytes \<Rightarrow> 'e \<Rightarrow> (int \<times> unit) \<times> 'e" where
  "send_once sys fd bs e = (case Socket_send sys fd bs e of (r, e) \<Rightarrow> ((to_int r, ()), e))"

lemma co_send_returns:
  assumes "patience sys (send_once sys (sock_fd s) bs) EAGAIN (sock_wait_event sys (sock_fd s) FSW_EVENT_WRITE) bud"
  shows "\<exists>r e'. co_send (Suc (bud e)) sys s bs e = Some (Inr (r, e'))"
proof -
  have "\<exists>ret x e'. retry (Suc (bud e)) sys (send_once sys (sock_fd s) bs) EAGAIN
      (sock_wait_event sys (sock_fd s) FSW_EVENT_WRITE) e = Some (Inr ((ret, x), e'))"
    using retry_returns [OF assms, where I = "\<lambda>_. True" and Q = "\<lambda>_ _ _. True" and e = e and n = "Suc (bud e)"] by blast
  moreover have "send_once sys (sock_fd s) bs = (\<lambda>e. case Socket_send sys (sock_fd s) bs e of (r, e) \<Rightarrow> ((to_int r, ()), e))"
    by (simp add: send_once_def fun_eq_iff)
  ultimately show ?thesis by (auto simp: co_send_def call_bind_def call_return_def)
qed

lemma Response_end_returns:
  assumes "conn_ok (conn c)" and "keep_alive c = Some ka" and "\<And>t. bd = Some t \<Longrightarrow> buf_wf t"
    and "length (http_text (status (response c)) ka (resp_header (response c))
      (sint (ucast (body_size bd sz) :: u32)) (map_option buf_contents bd)) \<le> WRITE_BUF_MAX_SIZE"
    and "\<And>bs. patience sys (send_once sys (sock_fd (conn c)) bs) EAGAIN
      (sock_wait_event sys (sock_fd (conn c)) FSW_EVENT_WRITE) bud"
  shows "\<exists>c'. Response_end (Suc (bud (env c))) sys bd sz c = Some (Inr ((), c')) \<and> same_messages c c'"
proof -
  let ?text = "http_text (status (response c)) ka (resp_header (response c))
      (sint (ucast (body_size bd sz) :: u32)) (map_option buf_contents bd)"
  have "length ?text < 2 ^ 64" using assms(4) by (simp add: WRITE_BUF_MAX_SIZE_def)
  from Response_end_text [OF assms(1-3) refl this, where n = "Suc (bud (env c))" and sys = sys] assms(4)
  obtain b where "Response_end (Suc (bud (env c))) sys bd sz c =
        (case co_send (Suc (bud (env c))) sys (conn c) ?text (env c) of
           None \<Rightarrow> None
         | Some (Inl e) \<Rightarrow> Some (Inl e)
         | Some (Inr (_, e)) \<Rightarrow> Some (Inr ((), c\<lparr>env := e, conn := (conn c)\<lparr>write_buf := Some b\<rparr>\<rparr>)))"
    by auto
  moreover obtain r e' where "co_send (Suc (bud (env c))) sys (conn c) ?text (env c) = Some (Inr (r, e'))"
    using co_send_returns [OF assms(5)] by blast
  ultimately show ?thesis by (simp add: same_messages_def)
qed

lemma sint_ucast_small: "unat (l :: u64) < 2 ^ 31 \<Longrightarrow> sint (ucast l :: u32) = int (unat l)"
proof -
  assume a: "unat l < 2 ^ 31"
  have k: "uint l = int (unat l)" by simp
  have t: "take_bit 32 (int m) = int m" "signed_take_bit 31 (int m) = int m" if "m < 2 ^ 31" for m
    using that by (simp_all add: take_bit_int_eq_self signed_take_bit_int_eq_self)
  have u: "uint (ucast l :: u32) = int (unat l)"
    using t(1) [OF a] by (simp add: unsigned_ucast_eq)
  show ?thesis using t(2) [OF a] by (simp only: sint_uint u) simp
qed
lemma length_dec_digits: "length (dec_digits n) \<le> Suc n"
proof (induction n rule: dec_digits.induct)
  case (1 n)
  then show ?case by (cases "n < 10") (auto simp: dec_digits.simps [of n])
qed

lemma length_to_string: "0 \<le> v \<Longrightarrow> length (to_string v) \<le> Suc (nat v)"
  by (simp add: to_string_def length_dec_digits)

lemma to_string_0 [simp]: "to_string 0 = [48]"
  by (simp add: to_string_def dec_digits.simps)

lemma reject_returns:
  assumes "conn_ok (conn c)" and "keep_alive c = Some ka" and "resp_header (response c) = []"
    and "\<And>bs. patience sys (send_once sys (sock_fd (conn c)) bs) EAGAIN
      (sock_wait_event sys (sock_fd (conn c)) FSW_EVENT_WRITE) bud"
    and "length t \<le> 200"
  shows "\<exists>c'. call_then (send_bad_request_response (Suc (bud (env c))) sys t) (call_return False) c = Some (Inr (False, c')) \<and>
    same_messages (set_status 400 c) c'"
proof -
  let ?new = "Buffer_new 0 (of_nat (length t))" and ?c = "set_status 400 c"
  have u: "unat (of_nat (length t) :: u64) = length t" using assms(5) by (simp add: unat_of_nat)
  have "(of_nat (length t) :: u64) \<noteq> -1"
  proof
    assume "(of_nat (length t) :: u64) = -1"
    then have "length t = unat (-1 :: u64)" using u by simp
    moreover have "unat (-1 :: u64) = 2 ^ 64 - 1" by (simp add: unsigned_minus_1_eq_mask mask_eq_exp_minus_1)
    ultimately show False using assms(5) by simp
  qed
  then have "buf_wf ?new" by (rule Buffer_new_wf)
  then obtain b where b: "append_string ?new t = Inr b" "buf_wf b" "buf_contents b = t"
    using append_string_fits [of ?new t] u by auto
  have l: "sint (ucast (body_size (Some b) 0) :: u32) = int (length t)"
    using sint_ucast_small [of "buf_length b"] length_contents [OF b(2)] b(3) assms(5) by (simp add: body_size_def)
  have "get_status_message 400 = str ''400 Bad Request''" by (simp add: get_status_message_def status_table_def)
  then have len: "length (http_text (status (response ?c)) ka (resp_header (response ?c))
      (sint (ucast (body_size (Some b) 0) :: u32)) (map_option buf_contents (Some b))) \<le> WRITE_BUF_MAX_SIZE"
    using assms(5) length_to_string [of "int (length t)"] unfolding l
    by (simp add: http_text_def http_head_def set_status_def assms(3) b(3) WRITE_BUF_MAX_SIZE_def crlf_def str_def)
  have "\<exists>c'. Response_end (Suc (bud (env ?c))) sys (Some b) 0 ?c = Some (Inr ((), c')) \<and> same_messages ?c c'"
    by (rule Response_end_returns [OF _ _ _ len]) (use assms(1,2,4) b in \<open>simp_all add: set_status_def\<close>)
  then show ?thesis
    using b(1) by (auto simp: send_bad_request_response_def call_then_def call_bind_def call_return_def call_res_def
        call_modify_def set_status_def)
qed

lemma check_upgrade_returns:
  assumes "conn_ok (conn c)" and "keep_alive c = Some ka" and "resp_header (response c) = []"
    and "\<And>bs. patience sys (send_once sys (sock_fd (conn c)) bs) EAGAIN
      (sock_wait_event sys (sock_fd (conn c)) FSW_EVENT_WRITE) bud"
  shows "if handshake_ok (request c)
    then check_websocket_upgrade (Suc (bud (env c))) sys (get_header (request c) (str ''sec-websocket-key'')) c = Some (Inr (True, c))
    else \<exists>c'. check_websocket_upgrade (Suc (bud (env c))) sys (get_header (request c) (str ''sec-websocket-key'')) c = Some (Inr (False, c')) \<and>
      same_messages (set_status 400 c) c'"
proof -
  have k: "(get_header (request c) (str ''sec-websocket-key'') \<noteq> []) \<longleftrightarrow>
      (\<exists>k. map_find (str ''sec-websocket-key'') (req_header (request c)) = Some k \<and> k \<noteq> [])"
    by (simp add: get_header_def split: option.split)
  have v: "header_contain_value (request c) h w \<longleftrightarrow> map_option lowercase (map_find h (req_header (request c))) = Some w" for h w
    by (simp add: header_contain_value_def split: option.split)
  note r = reject_returns [OF assms, where t = "bad_handshake @ x" for x]
  show ?thesis
    unfolding check_websocket_upgrade_def call_bind_get handshake_ok_def k [symmetric] v [symmetric]
    by (auto simp: call_return_def intro!: r) (simp_all add: bad_handshake_def str_def)
qed

lemma upgrade_returns:
  assumes "conn_ok (conn c)" and "keep_alive c = Some ka" and "resp_header (response c) = []"
    and "\<And>x. length (sha1 x) = 20"
    and "\<And>bs. patience sys (send_once sys (sock_fd (conn c)) bs) EAGAIN
      (sock_wait_event sys (sock_fd (conn c)) FSW_EVENT_WRITE) bud"
  shows "\<exists>c'. upgrade sha1 (Suc (bud (env c))) sys c = Some (Inr (handshake_ok (request c), c')) \<and> request c' = request c \<and>
    response c' = (if handshake_ok (request c)
      then (response c)\<lparr>status := 101, resp_header :=
        accept_headers (sha1 (get_header (request c) (str ''sec-websocket-key'') @ WEBSOCKET_GUID))\<rparr>
      else (response c)\<lparr>status := 400\<rparr>)"
proof -
  let ?key = "get_header (request c) (str ''sec-websocket-key'')" and ?n = "Suc (bud (env c))"
  show ?thesis
  proof (cases "handshake_ok (request c)")
    case False
    then obtain c' where "check_websocket_upgrade ?n sys ?key c = Some (Inr (False, c'))" "same_messages (set_status 400 c) c'"
      using check_upgrade_returns [OF assms(1,2,3,5)] by auto
    then show ?thesis using False
      by (simp add: upgrade_def call_bind_def call_get_def call_return_def same_messages_def set_status_def)
  next
    case True
    define d where "d = sha1 (?key @ WEBSOCKET_GUID)"
    have d: "length d = 20" using assms(4) by (simp add: d_def)
    define c1 where "c1 = c\<lparr>response := (response c)\<lparr>status := 101, resp_header := accept_headers d\<rparr>\<rparr>"
    have "set_resp_header (str ''Sec-WebSocket-Accept'') (compute_accept_key sha1 ?key) (set_resp_header (str ''Connection'')
        (str ''Upgrade'') (set_resp_header (str ''Upgrade'') (str ''websocket'') (set_status 101 c))) = c1"
      by (simp add: set_resp_header_def set_status_def c1_def accept_headers_def assms(3) compute_accept_key_def
          encode_eq d_def str_def)
    then have u: "upgrade sha1 ?n sys c = call_then (Response_end ?n sys None 0) (call_return True) c1"
      using True check_upgrade_returns [OF assms(1,2,3,5)] 
      by (simp add: upgrade_def call_bind_cong)
    have "get_status_message 101 = str ''101 Switching Protocols''" by (simp add: get_status_message_def status_table_def)
    then have len: "length (http_text (status (response c1)) ka (resp_header (response c1))
        (sint (ucast (body_size None 0) :: u32)) (map_option buf_contents None)) \<le> WRITE_BUF_MAX_SIZE"
      using d by (simp add: c1_def http_text_def http_head_def accept_headers_def body_size_def
          length_rfc4648 WRITE_BUF_MAX_SIZE_def crlf_def str_def)
    have "\<exists>c'. Response_end (Suc (bud (env c1))) sys None 0 c1 = Some (Inr ((), c')) \<and> same_messages c1 c'"
      by (rule Response_end_returns [OF _ _ _ len]) (use assms(1,2,5) in \<open>simp_all add: c1_def\<close>)
    then show ?thesis using True u
      by (auto simp: call_then_def call_bind_def call_return_def same_messages_def c1_def d_def)
  qed
qed


definition demo_upgrade :: request where
  "demo_upgrade = Request_new\<lparr>req_method := str ''GET'', req_header :=
     [(str ''connection'', str ''Upgrade''), (str ''sec-websocket-key'', str ''abc''),
      (str ''sec-websocket-version'', str ''13''), (str ''upgrade'', str ''WebSocket'')]\<rparr>"

lemma demo_send_once_patience:
  "patience demo_sys (send_once demo_sys fd bs) EAGAIN (sock_wait_event demo_sys fd ev) blocked"
  unfolding patience_def demo_wait
  by (auto simp: send_once_def Socket_send_def demo_sys_def Let_def EAGAIN_def to_int_def split: if_splits)


end
