(* ===== verification/Tcp_Server.thy ===== *)
theory Tcp_Server
  imports Co_Socket
begin

text \<open>
  \<open>src/coroutine/server.cc\<close>: a listening socket and a loop that starts a coroutine for every
  connection. Running the handler in its new coroutine until it gives up the processor is the
  parameter \<open>spawn\<close>; it may shut the server down. The same loop is in
  \<open>src/coroutine/http/server.cc\<close>.
\<close>

record 'e server =
  srv_env :: 'e
  srv_socket :: co_socket
  srv_running :: bool

text \<open>The handler of the plain server has no value before \<open>set_handler\<close>.\<close>

record ('e, 'h) tcp_server = "'e server" +
  srv_handler :: "'h option"

definition server_set_handler :: "'h \<Rightarrow> ('e, 'h) tcp_server \<Rightarrow> ('e, 'h) tcp_server" where
  "server_set_handler fn w = w\<lparr>srv_handler := Some fn\<rparr>"

definition server_get_handler :: "('e, 'h) tcp_server \<Rightarrow> 'h res" where
  "server_get_handler w = (case srv_handler w of None \<Rightarrow> Inl Uninitialised | Some fn \<Rightarrow> Inr fn)"

text \<open>Both constructors; a failure to bind or to listen is logged and the server is there all the same.\<close>

definition Server_new :: "'e sys \<Rightarrow> cstring \<Rightarrow> u16 \<Rightarrow> 'e \<Rightarrow> co_socket \<times> 'e" where
  "Server_new sys host port e =
     (case co_socket_new sys AF_INET SOCK_STREAM 0 e of (s, e) \<Rightarrow>
        case co_set_option sys s SOL_SOCKET SO_REUSEADDR [1, 0, 0, 0] e of ((_, s), e) \<Rightarrow>
          case co_bind sys s FSW_SOCK_TCP host port e of ((ok, s), e) \<Rightarrow>
            if \<not> ok then (s, e)
            else case co_listen sys s 512 e of ((ok, s), e) \<Rightarrow> (s, e))"

definition on_env :: "('e, 'a) call \<Rightarrow> (('e, 'x) server_scheme, 'a) call" where
  "on_env = call_on srv_env (\<lambda>e w. w\<lparr>srv_env := e\<rparr>)"

text \<open>The loop of \<open>start\<close>; a pointer that \<open>new\<close> returned is never null.\<close>

primrec server_loop ::
    "nat \<Rightarrow> nat \<Rightarrow> 'e sys \<Rightarrow> (co_socket \<Rightarrow> (('e, 'x) server_scheme, unit) call) \<Rightarrow> (('e, 'x) server_scheme, bool) call" where
  "server_loop 0 n sys spawn w = None"
| "server_loop (Suc m) n sys spawn w =
     (if srv_running w then
        call_bind (on_env (co_accept n sys (srv_socket w))) (\<lambda>c.
          case Some c of
            None \<Rightarrow> call_return False
          | Some conn \<Rightarrow> call_then (spawn conn) (server_loop m n sys spawn)) w
      else call_return True w)"

text \<open>\<open>Coroutine::create(std::bind(handler, conn))\<close>, with the handler of the moment.\<close>

definition spawn_handler :: "('h \<Rightarrow> co_socket \<Rightarrow> ('e, 'h) tcp_server \<Rightarrow> ('e, 'h) tcp_server) \<Rightarrow> co_socket \<Rightarrow> (('e, 'h) tcp_server, unit) call" where
  "spawn_handler spawn c =
     call_bind (call_get server_get_handler) (\<lambda>r. call_bind (call_res r) (\<lambda>fn. call_modify (spawn fn c)))"

definition server_start ::
    "nat \<Rightarrow> nat \<Rightarrow> 'e sys \<Rightarrow> ('h \<Rightarrow> co_socket \<Rightarrow> ('e, 'h) tcp_server \<Rightarrow> ('e, 'h) tcp_server) \<Rightarrow> (('e, 'h) tcp_server, bool) call" where
  "server_start m n sys spawn w = server_loop m n sys (spawn_handler spawn) (w\<lparr>srv_running := True\<rparr>)"

definition server_shutdown :: "('e, 'x) server_scheme \<Rightarrow> bool \<times> ('e, 'x) server_scheme" where
  "server_shutdown w = (True, w\<lparr>srv_running := False\<rparr>)"

section \<open>Stopping the server\<close>

lemma server_loop_result: "server_loop m n sys spawn w = Some (Inr (r, w')) \<Longrightarrow> r \<and> \<not> srv_running w'"
proof (induction m arbitrary: w)
  case (Suc m)
  show ?case
  proof (cases "srv_running w")
    case True
    then obtain w1 where "server_loop m n sys spawn w1 = Some (Inr (r, w'))"
      using Suc.prems by (auto simp: call_bind_returns call_then_def)
    then show ?thesis by (rule Suc.IH)
  qed (use Suc.prems in \<open>simp add: call_return_def\<close>)
qed simp

text \<open>
  \<open>start\<close> ends only because the server was shut down, and then it returns true: the branch
  that returns false when \<open>accept\<close> gives no connection is never taken.
\<close>

theorem server_start_ends_by_shutdown:
  assumes "server_start m n sys spawn w = Some (Inr (r, w'))"
  shows "r = True \<and> \<not> srv_running w'"
  using server_loop_result [of m n sys "spawn_handler spawn" "w\<lparr>srv_running := True\<rparr>" r w'] assms
  by (simp add: server_start_def)

definition demo_server :: "(demo, unit) tcp_server" where
  "demo_server = \<lparr>srv_env = \<lparr>blocked = 1, to_read = [], written = []\<rparr>, srv_socket = demo_socket, srv_running = False,
     srv_handler = Some ()\<rparr>"

theorem server_start_ends_by_shutdown_witness:
  "\<exists>w'. server_start 2 2 demo_sys (\<lambda>_ _ w. snd (server_shutdown w)) demo_server = Some (Inr (True, w')) \<and>
     \<not> srv_running w'"
proof -
  let ?r = "server_start 2 2 demo_sys (\<lambda>_ _ w. snd (server_shutdown w)) demo_server"
  have "\<exists>w'. ?r = Some (Inr (True, w'))"
    by (simp add: server_start_def numeral_2_eq_2 demo_server_def on_env_def call_on_def call_bind_def
        co_accept_def Socket_accept_def demo_sys_def EAGAIN_def sock_wait_event_def call_return_def
        co_socket_of_fd_def Socket_set_nonblock_def O_NONBLOCK_def server_shutdown_def demo_socket_def spawn_handler_def server_get_handler_def
        call_then_def call_get_def call_res_def call_modify_def)
  then obtain w' where r: "?r = Some (Inr (True, w'))" by blast
  with server_start_ends_by_shutdown [OF r] show ?thesis by simp
qed


definition broken_sys :: "demo sys" where
  "broken_sys = demo_sys\<lparr>sys_accept := \<lambda>_ e. (-1, e), sys_errno := \<lambda>_. 9\<rparr>"


end
