(* ===== verification/Http_Server.thy ===== *)
theory Http_Server
  imports Http_Handshake Tcp_Server
begin

text \<open>
  \<open>src/coroutine/http/server.cc\<close> and \<open>include/coroutine_http_server.h\<close>: the tables of
  handlers, static files below a document root, and the loop that serves a connection. The file
  system is a parameter, and so is \<open>Coroutine::create\<close>, which runs the loop of a connection.
\<close>

section \<open>The server\<close>

text \<open>A handler gets the request and the response, and with them the context of the connection.\<close>

type_synonym ('e, 'p) handler = "(('e, 'p) ctx, unit) call"

text \<open>A function pointer may be null: \<open>None\<close>.\<close>

record ('e, 'p) http_server =
  settings :: "cstring str_map"
  http_handlers :: "('e, 'p) handler option str_map"
  websocket_handlers :: "('e, 'p) handler option str_map"

definition Http_Server_new :: "'e sys \<Rightarrow> cstring \<Rightarrow> u16 \<Rightarrow> 'e \<Rightarrow> ('e, 'p) http_server \<times> co_socket \<times> 'e" where
  "Http_Server_new sys host port e =
     (\<lparr>settings = [], http_handlers = [], websocket_handlers = []\<rparr>,
      case co_socket_new sys AF_INET SOCK_STREAM 0 e of (s, e) \<Rightarrow>
        case co_set_option sys s SOL_SOCKET SO_REUSEADDR [1, 0, 0, 0] e of ((_, s), e) \<Rightarrow>
          case co_bind sys s FSW_SOCK_TCP host port e of ((ok, s), e) \<Rightarrow>
            if \<not> ok then (s, e)
            else case co_listen sys s 512 e of ((ok, s), e) \<Rightarrow> (s, e))"

definition set_handler :: "cstring \<Rightarrow> 'h option \<Rightarrow> 'h option str_map \<Rightarrow> 'h option str_map" where
  "set_handler pattern fn handlers = map_put pattern fn handlers"

fun get_handler :: "cstring \<Rightarrow> 'h option str_map \<Rightarrow> 'h option" where
  "get_handler pattern [] = None"
| "get_handler pattern ((k, h) # handlers) =
     (if strncasecmp_eq k pattern (length k) \<and> length k = length pattern then h
      else get_handler pattern handlers)"

definition set_http_handler :: "cstring \<Rightarrow> ('e, 'p) handler option \<Rightarrow> ('e, 'p) http_server \<Rightarrow> ('e, 'p) http_server" where
  "set_http_handler pattern fn srv = srv\<lparr>http_handlers := set_handler pattern fn (http_handlers srv)\<rparr>"

definition set_websocket_handler :: "cstring \<Rightarrow> ('e, 'p) handler option \<Rightarrow> ('e, 'p) http_server \<Rightarrow> ('e, 'p) http_server" where
  "set_websocket_handler pattern fn srv = srv\<lparr>websocket_handlers := set_handler pattern fn (websocket_handlers srv)\<rparr>"

definition get_http_handler :: "cstring \<Rightarrow> ('e, 'p) http_server \<Rightarrow> ('e, 'p) handler option" where
  "get_http_handler pattern srv = get_handler pattern (http_handlers srv)"

definition get_websocket_handler :: "cstring \<Rightarrow> ('e, 'p) http_server \<Rightarrow> ('e, 'p) handler option" where
  "get_websocket_handler pattern srv = get_handler pattern (websocket_handlers srv)"

section \<open>Static files\<close>

text \<open>What the server uses of the file system; \<open>fs_fstat\<close> gives the result and the size.\<close>

record 'e files =
  fs_stat :: "cstring \<Rightarrow> 'e \<Rightarrow> int \<times> 'e"
  fs_open :: "cstring \<Rightarrow> 'e \<Rightarrow> int \<times> 'e"
  fs_fstat :: "int \<Rightarrow> 'e \<Rightarrow> (int \<times> u64) \<times> 'e"
  fs_sendfile :: "int \<Rightarrow> int \<Rightarrow> u64 \<Rightarrow> 'e \<Rightarrow> int \<times> 'e"
  fs_close :: "int \<Rightarrow> 'e \<Rightarrow> int \<times> 'e"

definition get_document_absolute_path :: "'e files \<Rightarrow> cstring str_map \<Rightarrow> cstring \<Rightarrow> 'e \<Rightarrow> cstring \<times> 'e" where
  "get_document_absolute_path fs sets relative e =
     (case map_find (str ''document_root'') sets of
        None \<Rightarrow> ([], e)
      | Some droot \<Rightarrow>
          (case fs_stat fs (droot @ relative) e of
             (ret, e) \<Rightarrow> (if ret < 0 then [] else droot @ relative, e)))"

definition lift_env :: "('e \<Rightarrow> 'a \<times> 'e) \<Rightarrow> (('e, 'p) ctx, 'a) call" where
  "lift_env f = in_env (\<lambda>e. Some (Inr (f e)))"

text \<open>The size of a file that could not be opened is read from a \<open>struct stat\<close> that nobody wrote.\<close>

definition send_static_file :: "nat \<Rightarrow> 'e sys \<Rightarrow> 'e files \<Rightarrow> cstring \<Rightarrow> (('e, 'p) ctx, unit) call" where
  "send_static_file n sys fs file =
     call_bind (lift_env (fs_open fs file)) (\<lambda>read_fd.
     call_bind (lift_env (fs_fstat fs read_fd)) (\<lambda>(ret, st_size).
     if ret < 0 then call_fault Uninitialised
     else
       call_then (Response_end n sys None st_size)
      (call_bind (call_get (\<lambda>c. sock_fd (conn c))) (\<lambda>fd.
       call_then (lift_env (fs_sendfile fs fd read_fd st_size))
      (call_then (lift_env (fs_close fs read_fd)) (call_return ()))))))"

section \<open>Serving a connection\<close>

definition call_http_handler :: "nat \<Rightarrow> 'e sys \<Rightarrow> ('e, 'p) handler \<Rightarrow> (('e, 'p) ctx, bool) call" where
  "call_http_handler n sys handler =
     call_bind (call_get (\<lambda>c. has_sec_websocket_key (request c))) (\<lambda>ws.
     if ws then call_then (send_bad_request_response n sys (str ''no support websocket'')) (call_return False)
     else call_then handler (call_return True))"

definition call_websocket_handler ::
    "(bytes \<Rightarrow> bytes) \<Rightarrow> nat \<Rightarrow> 'e sys \<Rightarrow> ('e, 'p) handler \<Rightarrow> (('e, 'p) ctx, bool) call" where
  "call_websocket_handler sha1 n sys handler =
     call_bind (upgrade sha1 n sys) (\<lambda>ok.
     if \<not> ok then call_return False else call_then handler (call_return True))"

text \<open>The read buffer takes the bytes from its first byte on.\<close>

definition recv_request :: "nat \<Rightarrow> 'e sys \<Rightarrow> (('e, 'p) ctx, int) call" where
  "recv_request n sys c =
     (case get_read_buf (conn c) of (b, s) \<Rightarrow>
        call_bind (in_env (co_recv n sys s READ_BUF_MAX_SIZE)) (\<lambda>(recved, bs).
        call_bind (call_res (write_block b bs)) (\<lambda>b.
        call_then (call_modify (\<lambda>c. c\<lparr>conn := s\<lparr>read_buf := Some b\<rparr>\<rparr>)) (call_return recved))) (c\<lparr>conn := s\<rparr>))"

text \<open>The branches of a turn of the loop; false is the \<open>break\<close> in them.\<close>

definition serve_request ::
    "(bytes \<Rightarrow> bytes) \<Rightarrow> nat \<Rightarrow> 'e sys \<Rightarrow> 'e files \<Rightarrow> ('e, 'p) http_server \<Rightarrow> cstring \<Rightarrow> (('e, 'p) ctx, bool) call" where
  "serve_request sha1 n sys fs srv pth =
     call_bind (lift_env (get_document_absolute_path fs (settings srv) pth)) (\<lambda>static_file.
     if static_file \<noteq> [] then call_then (send_static_file n sys fs static_file) (call_return True)
     else case get_http_handler pth srv of
       Some handler \<Rightarrow> call_http_handler n sys handler
     | None \<Rightarrow> (case get_websocket_handler pth srv of
         Some handler \<Rightarrow> call_websocket_handler sha1 n sys handler
       | None \<Rightarrow> call_then (send_not_found_response n sys) (call_return True)))"

definition parse_request :: "'p http_parser \<Rightarrow> int \<Rightarrow> (('e, 'p) ctx, unit) call" where
  "parse_request hp recved c = (case Ctx_parse hp recved c of Inl e \<Rightarrow> Some (Inl e) | Inr c' \<Rightarrow> Some (Inr ((), c')))"

text \<open>
  The loop of \<open>on_accept\<close>, at most \<open>k\<close> turns. \<open>string path(ctx->request->path)\<close> copies up to
  the first NUL and needs a pointer that is not null.
\<close>

primrec accept_loop ::
    "nat \<Rightarrow> (bytes \<Rightarrow> bytes) \<Rightarrow> nat \<Rightarrow> 'e sys \<Rightarrow> 'e files \<Rightarrow> 'p http_parser \<Rightarrow> ('e, 'p) http_server \<Rightarrow> (('e, 'p) ctx, unit) call" where
  "accept_loop 0 sha1 n sys fs hp srv c = None"
| "accept_loop (Suc k) sha1 n sys fs hp srv c =
     call_bind (recv_request n sys) (\<lambda>recved.
     if recved = 0 then call_return ()
     else call_then (parse_request hp recved)
      (call_bind (call_get (\<lambda>c. path (request c))) (\<lambda>p. case p of
         None \<Rightarrow> call_fault NullPointer
       | Some bs \<Rightarrow>
           call_bind (serve_request sha1 n sys fs srv (from_c_str bs)) (\<lambda>more.
           if \<not> more then call_return ()
           else call_bind (call_get keep_alive) (\<lambda>ka. case ka of
              None \<Rightarrow> call_fault Uninitialised
            | Some ka \<Rightarrow>
                if \<not> ka then call_return ()
                else call_then (call_modify Ctx_clear) (accept_loop k sha1 n sys fs hp srv)))))) c"

text \<open>The context is deleted by the deferred call, when the coroutine ends.\<close>

definition on_accept ::
    "nat \<Rightarrow> (bytes \<Rightarrow> bytes) \<Rightarrow> nat \<Rightarrow> 'e sys \<Rightarrow> 'e files \<Rightarrow> 'p http_parser \<Rightarrow> ('e, 'p) http_server \<Rightarrow> co_socket \<Rightarrow> ('e, unit) call" where
  "on_accept k sha1 n sys fs hp srv s e =
     (case call_then (accept_loop k sha1 n sys fs hp srv) (Ctx_delete k n sys) (Ctx_new e s (http_parser_init hp)) of
        None \<Rightarrow> None
      | Some (Inl f) \<Rightarrow> Some (Inl f)
      | Some (Inr (u, c)) \<Rightarrow> Some (Inr ((), env c)))"

text \<open>\<open>start\<close> is the loop of \<open>Tcp_Server\<close>; \<open>mk\<close>, \<open>Coroutine::create\<close>, runs the call in a new coroutine.\<close>

definition http_server_start ::
    "nat \<Rightarrow> (bytes \<Rightarrow> bytes) \<Rightarrow> nat \<Rightarrow> 'e sys \<Rightarrow> 'e files \<Rightarrow> 'p http_parser \<Rightarrow> (('e, unit) call \<Rightarrow> 'e server \<Rightarrow> 'e server) \<Rightarrow>
     ('e, 'p) http_server \<Rightarrow> ('e server, bool) call" where
  "http_server_start m sha1 n sys fs hp mk srv w =
     server_loop m n sys (\<lambda>s. call_modify (mk (on_accept m sha1 n sys fs hp srv s))) (w\<lparr>srv_running := True\<rparr>)"

definition http_server_shutdown :: "'e server \<Rightarrow> bool \<times> 'e server" where
  "http_server_shutdown w = (True, w\<lparr>srv_running := False\<rparr>)"

section \<open>Looking up handlers\<close>

lemma strncasecmp_length:
  assumes "0 \<notin> set k"
  shows "strncasecmp_eq k p (length k) \<and> length k = length p \<longleftrightarrow> lowercase k = lowercase p"
  using assms strncasecmp_eq_lowercase [of k p] map_eq_imp_length_eq [of tolower k tolower p]
  unfolding lowercase_def by blast

lemma get_handler_none:
  "\<forall>(k', h) \<in> set hs. 0 \<notin> set k' \<and> lowercase k' \<noteq> lowercase p \<Longrightarrow> get_handler p hs = None"
  by (induction hs) (auto simp: strncasecmp_length)

text \<open>
  Patterns are looked up without regard to case. Setting a handler changes the answer for
  exactly the paths that equal its pattern up to case, as long as no other pattern does.
\<close>

theorem get_set_handler:
  assumes "0 \<notin> set k" and "\<forall>(k', h) \<in> set hs. 0 \<notin> set k' \<and> (lowercase k' = lowercase k \<longrightarrow> k' = k)"
  shows "get_handler p (set_handler k fn hs) = (if lowercase p = lowercase k then fn else get_handler p hs)"
  using assms
proof (induction hs)
  case Nil
  then show ?case by (simp add: set_handler_def strncasecmp_length eq_commute)
next
  case (Cons kh hs)
  obtain k' h where kh: "kh = (k', h)" by force
  have k': "0 \<notin> set k'" "lowercase k' = lowercase k \<Longrightarrow> k' = k" using Cons.prems kh by auto
  have "get_handler p (map_put k fn hs) = (if lowercase p = lowercase k then fn else get_handler p hs)"
    using Cons by (simp add: set_handler_def)
  then show ?case
    using k' Cons.prems(1) by (auto simp: kh set_handler_def strncasecmp_length)
qed

theorem get_set_handler_witness:
  "get_handler (str ''/Index'') (set_handler (str ''/index'') (Some 2) [(str ''/'', Some 1), (str ''/x'', None)]) = Some (2 :: nat)"
  using get_set_handler [of "str ''/index''" "[(str ''/'', Some 1), (str ''/x'', None)]" "str ''/Index''" "Some (2 :: nat)"]
  by (simp add: str_def lowercase_def tolower_def)

section \<open>Requests that the loop mishandles\<close>

text \<open>
  The path of a request is appended to the document root as it is. Whatever file that names,
  with \<open>..\<close> also one outside of the root, is sent when it exists.
\<close>

theorem static_file_not_confined:
  assumes "map_find (str ''document_root'') (settings srv) = Some droot"
    and "fs_stat fs (droot @ pth) (env c) = (ret, e)" and "0 \<le> ret" and "droot \<noteq> []"
  shows "serve_request sha1 n sys fs srv pth c =
    call_then (send_static_file n sys fs (droot @ pth)) (call_return True) (c\<lparr>env := e\<rparr>)"
  using assms by (simp add: serve_request_def get_document_absolute_path_def lift_env_def in_env_def call_on_def call_bind_def)

fun is_url :: "parser_event \<Rightarrow> bool" where
  "is_url (OnUrl p n) = True"
| "is_url _ = False"

lemma settings_keep_path:
  "list_all (\<lambda>ev. \<not> is_url ev) evs \<Longrightarrow> res_fold (parser_settings block) c evs = Inr c' \<Longrightarrow>
   path (request c') = path (request c)"
proof (induction evs arbitrary: c)
  case (Cons ev evs)
  obtain c1 where "parser_settings block c ev = Inr c1" "res_fold (parser_settings block) c1 evs = Inr c'"
    using Cons.prems(2) by (auto simp: res_bind_eq_Inr)
  moreover have "path (request c1) = path (request c)"
    using calculation(1) Cons.prems(1)
    by (cases ev) (auto simp: on_header_field_def on_header_value_def on_headers_complete_def on_body_def
        set_http_method_def set_http_version_def res_simps split: option.splits)
  ultimately show ?case using Cons by auto
qed simp

lemma Ctx_parse_keeps_path:
  assumes "Ctx_parse hp recved c = Inr c'"
    and "list_all (\<lambda>ev. \<not> is_url ev) (snd (http_parser_execute hp (parser c)
      (take (nat recved) (buf_data (fst (get_read_buf (conn c)))))))"
  shows "path (request c') = path (request c)"
proof -
  obtain b s where b: "get_read_buf (conn c) = (b, s)" by force
  obtain p evs where p: "http_parser_execute hp (parser c) (take (nat recved) (buf_data b)) = (p, evs)" by force
  have "res_fold (parser_settings (buf_data b)) (c\<lparr>conn := s, parser := p\<rparr>) evs = Inr c'"
    using assms(1) by (auto simp: Ctx_parse_def b p Let_def mem_read_def res_simps split: if_splits)
  then show ?thesis using settings_keep_path assms(2) by (fastforce simp: b p)
qed

lemma recv_request_returns:
  assumes "recv_request n sys c = Some (Inr (r, c'))"
  obtains b s bs e b' where "get_read_buf (conn c) = (b, s)" "co_recv n sys s READ_BUF_MAX_SIZE (env c) = Some (Inr ((r, bs), e))"
    "write_block b bs = Inr b'" "c' = c\<lparr>env := e, conn := s\<lparr>read_buf := Some b'\<rparr>\<rparr>"
proof -
  obtain b s where b: "get_read_buf (conn c) = (b, s)" by force
  obtain bs t where "in_env (co_recv n sys s READ_BUF_MAX_SIZE) (c\<lparr>conn := s\<rparr>) = Some (Inr ((r, bs), t))"
    and t: "\<exists>b'. write_block b bs = Inr b' \<and> c' = t\<lparr>conn := s\<lparr>read_buf := Some b'\<rparr>\<rparr>"
    using assms by (auto simp: recv_request_def b call_bind_returns call_then_def call_modify_def call_return_def
        res_case_returns)
  then obtain e where "co_recv n sys s READ_BUF_MAX_SIZE (env c) = Some (Inr ((r, bs), e))" "t = c\<lparr>env := e, conn := s\<rparr>"
    by (auto simp: in_env_def call_on_def split: option.splits sum.splits)
  with t show ?thesis using that b by auto
qed

lemma recv_request_same: "recv_request n sys c = Some (Inr (r, c')) \<Longrightarrow> same_messages c c'"
  by (elim recv_request_returns) (simp add: same_messages_def)


text \<open>For examples: a parser that reports the end of the headers and nothing else, and no files.\<close>

definition demo_parser :: "unit http_parser" where
  "demo_parser = \<lparr>http_parser_init = (), http_parser_execute = (\<lambda>p bs. (p, [OnHeadersComplete 1 1 1 True]))\<rparr>"

definition demo_files :: "demo files" where
  "demo_files = \<lparr>fs_stat = (\<lambda>_ e. (-1, e)), fs_open = (\<lambda>_ e. (-1, e)), fs_fstat = (\<lambda>_ e. ((-1, 0), e)),
     fs_sendfile = (\<lambda>_ _ _ e. (-1, e)), fs_close = (\<lambda>_ e. (0, e))\<rparr>"

definition demo_http :: "(demo, unit) http_server" where
  "demo_http = \<lparr>settings = [], http_handlers = [(str ''/'', Some (call_return ()))], websocket_handlers = []\<rparr>"

definition demo_half :: "(demo, unit) ctx" where
  "demo_half = Ctx_new \<lparr>blocked = 1, to_read = [13, 10], written = []\<rparr> demo_socket ()"

definition demo_docs :: "(demo, unit) http_server" where
  "demo_docs = demo_http\<lparr>settings := [(str ''document_root'', str ''/srv'')]\<rparr>"

theorem static_file_not_confined_witness:
  "serve_request (\<lambda>_. []) 2 demo_sys (demo_files\<lparr>fs_stat := \<lambda>_ e. (0, e)\<rparr>) demo_docs (str ''/../etc/passwd'') demo_half =
   call_then (send_static_file 2 demo_sys (demo_files\<lparr>fs_stat := \<lambda>_ e. (0, e)\<rparr>) (str ''/srv/../etc/passwd'')) (call_return True) demo_half"
proof -
  have "map_find (str ''document_root'') (settings demo_docs) = Some (str ''/srv'')" by (simp add: demo_docs_def)
  from static_file_not_confined [OF this, of "demo_files\<lparr>fs_stat := \<lambda>_ e. (0, e)\<rparr>" "str ''/../etc/passwd''" demo_half 0 "env demo_half"]
  show ?thesis by (simp add: str_def)
qed

end
