(* ===== verification/Http_Server_Termination.thy ===== *)
theory Http_Server_Termination
  imports Http_Server
begin

text \<open>
  That serving a connection ends: every part of a turn returns or faults, keeps the descriptor
  and gives back no input (\<open>calm\<close>), and a turn takes at least one byte of what the client sent.
\<close>

section \<open>The loop comes to an end\<close>

text \<open>
  A call that returns or faults when each of its system calls blocks at most \<open>n\<close> times
  (\<open>bud\<close> counts down), and that neither gives back input nor changes the descriptor; it may
  rely on less than \<open>l\<close> bytes of input being left.
\<close>

definition calm :: "('e \<Rightarrow> nat) \<Rightarrow> ('e \<Rightarrow> bytes) \<Rightarrow> nat \<Rightarrow> nat \<Rightarrow> int \<Rightarrow> (('e, 'p) ctx, 'a) call \<Rightarrow> bool" where
  "calm bud inc n l fd m \<longleftrightarrow>
     (\<forall>c. sock_fd (conn c) = fd \<and> bud (env c) < n \<and> length (inc (env c)) < l \<longrightarrow> m c \<noteq> None \<and>
        (\<forall>x c'. m c = Some (Inr (x, c')) \<longrightarrow> sock_fd (conn c') = fd \<and> bud (env c') \<le> bud (env c) \<and>
           length (inc (env c')) \<le> length (inc (env c))))"

lemma calm_bind:
  fixes m :: "(('e, 'p) ctx, 'a) call"
  assumes "calm bud inc n l fd m" and "\<And>x. calm bud inc n l fd (f x)"
  shows "calm bud inc n l fd (call_bind m f)"
  unfolding calm_def
proof (intro allI impI)
  fix c :: "('e, 'p) ctx"
  assume c: "sock_fd (conn c) = fd \<and> bud (env c) < n \<and> length (inc (env c)) < l"
  have m: "m c \<noteq> None" "\<And>x c'. m c = Some (Inr (x, c')) \<Longrightarrow> sock_fd (conn c') = fd \<and> bud (env c') \<le> bud (env c) \<and>
      length (inc (env c')) \<le> length (inc (env c))"
    using assms(1) c by (auto simp: calm_def)
  show "call_bind m f c \<noteq> None \<and> (\<forall>x c'. call_bind m f c = Some (Inr (x, c')) \<longrightarrow>
      sock_fd (conn c') = fd \<and> bud (env c') \<le> bud (env c) \<and> length (inc (env c')) \<le> length (inc (env c)))"
  proof (cases "m c")
    case (Some r)
    show ?thesis
    proof (cases r)
      case (Inr xc)
      obtain x1 c1 where xc: "xc = (x1, c1)" by force
      have e: "call_bind m f c = f x1 c1" using Some Inr xc by (simp add: call_bind_def)
      have c1: "sock_fd (conn c1) = fd" "bud (env c1) \<le> bud (env c)" "length (inc (env c1)) \<le> length (inc (env c))"
        using m(2) Some Inr xc by auto
      then have "sock_fd (conn c1) = fd \<and> bud (env c1) < n \<and> length (inc (env c1)) < l" using c by linarith
      then have "f x1 c1 \<noteq> None \<and> (\<forall>x c'. f x1 c1 = Some (Inr (x, c')) \<longrightarrow> sock_fd (conn c') = fd \<and>
          bud (env c') \<le> bud (env c1) \<and> length (inc (env c')) \<le> length (inc (env c1)))"
        using assms(2) unfolding calm_def by blast
      then show ?thesis unfolding e using c1 by (meson order_trans)
    qed (use Some in \<open>simp add: call_bind_def\<close>)
  qed (use m in simp)
qed

lemma calm_then: "calm bud inc n l fd m \<Longrightarrow> calm bud inc n l fd m' \<Longrightarrow> calm bud inc n l fd (call_then m m')"
  by (simp add: call_then_def calm_bind)

lemma calm_return: "calm bud inc n l fd (call_return x)" and calm_fault: "calm bud inc n l fd (call_fault e)"
  and calm_get: "calm bud inc n l fd (call_get g)" and calm_res: "calm bud inc n l fd (call_res r)"
  by (auto simp: calm_def call_defs split: sum.splits)

lemma calm_modify:
  "(\<And>c. env (g c) = env c \<and> sock_fd (conn (g c)) = sock_fd (conn c)) \<Longrightarrow> calm bud inc n l fd (call_modify g)"
  by (auto simp: calm_def call_modify_def)

lemma calm_in_env:
  assumes "\<And>e. bud e < n \<Longrightarrow> m e \<noteq> None"
    and "\<And>e x e'. bud e < n \<Longrightarrow> m e = Some (Inr (x, e')) \<Longrightarrow> bud e' \<le> bud e \<and> length (inc e') \<le> length (inc e)"
  shows "calm bud inc n l fd (in_env m)"
  using assms by (force simp: calm_def in_env_def call_on_def split: option.splits sum.splits)

lemma calm_with_write_buf: "calm bud inc n l fd (with_write_buf f)"
  by (auto simp: calm_def with_write_buf_def get_write_buf_def put_write_buf_def call_modify_def Let_def
      split: sum.splits option.splits)

lemmas calm_intros = calm_bind calm_then calm_return calm_fault calm_get calm_res calm_modify calm_with_write_buf

text \<open>
  What the loop needs of the system on descriptor \<open>fd\<close>: \<open>recv\<close> is a stream and answers \<open>-1\<close>
  for an error; nothing but \<open>recv\<close> takes input; a call that would block does so at most \<open>bud\<close> times.
\<close>

definition recv_once :: "'e sys \<Rightarrow> int \<Rightarrow> nat \<Rightarrow> 'e \<Rightarrow> (int \<times> bytes) \<times> 'e" where
  "recv_once sys fd len e = (case Socket_recv sys fd len e of ((r, bs), e) \<Rightarrow> ((to_int r, bs), e))"

definition calm_step :: "('e \<Rightarrow> nat) \<Rightarrow> ('e \<Rightarrow> bytes) \<Rightarrow> 'e \<Rightarrow> 'e \<Rightarrow> bool" where
  "calm_step bud inc e e' \<longleftrightarrow> bud e' \<le> bud e \<and> inc e' = inc e"

definition calm_sys :: "'e sys \<Rightarrow> ('e \<Rightarrow> nat) \<Rightarrow> ('e \<Rightarrow> bytes) \<Rightarrow> int \<Rightarrow> bool" where
  "calm_sys sys bud inc fd \<longleftrightarrow>
     recv_stream sys fd inc \<and> (\<forall>len e. -1 \<le> fst (fst (sys_recv sys fd len e))) \<and>
     (\<forall>bs e. inc (snd (sys_send sys fd bs e)) = inc e) \<and>
     (\<forall>how e. calm_step bud inc e (snd (sys_shutdown sys fd how e))) \<and>
     (\<forall>bs. patience sys (send_once sys fd bs) EAGAIN (sock_wait_event sys fd FSW_EVENT_WRITE) bud) \<and>
     (\<forall>len. patience sys (recv_once sys fd len) EAGAIN (sock_wait_event sys fd FSW_EVENT_READ) bud)"

definition calm_files :: "'e files \<Rightarrow> ('e \<Rightarrow> nat) \<Rightarrow> ('e \<Rightarrow> bytes) \<Rightarrow> bool" where
  "calm_files fs bud inc \<longleftrightarrow>
     (\<forall>f e. calm_step bud inc e (snd (fs_stat fs f e)) \<and> calm_step bud inc e (snd (fs_open fs f e))) \<and>
     (\<forall>d e. calm_step bud inc e (snd (fs_fstat fs d e)) \<and> calm_step bud inc e (snd (fs_close fs d e))) \<and>
     (\<forall>d d' sz e. calm_step bud inc e (snd (fs_sendfile fs d d' sz e)))"

lemma co_send_calm:
  assumes "calm_sys sys bud inc (sock_fd s)" and "bud e < n"
  shows "\<exists>r e'. co_send n sys s bs e = Some (Inr (r, e')) \<and> bud e' \<le> bud e \<and> inc e' = inc e"
proof -
  let ?wait = "sock_wait_event sys (sock_fd s) FSW_EVENT_WRITE"
  note c = assms(1) [unfolded calm_sys_def recv_stream_def]
  have w: "inc (snd (?wait e)) = inc e" for e by (rule wait_event_keeps) (use c in blast)+
  have s: "inc e1 = inc e" if "send_once sys (sock_fd s) bs e = ((r, x), e1)" for e r x e1
    using that c by (auto simp: send_once_def Socket_send_def split: prod.splits dest: sym) (metis snd_conv)
  have "\<exists>ret x e'. retry n sys (send_once sys (sock_fd s) bs) EAGAIN ?wait e = Some (Inr ((ret, x), e')) \<and>
      bud e' \<le> bud e \<and> inc e' = inc e \<and> (\<exists>e0 e1. inc e0 = inc e \<and> send_once sys (sock_fd s) bs e0 = ((ret, x), e1) \<and>
        \<not> (ret < 0 \<and> sys_errno sys e1 = EAGAIN \<and> fst (?wait e1)))"
    by (rule retry_returns [where I = "\<lambda>e'. inc e' = inc e" and Q = "\<lambda>_ _ e'. inc e' = inc e"])
      (use c w s assms(2) in auto)
  moreover have "send_once sys (sock_fd s) bs = (\<lambda>e. case Socket_send sys (sock_fd s) bs e of (r, e) \<Rightarrow> ((to_int r, ()), e))"
    by (simp add: send_once_def fun_eq_iff)
  ultimately show ?thesis by (auto simp: co_send_def call_bind_def call_return_def)
qed

lemma calm_send_response:
  assumes "calm_sys sys bud inc fd"
  shows "calm bud inc n l fd (send_response n sys)"
  unfolding calm_def
proof (intro allI impI)
  fix c :: "('a, 'b) ctx" assume c: "sock_fd (conn c) = fd \<and> bud (env c) < n \<and> length (inc (env c)) < l"
  obtain b s where b: "get_write_buf (conn c) = (b, s)" by force
  then have s: "sock_fd s = fd" using c by (auto simp: get_write_buf_def Let_def split: option.splits)
  have "in_env (co_send n sys s bs) (c\<lparr>conn := s\<rparr>) \<noteq> None \<and>
      (\<forall>x c'. in_env (co_send n sys s bs) (c\<lparr>conn := s\<rparr>) = Some (Inr (x, c')) \<longrightarrow>
        sock_fd (conn c') = fd \<and> bud (env c') \<le> bud (env c) \<and> length (inc (env c')) \<le> length (inc (env c)))" for bs
    using co_send_calm [of sys bud inc s "env c" n bs] assms c s by (auto simp: in_env_def call_on_def)
  then show "send_response n sys c \<noteq> None \<and> (\<forall>x c'. send_response n sys c = Some (Inr (x, c')) \<longrightarrow>
      sock_fd (conn c') = fd \<and> bud (env c') \<le> bud (env c) \<and> length (inc (env c')) \<le> length (inc (env c)))"
    by (simp add: send_response_def b split: sum.splits)
qed

lemma calm_Response_end: "calm_sys sys bud inc fd \<Longrightarrow> calm bud inc n l fd (Response_end n sys bd sz)"
  unfolding Response_end_def clear_write_buf_def
  by (intro calm_intros calm_send_response) (auto split: option.split prod.split intro!: calm_intros calm_send_response)

lemma calm_lift_env:
  assumes "\<And>e. calm_step bud inc e (snd (f e))"
  shows "calm bud inc n l fd (lift_env f)"
  unfolding lift_env_def by (rule calm_in_env) (use assms in \<open>auto simp: calm_step_def\<close>, (metis snd_conv eq_refl)+)

lemma calm_set: "calm bud inc n l fd (call_modify (set_status st))" "calm bud inc n l fd (call_modify (set_resp_header k v))"
  by (rule calm_modify; simp add: set_status_def set_resp_header_def)+

lemmas calm_http = calm_intros calm_Response_end calm_lift_env calm_set

lemma calm_bad_request: "calm_sys sys bud inc fd \<Longrightarrow> calm bud inc n l fd (send_bad_request_response n sys t)"
  and calm_not_found: "calm_sys sys bud inc fd \<Longrightarrow> calm bud inc n l fd (send_not_found_response n sys)"
  unfolding send_bad_request_response_def send_not_found_response_def by (intro calm_http; assumption)+

lemma calm_upgrade: "calm_sys sys bud inc fd \<Longrightarrow> calm bud inc n l fd (upgrade sha1 n sys)"
  unfolding upgrade_def check_websocket_upgrade_def
  by (intro calm_http) (auto intro!: calm_http calm_bad_request)

lemma calm_static:
  assumes "calm_sys sys bud inc fd" and "calm_files fs bud inc"
  shows "calm bud inc n l fd (send_static_file n sys fs f)"
  using assms unfolding send_static_file_def calm_files_def
  by (intro calm_http) (auto intro!: calm_http split: prod.split)

lemma get_handler_in: "get_handler p hs = Some h \<Longrightarrow> \<exists>k. (k, Some h) \<in> set hs"
  by (induction hs) (auto split: if_splits)

definition calm_handlers :: "('e, 'p) http_server \<Rightarrow> ('e \<Rightarrow> nat) \<Rightarrow> ('e \<Rightarrow> bytes) \<Rightarrow> nat \<Rightarrow> int \<Rightarrow> bool" where
  "calm_handlers srv bud inc n fd \<longleftrightarrow>
     (\<forall>k h. (k, Some h) \<in> set (http_handlers srv) \<union> set (websocket_handlers srv) \<longrightarrow> (\<forall>l. calm bud inc n l fd h))"

lemma calm_serve:
  assumes "calm_sys sys bud inc fd" and "calm_files fs bud inc" and "calm_handlers srv bud inc n fd"
  shows "calm bud inc n l fd (serve_request sha1 n sys fs srv p)"
proof -
  have h: "calm bud inc n l fd h" if "get_http_handler p srv = Some h \<or> get_websocket_handler p srv = Some h" for h
    using that assms(3) get_handler_in unfolding calm_handlers_def get_http_handler_def get_websocket_handler_def by fastforce
  have d: "calm_step bud inc e (snd (get_document_absolute_path fs (settings srv) p e))" for e
    using assms(2) by (auto simp: get_document_absolute_path_def calm_files_def calm_step_def split: option.split prod.split)
      (metis snd_conv)+
  show ?thesis
    unfolding serve_request_def call_http_handler_def call_websocket_handler_def
    by (intro calm_bind calm_lift_env d)
      (auto intro!: calm_http calm_static calm_bad_request calm_not_found calm_upgrade assms intro: h split: option.split)
qed


lemma co_recv_calm:
  assumes "calm_sys sys bud inc (sock_fd s)" and "bud e < n" and "len < 2 ^ 31"
  shows "\<exists>r bs e'. co_recv n sys s len e = Some (Inr ((r, bs), e')) \<and> bud e' \<le> bud e \<and> inc e = bs @ inc e' \<and>
    (r = int (length bs) \<or> r < 0 \<and> bs = [])"
proof -
  let ?wait = "sock_wait_event sys (sock_fd s) FSW_EVENT_READ"
  note c = assms(1) [unfolded calm_sys_def recv_stream_def]
  have w: "inc (snd (?wait e)) = inc e" for e by (rule wait_event_keeps) (use c in blast)+
  have s: "inc e = bs @ inc e1 \<and> (r = int (length bs) \<or> r < 0 \<and> bs = [])"
    if once: "recv_once sys (sock_fd s) len e = ((r, bs), e1)" for e r bs e1
  proof -
    obtain r0 where r0: "sys_recv sys (sock_fd s) len e = ((r0, bs), e1)" "r = to_int r0"
      using once by (auto simp: recv_once_def Socket_recv_def split: prod.splits)
    have "r0 \<le> int len" "-1 \<le> r0" using c r0(1) by (blast, metis fst_conv)
    then have "r = r0" using assms(3) r0(2) by (simp add: to_int_small)
    then show ?thesis using c r0(1) by (cases "0 \<le> r0") auto
  qed
  have "\<exists>ret x e'. retry n sys (recv_once sys (sock_fd s) len) EAGAIN ?wait e = Some (Inr ((ret, x), e')) \<and>
      bud e' \<le> bud e \<and> (inc e = x @ inc e' \<and> (ret = int (length x) \<or> ret < 0 \<and> x = [])) \<and>
      (\<exists>e0 e1. inc e0 = inc e \<and> recv_once sys (sock_fd s) len e0 = ((ret, x), e1) \<and>
        \<not> (ret < 0 \<and> sys_errno sys e1 = EAGAIN \<and> fst (?wait e1)))"
  proof (rule retry_returns [where I = "\<lambda>e'. inc e' = inc e" and
        Q = "\<lambda>ret x e'. inc e = x @ inc e' \<and> (ret = int (length x) \<or> ret < 0 \<and> x = [])"])
    show "patience sys (recv_once sys (sock_fd s) len) EAGAIN ?wait bud" using c by blast
  qed (use w s assms(2) in \<open>fastforce+\<close>)
  moreover have "recv_once sys (sock_fd s) len = (\<lambda>e. case Socket_recv sys (sock_fd s) len e of ((r, bs), e) \<Rightarrow> ((to_int r, bs), e))"
    by (simp add: recv_once_def fun_eq_iff)
  ultimately show ?thesis by (auto simp: co_recv_def)
qed

lemma recv_request_calm:
  assumes "calm_sys sys bud inc fd" and "sock_fd (conn c) = fd" and "bud (env c) < n"
  shows "recv_request n sys c \<noteq> None"
    and "recv_request n sys c = Some (Inr (r, c')) \<Longrightarrow> sock_fd (conn c') = fd \<and> bud (env c') \<le> bud (env c) \<and>
      length (inc (env c')) + nat r \<le> length (inc (env c)) \<and> read_buf (conn c') \<noteq> None"
proof -
  obtain b s where b: "get_read_buf (conn c) = (b, s)" by force
  then have s: "sock_fd s = fd" using assms(2) by (auto simp: get_read_buf_def Let_def split: option.splits)
  have *: "\<exists>r bs e'. co_recv n sys s READ_BUF_MAX_SIZE (env c) = Some (Inr ((r, bs), e')) \<and> bud e' \<le> bud (env c) \<and>
      inc (env c) = bs @ inc e' \<and> (r = int (length bs) \<or> r < 0 \<and> bs = [])"
    by (rule co_recv_calm) (use assms s in \<open>simp_all add: READ_BUF_MAX_SIZE_def\<close>)
  then show "recv_request n sys c \<noteq> None"
    by (auto simp: recv_request_def b in_env_def call_on_def call_bind_def call_defs split: sum.splits)
  assume "recv_request n sys c = Some (Inr (r, c'))"
  then show "sock_fd (conn c') = fd \<and> bud (env c') \<le> bud (env c) \<and> length (inc (env c')) + nat r \<le> length (inc (env c)) \<and>
      read_buf (conn c') \<noteq> None"
    by (rule recv_request_returns) (use * b s in auto)
qed


lemma settings_keep_env: "parser_settings block a ev = Inr b \<Longrightarrow> env b = env a \<and> conn b = conn a"
  by (cases ev) (auto simp: on_url_def on_header_field_def on_header_value_def on_headers_complete_def on_body_def
      res_simps split: option.splits)

lemma settings_fold_keep_env: "res_fold (parser_settings block) a evs = Inr b \<Longrightarrow> env b = env a \<and> conn b = conn a"
  by (induction evs arbitrary: a) (auto simp: res_simps dest: settings_keep_env)

lemma Ctx_parse_keeps:
  assumes "Ctx_parse hp recved c = Inr c'"
  shows "env c' = env c \<and> sock_fd (conn c') = sock_fd (conn c) \<and> 0 \<le> recved \<and> read_buf (conn c') \<noteq> None"
proof -
  obtain b s where b: "get_read_buf (conn c) = (b, s)" by force
  obtain p evs where p: "http_parser_execute hp (parser c) (take (nat recved) (buf_data b)) = (p, evs)" by force
  have "0 \<le> recved" "res_fold (parser_settings (buf_data b)) (c\<lparr>conn := s, parser := p\<rparr>) evs = Inr c'"
    using assms by (auto simp: Ctx_parse_def b p Let_def mem_read_def res_simps split: if_splits)
  then show ?thesis
    using b by (auto simp: get_read_buf_def Let_def dest!: settings_fold_keep_env split: option.splits)
qed

lemma parse_request_ends:
  assumes "calm bud inc n l fd m" and "sock_fd (conn c) = fd" and "bud (env c) < n" and "length (inc (env c)) + nat recved \<le> l"
    and "recved \<noteq> 0"
  shows "call_then (parse_request hp recved) m c \<noteq> None"
    and "call_then (parse_request hp recved) m c = Some (Inr (x, c')) \<Longrightarrow>
      sock_fd (conn c') = fd \<and> bud (env c') \<le> bud (env c) \<and> length (inc (env c')) \<le> length (inc (env c))"
proof -
  have "call_then (parse_request hp recved) m c \<noteq> None \<and> (\<forall>x c'. call_then (parse_request hp recved) m c = Some (Inr (x, c')) \<longrightarrow>
      sock_fd (conn c') = fd \<and> bud (env c') \<le> bud (env c) \<and> length (inc (env c')) \<le> length (inc (env c)))"
  proof (cases "Ctx_parse hp recved c")
    case (Inl f)
    then show ?thesis by (simp add: call_then_def call_bind_def parse_request_def)
  next
    case (Inr c1)
    note k = Ctx_parse_keeps [OF Inr]
    have "call_then (parse_request hp recved) m c = m c1"
      using Inr by (simp add: call_then_def call_bind_def parse_request_def)
    moreover have "sock_fd (conn c1) = fd \<and> bud (env c1) < n \<and> length (inc (env c1)) < l"
      using k assms(2-5) by auto
    then have "m c1 \<noteq> None \<and> (\<forall>x c'. m c1 = Some (Inr (x, c')) \<longrightarrow> sock_fd (conn c') = fd \<and>
        bud (env c') \<le> bud (env c1) \<and> length (inc (env c')) \<le> length (inc (env c1)))"
      using assms(1) unfolding calm_def by blast
    ultimately show ?thesis using k by simp
  qed
  then show "call_then (parse_request hp recved) m c \<noteq> None"
    and "call_then (parse_request hp recved) m c = Some (Inr (x, c')) \<Longrightarrow>
      sock_fd (conn c') = fd \<and> bud (env c') \<le> bud (env c) \<and> length (inc (env c')) \<le> length (inc (env c))" by blast+
qed

lemma accept_loop_calm:
  assumes "calm_sys sys bud inc fd" and "calm_files fs bud inc" and "calm_handlers srv bud inc n fd"
  shows "calm bud inc n k fd (accept_loop k sha1 n sys fs hp srv)"
proof (induction k)
  case 0
  then show ?case by (simp add: calm_def)
next
  case (Suc k)
  have clear: "calm bud inc n k fd (call_modify Ctx_clear)" by (rule calm_modify) (simp add: Ctx_clear_def)
  let ?tail = "call_bind (call_get (\<lambda>c. path (request c))) (\<lambda>p. case p of
         None \<Rightarrow> call_fault NullPointer
       | Some bs \<Rightarrow>
           call_bind (serve_request sha1 n sys fs srv (from_c_str bs)) (\<lambda>more.
           if \<not> more then call_return ()
           else call_bind (call_get keep_alive) (\<lambda>ka. case ka of
              None \<Rightarrow> call_fault Uninitialised
            | Some ka \<Rightarrow>
                if \<not> ka then call_return ()
                else call_then (call_modify Ctx_clear) (accept_loop k sha1 n sys fs hp srv))))"
  have tail: "calm bud inc n k fd ?tail"
    by (intro calm_bind calm_get) (auto intro!: calm_bind calm_then calm_get calm_return calm_fault calm_serve assms clear Suc
        split: option.split)
  show ?case
    unfolding calm_def
  proof (intro allI impI)
    fix c :: "('a, 'b) ctx"
    assume c: "sock_fd (conn c) = fd \<and> bud (env c) < n \<and> length (inc (env c)) < Suc k"
    note r = recv_request_calm [OF assms(1), of c n]
    show "accept_loop (Suc k) sha1 n sys fs hp srv c \<noteq> None \<and>
        (\<forall>u c'. accept_loop (Suc k) sha1 n sys fs hp srv c = Some (Inr (u, c')) \<longrightarrow>
          sock_fd (conn c') = fd \<and> bud (env c') \<le> bud (env c) \<and> length (inc (env c')) \<le> length (inc (env c)))"
    proof (cases "\<exists>recved c1. recv_request n sys c = Some (Inr (recved, c1))")
      case False
      then show ?thesis using r(1) c by (auto simp: call_bind_def split: option.splits sum.splits)
    next
      case True
      then obtain recved c1 where rc: "recv_request n sys c = Some (Inr (recved, c1))" by blast
      note c1 = r(2) [OF _ _ rc]
      have e: "accept_loop (Suc k) sha1 n sys fs hp srv c =
          (if recved = 0 then call_return () c1 else call_then (parse_request hp recved) ?tail c1)"
        using rc by (simp add: call_bind_cong)
      show ?thesis
        unfolding e
        using parse_request_ends [OF tail, of c1 recved hp] c1 c by (auto simp: call_return_def)
    qed
  qed
qed

lemma check_client_close_ends:
  assumes "calm_sys sys bud inc (sock_fd s)"
  shows "bud e < n \<Longrightarrow> length (inc e) < k \<Longrightarrow> check_client_close k n sys s e \<noteq> None"
proof (induction k arbitrary: e)
  case (Suc k)
  obtain r bs e' where r: "co_recv n sys s READ_BUF_MAX_SIZE e = Some (Inr ((r, bs), e'))" "bud e' \<le> bud e"
    "inc e = bs @ inc e'" "r = int (length bs) \<or> r < 0 \<and> bs = []"
    using co_recv_calm [OF assms Suc.prems(1), of READ_BUF_MAX_SIZE] by (auto simp: READ_BUF_MAX_SIZE_def)
  then show ?case using Suc.IH [of e'] Suc.prems by (auto simp: call_bind_cong call_fault_def call_return_def)
qed simp

lemma Ctx_delete_ends:
  assumes "calm_sys sys bud inc fd" and "sock_fd (conn c) = fd" and "bud (env c) < n" and "length (inc (env c)) < k"
  shows "Ctx_delete k n sys c \<noteq> None"
proof -
  let ?e = "snd (co_shutdown sys (conn c) SHUT_WR (env c))"
  have "?e = snd (sys_shutdown sys fd SHUT_WR (env c))"
    using assms(2) by (simp add: co_shutdown_def err_unless_def Socket_shutdown_def ok_call_def split: prod.split)
  then have "calm_step bud inc (env c) ?e" using assms(1) by (simp add: calm_sys_def)
  then have "check_client_close k n sys (conn c) ?e \<noteq> None"
    using assms by (intro check_client_close_ends [of sys bud inc]) (auto simp: calm_step_def)
  then show ?thesis
    by (auto simp: Ctx_delete_def in_env_def call_on_def call_then_def call_bind_def call_modify_def call_get_def
        split: option.splits sum.splits)
qed

text \<open>
  C26: serving a connection comes to an end. When the client sends a finite number of bytes and then
  closes, the handlers end and blocking calls are woken up, the coroutine of the connection ends (or
  the process does): the loop takes at most one turn per byte, and so does the one that drains the
  connection when the context is deleted.
\<close>

theorem on_accept_terminates:
  assumes "calm_sys sys bud inc (sock_fd s)" and "calm_files fs bud inc" and "calm_handlers srv bud inc (Suc (bud e)) (sock_fd s)"
  shows "\<exists>r. on_accept (Suc (length (inc e))) sha1 (Suc (bud e)) sys fs hp srv s e = Some r"
proof -
  let ?k = "Suc (length (inc e))" and ?n = "Suc (bud e)" and ?c = "Ctx_new e s (http_parser_init hp)"
  let ?r = "accept_loop ?k sha1 ?n sys fs hp srv ?c"
  have c: "sock_fd (conn ?c) = sock_fd s" "env ?c = e" by (simp_all add: Ctx_new_def)
  have "?r \<noteq> None \<and> (\<forall>u c'. ?r = Some (Inr (u, c')) \<longrightarrow>
      sock_fd (conn c') = sock_fd s \<and> bud (env c') \<le> bud e \<and> length (inc (env c')) \<le> length (inc e))"
    using accept_loop_calm [OF assms, of ?k sha1 hp, unfolded calm_def, THEN spec, of ?c] unfolding c
    by (simp only: lessI simp_thms) blast
  moreover have "Ctx_delete ?k ?n sys c' \<noteq> None"
    if "sock_fd (conn c') = sock_fd s" "bud (env c') \<le> bud e" "length (inc (env c')) \<le> length (inc e)" for c' :: "('a, 'b) ctx"
    using that by (intro Ctx_delete_ends [OF assms(1)]) auto
  ultimately have "\<exists>r. call_then (accept_loop ?k sha1 ?n sys fs hp srv) (Ctx_delete ?k ?n sys) ?c = Some r"
    unfolding call_then_def call_bind_def by (cases ?r rule: option_res_cases) (simp_all del: accept_loop.simps)
  then obtain r where "call_then (accept_loop ?k sha1 ?n sys fs hp srv) (Ctx_delete ?k ?n sys) ?c = Some r" ..
  then show ?thesis unfolding on_accept_def by (cases r) (simp_all del: accept_loop.simps split: prod.split)
qed

lemma demo_calm_sys: "calm_sys demo_sys blocked to_read fd"
proof -
  have "-1 \<le> fst (fst (sys_recv demo_sys fd len e))" "to_read (snd (sys_send demo_sys fd bs e)) = to_read e"
    "calm_step blocked to_read e (snd (sys_shutdown demo_sys fd how e))" for len bs how e
    by (auto simp: demo_sys_def Let_def calm_step_def)
  moreover have "patience demo_sys (recv_once demo_sys fd len) EAGAIN (sock_wait_event demo_sys fd ev) blocked" for len ev
    unfolding patience_def demo_wait
    by (auto simp: recv_once_def Socket_recv_def demo_sys_def Let_def EAGAIN_def to_int_def split: if_splits)
  ultimately show ?thesis by (simp add: calm_sys_def demo_recv_stream demo_send_once_patience)
qed

theorem on_accept_terminates_witness:
  "\<exists>r. on_accept 3 (\<lambda>_. []) 2 demo_sys demo_files demo_parser demo_http demo_socket
     \<lparr>blocked = 1, to_read = [13, 10], written = []\<rparr> = Some r"
proof -
  have "calm_files demo_files blocked to_read" by (simp add: calm_files_def demo_files_def calm_step_def)
  moreover have "calm_handlers demo_http blocked to_read n fd" for n fd
    by (simp add: calm_handlers_def demo_http_def calm_return)
  ultimately show ?thesis
    using on_accept_terminates [OF demo_calm_sys, of demo_files demo_http "\<lparr>blocked = 1, to_read = [13, 10], written = []\<rparr>"
        demo_socket "\<lambda>_. []" demo_parser]
    by (simp add: numeral_2_eq_2 numeral_3_eq_3 del: accept_loop.simps)
qed

end
