(* ===== verification/Websocket_Exchange.thy ===== *)
theory Websocket_Exchange
  imports Http_Handshake
begin

text \<open>
  A WebSocket connection after its handshake: what \<open>recv_frame\<close> of
  \<open>src/coroutine/http/http.cc\<close> makes of the bytes of a frame, and which bytes \<open>send_frame\<close> sends.
\<close>

section \<open>Receiving a frame\<close>

text \<open>
  The read buffer of a connection is the one its socket allocates. \<open>recv\<close> writes into its block without
  its knowledge, so that the byte behind its contents need not be NUL.
\<close>

definition buf_room :: "buffer \<Rightarrow> bool" where
  "buf_room b \<longleftrightarrow> buf_size b \<noteq> -1 \<and> length (buf_data b) = Suc (buf_cap b) \<and> buf_length b \<le> buf_size b"

lemma wf_room: "buf_wf b \<Longrightarrow> buf_room b"
  by (simp add: buf_wf_def buf_room_def buf_cap_def)

lemma Buffer_clear_room:
  "buf_room b \<Longrightarrow> \<exists>b'. Buffer_clear b = Inr b' \<and> buf_wf b' \<and> buf_contents b' = [] \<and> buf_cap b' = buf_cap b"
  by (cases "buf_data b") (auto simp: Buffer_clear_def mem_write_def buf_wf_def buf_room_def buf_contents_def buf_cap_def)

definition reading_ok :: "co_socket \<Rightarrow> bool" where
  "reading_ok s \<longleftrightarrow> (\<forall>b. read_buf s = Some b \<longrightarrow> buf_room b \<and> buf_cap b = READ_BUF_MAX_SIZE)"

lemma get_read_buf_ok:
  assumes "reading_ok s"
  shows "\<exists>b. get_read_buf s = (b, s\<lparr>read_buf := Some b\<rparr>) \<and> buf_room b \<and> buf_cap b = READ_BUF_MAX_SIZE"
proof (cases "read_buf s")
  case None
  have "buf_wf (Buffer_new 0 (of_nat READ_BUF_MAX_SIZE))"
    by (rule Buffer_new_wf) (simp add: READ_BUF_MAX_SIZE_def)
  with None show ?thesis by (simp add: get_read_buf_def Let_def READ_BUF_MAX_SIZE_def wf_room)
next
  case (Some b)
  moreover from this have "s\<lparr>read_buf := Some b\<rparr> = s" by simp
  ultimately show ?thesis using assms by (simp add: get_read_buf_def reading_ok_def)
qed

lemma recv_frame_decodes:
  assumes "reading_ok (conn c)" and "length key = 4"
    and "length (rfc_frame final op (Some key) msg) \<le> READ_BUF_MAX_SIZE"
    and "co_recv n sys (conn c) READ_BUF_MAX_SIZE (env c) =
      Some (Inr ((int (length (rfc_frame final op (Some key) msg)), rfc_frame final op (Some key) msg), e))"
  shows "\<exists>f' rb. recv_frame n sys f c = Some (Inr (f', c\<lparr>env := e, conn := (conn c)\<lparr>read_buf := Some rb\<rparr>\<rparr>)) \<and>
    ws_header f' = rfc_header final op True (length msg) \<and> ws_frame.payload_length f' = of_nat (length msg) \<and>
    mem_read (buf_data rb) (ws_payload f') (length msg) = Inr msg"
proof -
  let ?fr = "rfc_frame final op (Some key) msg"
  obtain b where b: "get_read_buf (conn c) = (b, (conn c)\<lparr>read_buf := Some b\<rparr>)" "buf_room b" "buf_cap b = READ_BUF_MAX_SIZE"
    using get_read_buf_ok [OF assms(1)] by blast
  obtain b1 where b1: "Buffer_clear b = Inr b1" "buf_wf b1" "buf_contents b1 = []" "buf_cap b1 = READ_BUF_MAX_SIZE"
    using Buffer_clear_room [OF b(2)] b(3) by auto
  let ?m = "Buffer_new 1 (of_nat READ_BUF_MAX_SIZE)"
  have lm: "length (buf_data ?m) = 1025" by (simp add: Buffer_new_def READ_BUF_MAX_SIZE_def)
  have w: "write_block ?m ?fr = Inr (?m\<lparr>buf_data := ?fr @ drop (length ?fr) (buf_data ?m)\<rparr>)"
    using assms(3) lm by (simp add: write_block_def mem_write_def READ_BUF_MAX_SIZE_def)
  have "unat (of_nat (length ?fr) :: u64) = length ?fr"
    using assms(3) by (simp add: unat_of_nat READ_BUF_MAX_SIZE_def)
  then have "append_chars b1 (?fr @ drop (length ?fr) (buf_data ?m)) (of_nat (length ?fr)) = append_chars b1 ?fr (of_nat (length ?fr))"
    by (intro append_chars_cong) auto
  then have "append_chars b1 (?fr @ drop (length ?fr) (buf_data ?m)) (of_nat (length ?fr)) = append_string b1 ?fr"
    by (simp only: append_chars_all)
  moreover obtain b2 where b2: "append_string b1 ?fr = Inr b2" "buf_wf b2" "buf_contents b2 = ?fr"
    using append_string_fits [OF b1(2), of ?fr] b1(3,4) assms(3) by auto
  ultimately have app: "append_chars b1 (?fr @ drop (length ?fr) (buf_data ?m)) (word_of_int (int (length ?fr))) = Inr b2" by simp
  have r: "buf_data b2 = ?fr @ drop (unat (buf_length b2)) (buf_data b2)"
    using b2(3) unfolding buf_contents_def by (metis append_take_drop_id)
  have "length msg < 2 ^ 64"
    using assms(3) by (auto simp: rfc_frame_def READ_BUF_MAX_SIZE_def split: prod.splits)
  then obtain f' rb where d: "ws_decode b2 f = Inr (f', rb)" "ws_header f' = rfc_header final op True (length msg)"
    "ws_frame.payload_length f' = of_nat (length msg)" "mem_read (buf_data rb) (ws_payload f') (length msg) = Inr msg"
    using ws_decode_rfc [OF _ _ r, of f] assms(2) by auto
  have "co_recv n sys ((conn c)\<lparr>read_buf := Some b\<rparr>) READ_BUF_MAX_SIZE (env c) = Some (Inr ((int (length ?fr), ?fr), e))"
    using assms(4) by (simp add: co_recv_fd [of "(conn c)\<lparr>read_buf := Some b\<rparr>" "conn c"])
  then have "recv_frame n sys f c = Some (Inr (f', c\<lparr>env := e, conn := (conn c)\<lparr>read_buf := Some rb\<rparr>\<rparr>))"
    using b(1) b1(1) w app d(1) by (simp add: recv_frame_def call_bind_def call_res_def in_env_def call_on_def call_then_def
        call_modify_def call_return_def)
  with d show ?thesis by blast
qed

section \<open>Sending a frame\<close>

lemma send_frame_sends:
  assumes "conn_ok (conn c)" and "buf_wf d" and "fr = rfc_frame (odd (unat finish)) (unat op) None (buf_contents d)"
    and "length (buf_contents d) + 10 < 2 ^ 64"
  shows "if length fr \<le> WRITE_BUF_MAX_SIZE
    then \<exists>b. send_frame n sys d op finish c =
        (case co_send n sys (conn c) fr (env c) of
           None \<Rightarrow> None
         | Some (Inl e) \<Rightarrow> Some (Inl e)
         | Some (Inr (_, e)) \<Rightarrow> Some (Inr ((), c\<lparr>env := e, conn := (conn c)\<lparr>write_buf := Some b\<rparr>\<rparr>)))
    else send_frame n sys d op finish c = Some (Inl ExitError)"
proof -
  obtain b where b: "clear_write_buf c = Some (Inr ((), c\<lparr>conn := (conn c)\<lparr>write_buf := Some b\<rparr>\<rparr>))"
    "buf_wf b" "buf_cap b = WRITE_BUF_MAX_SIZE" "buf_contents b = []"
    using clear_write_buf_ok [OF assms(1)] by blast
  have x: "case ws_encode b d op finish of Inr b' \<Rightarrow> buf_wf b' \<and> buf_cap b' = buf_cap b \<and> buf_contents b' = fr
    | Inl e \<Rightarrow> e = ExitError \<and> buf_cap b < length fr"
    using ws_encode_rfc [OF b(2) assms(2), of finish op] assms(3,4) b(4) by (auto split: sum.splits)
  show ?thesis
  proof (cases "ws_encode b d op finish")
    case (Inl e)
    then show ?thesis using x b(1,3) by (simp add: send_frame_def call_then_def call_bind_def)
  next
    case (Inr b')
    then have b': "buf_wf b'" "buf_cap b' = WRITE_BUF_MAX_SIZE" "buf_contents b' = fr" using x b(3) by simp_all
    then have "length fr \<le> WRITE_BUF_MAX_SIZE" using buf_wf_length [OF b'(1)] length_contents [OF b'(1)] by simp
    moreover have "send_frame n sys d op finish c = (case co_send n sys (conn c) fr (env c) of
           None \<Rightarrow> None | Some (Inl e) \<Rightarrow> Some (Inl e)
         | Some (Inr (_, e)) \<Rightarrow> Some (Inr ((), c\<lparr>env := e, conn := (conn c)\<lparr>write_buf := Some b'\<rparr>\<rparr>)))"
      using b(1) Inr b' by (auto simp: send_frame_def call_then_def call_bind_def send_response_eq in_env_def call_on_def
          call_return_def split: option.splits sum.splits)
    ultimately show ?thesis by auto
  qed
qed

end
