(* ===== verification/Http_Connection.thy ===== *)
theory Http_Connection
  imports Http_Server_Termination Websocket_Exchange
begin

text \<open>
  A connection of the HTTP server from its first byte to its last: its buffers stay well-formed whatever is
  received and sent, and a request that was sent reaches the handler of its path.
\<close>

section \<open>The buffers of a connection\<close>

text \<open>Both buffers, once there, are of the size their socket gives them.\<close>

definition ctx_ok :: "('e, 'p) ctx \<Rightarrow> bool" where
  "ctx_ok c \<longleftrightarrow> conn_ok (conn c) \<and> reading_ok (conn c)"

lemma ctx_ok_cong: "conn c' = conn c \<Longrightarrow> ctx_ok c \<Longrightarrow> ctx_ok c'"
  by (simp add: ctx_ok_def)

text \<open>An operation on a buffer that fails or keeps its invariant and its capacity.\<close>

definition buf_op :: "(buffer \<Rightarrow> buffer res) \<Rightarrow> bool" where
  "buf_op f \<longleftrightarrow> (\<forall>b b'. buf_wf b \<longrightarrow> f b = Inr b' \<longrightarrow> buf_wf b' \<and> buf_cap b' = buf_cap b)"

lemma buf_op_append: "buf_op (\<lambda>b. append_chars b s len)" "buf_op (\<lambda>b. append_string b t)" "buf_op (\<lambda>b. append_int b v)"
    "buf_op (\<lambda>b. append_buffer b d)"
  using append_chars_wf by (auto simp: buf_op_def append_string_def append_int_def append_buffer_def)

lemma buf_op_Inr: "buf_op Inr"
  by (simp add: buf_op_def)

lemma buf_op_clear: "buf_op Buffer_clear"
  unfolding buf_op_def using Buffer_clear_wf by (metis sum.inject(2))

lemmas buf_op_basic = buf_op_Inr buf_op_clear

lemma buf_op_bind: "buf_op f \<Longrightarrow> buf_op g \<Longrightarrow> buf_op (\<lambda>b. res_bind (f b) g)"
  unfolding buf_op_def res_bind_eq_Inr by metis

lemma buf_op_fold: "(\<And>x. buf_op (\<lambda>b. f b x)) \<Longrightarrow> buf_op (\<lambda>b. res_fold f b xs)"
proof (induction xs)
  case Nil
  then show ?case by (simp add: buf_op_basic)
next
  case (Cons x xs)
  then show ?case using buf_op_bind [of "\<lambda>b. f b x" "\<lambda>b. res_fold f b xs"] by simp
qed

lemma buf_op_if: "buf_op f \<Longrightarrow> buf_op g \<Longrightarrow> buf_op (\<lambda>b. if P then f b else g b)"
  by (cases P) simp_all

lemmas buf_op_intros = buf_op_append buf_op_basic buf_op_bind buf_op_fold buf_op_if

lemma buf_op_http: "buf_op (build_http_status_line st)" "buf_op (\<lambda>b. append_header b h)" "buf_op (build_http_header ka hs len)"
    "buf_op (build_http_body bd)"
proof -
  show *: "buf_op (\<lambda>b. append_header b h)" for h unfolding append_header_def by (intro buf_op_intros)
  show "buf_op (build_http_status_line st)" unfolding build_http_status_line_def [abs_def] by (intro buf_op_intros)
  show "buf_op (build_http_header ka hs len)" unfolding build_http_header_def [abs_def] by (intro buf_op_intros *)
  show "buf_op (build_http_body bd)" unfolding build_http_body_def [abs_def] by (cases bd) (simp_all add: buf_op_intros)
qed

lemma buf_op_encode: "buf_op (\<lambda>b. ws_encode b d op finish)"
proof -
  obtain l ext where "encode_length (buf_length d) = (l, ext)" by force
  then show ?thesis
    by (simp add: ws_encode_def encode_header_def Let_def buf_op_intros)
qed

lemma write_block_room: "buf_room b \<Longrightarrow> write_block b bs = Inr b' \<Longrightarrow> buf_room b' \<and> buf_cap b' = buf_cap b"
  by (auto simp: write_block_def res_bind_eq_Inr buf_room_def buf_cap_def mem_write_length)

lemma fetch_payload_length: "fetch_payload msg f = Inr (f', msg') \<Longrightarrow> length msg' = length msg"
  by (auto simp: fetch_payload_def res_bind_eq_Inr Let_def mem_write_length split: if_splits)

lemma ws_decode_room: "buf_room b \<Longrightarrow> ws_decode b f = Inr (f', b') \<Longrightarrow> buf_room b' \<and> buf_cap b' = buf_cap b"
  by (auto simp: ws_decode_def res_bind_eq_Inr buf_room_def buf_cap_def dest: fetch_payload_length)

section \<open>Every operation keeps them\<close>

lemma ok_with_write_buf:
  assumes "buf_op f"
  shows "call_keeps ctx_ok (with_write_buf f)"
  unfolding call_keeps_def
proof (intro allI impI)
  fix c :: "('e, 'p) ctx" and x c'
  assume c: "ctx_ok c" and r: "with_write_buf f c = Some (Inr (x, c'))"
  obtain b where b: "get_write_buf (conn c) = (b, (conn c)\<lparr>write_buf := Some b\<rparr>)" "buf_wf b" "buf_cap b = WRITE_BUF_MAX_SIZE"
    using get_write_buf_ok c by (auto simp: ctx_ok_def)
  then show "ctx_ok c'"
    using c r assms by (auto simp: with_write_buf_eq buf_op_def ctx_ok_def conn_ok_def reading_ok_def split: sum.splits)
qed

lemma ok_in_env: "call_keeps ctx_ok (in_env m)"
  unfolding in_env_def by (rule call_keeps_on) (simp add: ctx_ok_def)

lemma ok_send_response:
  fixes sys :: "'e sys"
  shows "call_keeps (ctx_ok :: ('e, 'p) ctx \<Rightarrow> bool) (send_response n sys)"
  unfolding call_keeps_def
proof (intro allI impI)
  fix c c' :: "('e, 'p) ctx" and x
  assume c: "ctx_ok c" and r: "send_response n sys c = Some (Inr (x, c'))"
  obtain b where b: "get_write_buf (conn c) = (b, (conn c)\<lparr>write_buf := Some b\<rparr>)" "buf_wf b" "buf_cap b = WRITE_BUF_MAX_SIZE"
    using get_write_buf_ok c by (auto simp: ctx_ok_def)
  then have "ctx_ok (c\<lparr>conn := (conn c)\<lparr>write_buf := Some b\<rparr>\<rparr>)" using c by (simp add: ctx_ok_def conn_ok_def reading_ok_def)
  then show "ctx_ok c'"
    using r b(1) call_keepsD [OF ok_in_env] by (auto simp: send_response_def split: sum.splits)
qed

lemma ok_modify: "(\<And>c. conn (g c) = conn c) \<Longrightarrow> call_keeps ctx_ok (call_modify g)"
  by (rule call_keeps_modify) (simp add: ctx_ok_def)

lemma ok_set: "call_keeps ctx_ok (call_modify (set_status st))" "call_keeps ctx_ok (call_modify (set_resp_header k v))"
    "call_keeps ctx_ok (call_modify Ctx_clear)"
  by (rule ok_modify; simp add: set_status_def set_resp_header_def Ctx_clear_def)+

lemmas ok_intros = call_keeps_bind call_keeps_then call_keeps_basic ok_set ok_in_env ok_send_response ok_with_write_buf

lemma ok_Response_end: "call_keeps ctx_ok (Response_end n sys bd sz)"
  unfolding Response_end_def clear_write_buf_def
  by (intro ok_intros buf_op_basic buf_op_http) (auto intro!: ok_intros buf_op_http split: option.split)

lemma ok_responses: "call_keeps ctx_ok (send_not_found_response n sys)" "call_keeps ctx_ok (send_bad_request_response n sys t)"
  unfolding send_not_found_response_def send_bad_request_response_def by (intro ok_intros ok_Response_end)+

lemma ok_upgrade: "call_keeps ctx_ok (upgrade sha1 n sys)"
  unfolding upgrade_def check_websocket_upgrade_def
  by (intro ok_intros) (auto intro!: ok_intros ok_responses ok_Response_end)

lemma ok_send_frame: "call_keeps ctx_ok (send_frame n sys d op finish)"
  unfolding send_frame_def clear_write_buf_def by (intro ok_intros buf_op_basic buf_op_encode)

lemma ok_lift_env: "call_keeps ctx_ok (lift_env f)"
  unfolding lift_env_def by (rule ok_in_env)

lemma ok_static: "call_keeps ctx_ok (send_static_file n sys fs f)"
  unfolding send_static_file_def by (intro ok_intros ok_lift_env) (auto intro!: ok_intros ok_lift_env ok_Response_end)

lemma ok_read_buf:
  assumes "ctx_ok c" and "get_read_buf (conn c) = (b, s)" and "buf_room b'" and "buf_cap b' = buf_cap b"
  shows "ctx_ok (c\<lparr>env := e, conn := s\<lparr>read_buf := Some b'\<rparr>\<rparr>)"
proof -
  have "s = (conn c)\<lparr>read_buf := Some b\<rparr>" "buf_cap b = READ_BUF_MAX_SIZE"
    using get_read_buf_ok [of "conn c"] assms(1,2) by (auto simp: ctx_ok_def)
  then show ?thesis using assms by (simp add: ctx_ok_def conn_ok_def reading_ok_def)
qed

lemma read_buf_room: "ctx_ok c \<Longrightarrow> get_read_buf (conn c) = (b, s) \<Longrightarrow> buf_room b"
  using get_read_buf_ok [of "conn c"] by (auto simp: ctx_ok_def)

lemma ok_recv_frame: "call_keeps ctx_ok (recv_frame n sys f)"
  unfolding call_keeps_def
proof (intro allI impI)
  fix c c' x
  assume c: "ctx_ok c" and r: "recv_frame n sys f c = Some (Inr (x, c'))"
  obtain b s where b: "get_read_buf (conn c) = (b, s)" by force
  obtain b1 where b1: "Buffer_clear b = Inr b1" "buf_wf b1" "buf_cap b1 = buf_cap b"
    using Buffer_clear_room [OF read_buf_room [OF c b]] by blast
  from r b b1(1) obtain ret bs t m b2 b3 where 1: "in_env (co_recv n sys s READ_BUF_MAX_SIZE) c = Some (Inr ((ret, bs), t))"
    and 2: "append_chars b1 m (word_of_int ret) = Inr b2" "ws_decode b2 f = Inr (x, b3)" "c' = t\<lparr>conn := s\<lparr>read_buf := Some b3\<rparr>\<rparr>"
    by (auto simp: recv_frame_def call_bind_returns call_then_def call_modify_def call_return_def call_res_def res_case_returns)
  have "buf_room b3" "buf_cap b3 = buf_cap b"
    using append_chars_wf [OF b1(2) 2(1)] ws_decode_room [OF wf_room 2(2)] b1(3) by simp_all
  moreover have "t = c\<lparr>env := env t\<rparr>" using 1 by (auto simp: in_env_def call_on_def split: option.splits sum.splits)
  ultimately show "ctx_ok c'" using ok_read_buf [OF c b, of b3 "env t"] 2(3) by (metis (no_types, lifting))
qed

lemma ok_recv_request: "call_keeps ctx_ok (recv_request n sys)"
  unfolding call_keeps_def
proof (intro allI impI)
  fix c c' x
  assume c: "ctx_ok c" and r: "recv_request n sys c = Some (Inr (x, c'))"
  from r obtain b s bs e b' where b: "get_read_buf (conn c) = (b, s)" "write_block b bs = Inr b'"
    "c' = c\<lparr>env := e, conn := s\<lparr>read_buf := Some b'\<rparr>\<rparr>"
    by (rule recv_request_returns)
  then show "ctx_ok c'"
    using ok_read_buf [OF c b(1)] write_block_room [OF read_buf_room [OF c b(1)] b(2)] by simp
qed

lemma ok_parse: "call_keeps ctx_ok (parse_request hp recved)"
  unfolding call_keeps_def
proof (intro allI impI)
  fix c c' x
  assume c: "ctx_ok c" and r: "parse_request hp recved c = Some (Inr (x, c'))"
  obtain b s where b: "get_read_buf (conn c) = (b, s)" by force
  obtain p evs where p: "http_parser_execute hp (parser c) (take (nat recved) (buf_data b)) = (p, evs)" by force
  have "res_fold (parser_settings (buf_data b)) (c\<lparr>conn := s, parser := p\<rparr>) evs = Inr c'"
    using r by (auto simp: parse_request_def Ctx_parse_def b p Let_def mem_read_def res_simps split: if_splits sum.splits)
  then have "conn c' = s" using settings_fold_keep_env by fastforce
  moreover have "s = (conn c)\<lparr>read_buf := Some b\<rparr>" using get_read_buf_ok [of "conn c"] c b by (auto simp: ctx_ok_def)
  ultimately show "ctx_ok c'"
    using ok_read_buf [OF c b read_buf_room [OF c b] refl, of "env c"] by (simp add: ctx_ok_def)
qed

text \<open>The handlers of a server are built from these operations.\<close>

definition handlers_keep :: "('e, 'p) http_server \<Rightarrow> bool" where
  "handlers_keep srv \<longleftrightarrow>
     (\<forall>k h. (k, Some h) \<in> set (http_handlers srv) \<union> set (websocket_handlers srv) \<longrightarrow> call_keeps ctx_ok h)"

lemma ok_serve:
  assumes "handlers_keep srv"
  shows "call_keeps ctx_ok (serve_request sha1 n sys fs srv p)"
proof -
  have "call_keeps ctx_ok h" if "get_http_handler p srv = Some h \<or> get_websocket_handler p srv = Some h" for h
    using that assms get_handler_in unfolding handlers_keep_def get_http_handler_def get_websocket_handler_def by fastforce
  then show ?thesis
    unfolding serve_request_def call_http_handler_def call_websocket_handler_def
    by (intro call_keeps_bind ok_lift_env) (auto intro!: ok_intros ok_static ok_responses ok_upgrade split: option.split)
qed

lemma ok_accept_loop:
  assumes "handlers_keep srv"
  shows "call_keeps ctx_ok (accept_loop k sha1 n sys fs hp srv)"
proof (induction k)
  case 0
  then show ?case by (simp add: call_keeps_def)
next
  case (Suc k)
  then show ?case
    by (auto simp: accept_loop.simps(2) [abs_def] intro!: ok_intros ok_recv_request ok_parse ok_serve assms split: option.split)
qed

lemma accepted_ok: "co_accept n sys ls e = Some (Inr (s, e')) \<Longrightarrow> conn_ok s \<and> reading_ok s"
proof -
  assume "co_accept n sys ls e = Some (Inr (s, e'))"
  then obtain fd e1 where "co_socket_of_fd sys fd e1 = (s, e')"
    by (auto simp: co_accept_def call_bind_returns call_return_def split: prod.splits)
  then show ?thesis
    by (auto simp: co_socket_of_fd_def Let_def set_err_def conn_ok_def reading_ok_def split: prod.splits if_splits)
qed

text \<open>The callbacks for a request without a body.\<close>

definition request_events :: "nat \<Rightarrow> nat \<Rightarrow> ((nat \<times> nat) \<times> nat \<times> nat) list \<Rightarrow> int \<Rightarrow> int \<Rightarrow> nat \<Rightarrow> bool \<Rightarrow> parser_event list" where
  "request_events q l ls major minor m ka =
     [OnMessageBegin, OnUrl q l] @ header_events ls @ [OnHeadersComplete major minor m ka, OnMessageComplete]"

text \<open>A parser for one request, and a server that answers it.\<close>

definition get_parser :: "bool \<Rightarrow> unit http_parser" where
  "get_parser ka = \<lparr>http_parser_init = (), http_parser_execute = (\<lambda>p bs. (p, request_events 4 1 [((6, 4), (12, 1))] 1 1 1 ka))\<rparr>"

definition demo_site :: "(demo, unit) http_server" where
  "demo_site = \<lparr>settings = [], http_handlers = [(str ''/'', Some (Response_end 1 quick_sys None 0))], websocket_handlers = []\<rparr>"

definition demo_peer :: demo where
  "demo_peer = \<lparr>blocked = 0, to_read = str ''GET / Host: a'', written = []\<rparr>"

lemma demo_site_keeps: "handlers_keep demo_site"
  by (simp add: handlers_keep_def demo_site_def ok_Response_end)



section \<open>A request reaches its handler\<close>

text \<open>What follows the handler: the end, or the next request.\<close>

definition next_request ::
    "nat \<Rightarrow> (bytes \<Rightarrow> bytes) \<Rightarrow> nat \<Rightarrow> 'e sys \<Rightarrow> 'e files \<Rightarrow> 'p http_parser \<Rightarrow> ('e, 'p) http_server \<Rightarrow> (('e, 'p) ctx, unit) call" where
  "next_request k sha1 n sys fs hp srv =
     call_bind (call_get keep_alive) (\<lambda>ka. case ka of
        None \<Rightarrow> call_fault Uninitialised
      | Some ka \<Rightarrow>
          if \<not> ka then call_return ()
          else call_then (call_modify Ctx_clear) (accept_loop k sha1 n sys fs hp srv))"

lemma header_pairs_prefix: "lines_in msg ls \<Longrightarrow> lines_in (msg @ r) ls \<and> header_pairs (msg @ r) ls = header_pairs msg ls"
  by (induction ls) (auto simp: lines_in_def header_pairs_def)

lemma request_events_fold:
  assumes "q + l \<le> length msg" and "lines_in msg ls" and "req_header (request c) = []"
  shows "\<exists>c1. res_fold (parser_settings (msg @ r)) c (request_events q l ls major minor m ka) = Inr c1 \<and>
    path (request c1) = Some (take l (drop q msg) @ [0]) \<and> keep_alive c1 = Some ka \<and>
    version (request c1) = Some (major * 100 + minor) \<and>
    req_method (request c1) = (if m = HTTP_GET then str ''GET'' else if m = HTTP_POST then str ''POST'' else req_method (request c)) \<and>
    (\<forall>k. map_find k (req_header (request c1)) = map_of (rev (header_pairs msg ls)) k)"
proof -
  let ?b = "msg @ r"
  let ?c0 = "c\<lparr>request := (request c)\<lparr>path := Some (take l (drop q msg) @ [0]), path_len := Some (of_nat l)\<rparr>\<rparr>"
  have "mem_read ?b q l = Inr (take l (drop q msg))" using assms(1) by (simp add: mem_read_def)
  then have u: "res_fold (parser_settings ?b) c [OnMessageBegin, OnUrl q l] = Inr ?c0" by (simp add: on_url_def)
  have p: "lines_in ?b ls" "header_pairs ?b ls = header_pairs msg ls" using header_pairs_prefix [OF assms(2)] by auto
  obtain c1 where c1: "res_fold (parser_settings ?b) ?c0 (header_events ls) = Inr c1"
    "request c1 = (request ?c0)\<lparr>req_header := req_header (request c1)\<rparr>" "keep_alive c1 = keep_alive ?c0"
    and f: "map_find k (req_header (request c1)) = (case map_of (rev (header_pairs msg ls)) k of Some v \<Rightarrow> Some v
      | None \<Rightarrow> map_find k (req_header (request ?c0)))" for k
    using header_lines [OF p(1), of ?c0] unfolding p(2) by blast
  have h: "map_find k (req_header (request c1)) = map_of (rev (header_pairs msg ls)) k" for k
    using f [of k] assms(3) by (simp split: option.splits)
  have "res_fold (parser_settings ?b) c (request_events q l ls major minor m ka) = Inr (on_headers_complete major minor m ka c1)"
    unfolding request_events_def res_fold_append u res_bind_Inr c1(1) by simp
  moreover have "path (request c1) = path (request ?c0)" "req_method (request c1) = req_method (request c)"
    by (subst c1(2), simp)+
  ultimately show ?thesis using h by (simp add: on_headers_complete_def set_http_method_def set_http_version_def)
qed

lemma settings_keep_response: "parser_settings block a ev = Inr b \<Longrightarrow> response b = response a"
  by (cases ev) (auto simp: on_url_def on_header_field_def on_header_value_def on_headers_complete_def on_body_def
      res_simps split: option.splits)

lemma settings_fold_keep_response: "res_fold (parser_settings block) a evs = Inr b \<Longrightarrow> response b = response a"
  by (induction evs arbitrary: a) (auto simp: res_simps dest: settings_keep_response)

lemma read_whole_request:
  assumes "ctx_ok c" and "length msg \<le> READ_BUF_MAX_SIZE"
    and "co_recv n sys (conn c) READ_BUF_MAX_SIZE (env c) = Some (Inr ((int (length msg), msg), e))"
    and "http_parser_execute hp (parser c) msg = (p, request_events q l ls major minor m ka)"
    and "q + l \<le> length msg" and "lines_in msg ls" and "req_header (request c) = []"
  shows "\<exists>c0 c1. recv_request n sys c = Some (Inr (int (length msg), c0)) \<and>
    parse_request hp (int (length msg)) c0 = Some (Inr ((), c1)) \<and> env c1 = e \<and> ctx_ok c1 \<and>
    response c1 = response c \<and> sock_fd (conn c1) = sock_fd (conn c) \<and>
    path (request c1) = Some (take l (drop q msg) @ [0]) \<and> keep_alive c1 = Some ka \<and>
    version (request c1) = Some (major * 100 + minor) \<and>
    req_method (request c1) = (if m = HTTP_GET then str ''GET'' else if m = HTTP_POST then str ''POST'' else req_method (request c)) \<and>
    (\<forall>k. map_find k (req_header (request c1)) = map_of (rev (header_pairs msg ls)) k)"
proof -
  obtain b where b: "get_read_buf (conn c) = (b, (conn c)\<lparr>read_buf := Some b\<rparr>)" "buf_room b" "buf_cap b = READ_BUF_MAX_SIZE"
    using get_read_buf_ok assms(1) by (auto simp: ctx_ok_def)
  let ?r = "drop (length msg) (buf_data b)"
  let ?b = "b\<lparr>buf_data := msg @ ?r\<rparr>"
  let ?c0 = "c\<lparr>env := e, conn := (conn c)\<lparr>read_buf := Some ?b\<rparr>\<rparr>"
  have "write_block b msg = Inr ?b" using b(2,3) assms(2) by (simp add: write_block_def mem_write_def buf_room_def)
  moreover have "co_recv n sys ((conn c)\<lparr>read_buf := Some b\<rparr>) READ_BUF_MAX_SIZE (env c) = Some (Inr ((int (length msg), msg), e))"
    using assms(3) by (simp add: co_recv_fd [of "(conn c)\<lparr>read_buf := Some b\<rparr>" "conn c"])
  ultimately have 1: "recv_request n sys c = Some (Inr (int (length msg), ?c0))"
    using b(1) by (simp add: recv_request_def call_bind_def call_res_def in_env_def call_on_def call_then_def call_modify_def call_return_def)
  have ok: "ctx_ok ?c0" using call_keepsD [OF ok_recv_request assms(1) 1] .
  obtain c1 where c1: "res_fold (parser_settings (msg @ ?r)) (?c0\<lparr>parser := p\<rparr>) (request_events q l ls major minor m ka) = Inr c1"
    and facts: "path (request c1) = Some (take l (drop q msg) @ [0])" "keep_alive c1 = Some ka"
    "version (request c1) = Some (major * 100 + minor)"
    "req_method (request c1) = (if m = HTTP_GET then str ''GET'' else if m = HTTP_POST then str ''POST'' else req_method (request c))"
    "\<forall>k. map_find k (req_header (request c1)) = map_of (rev (header_pairs msg ls)) k"
    using request_events_fold [OF assms(5,6), of "?c0\<lparr>parser := p\<rparr>" ?r major minor m ka] assms(7) by auto
  have "Ctx_parse hp (int (length msg)) ?c0 = Inr c1"
    using c1 assms(4) by (simp add: Ctx_parse_def get_read_buf_def Let_def mem_read_def)
  then have 2: "parse_request hp (int (length msg)) ?c0 = Some (Inr ((), c1))" by (simp add: parse_request_def)
  moreover have "ctx_ok c1" using call_keepsD [OF ok_parse ok 2] .
  moreover have "env c1 = e" "sock_fd (conn c1) = sock_fd (conn c)" using settings_fold_keep_env [OF c1] by simp_all
  moreover have "response c1 = response c" using settings_fold_keep_response [OF c1] by simp
  ultimately show ?thesis using 1 facts by blast
qed

text \<open>The turn of the loop that reads and parses a request, up to where it is served.\<close>

lemma request_read:
  assumes "ctx_ok c" and "msg \<noteq> []" and "length msg \<le> READ_BUF_MAX_SIZE"
    and "co_recv n sys (conn c) READ_BUF_MAX_SIZE (env c) = Some (Inr ((int (length msg), msg), e))"
    and "http_parser_execute hp (parser c) msg = (p, request_events q l ls major minor m ka)"
    and "q + l \<le> length msg" and "lines_in msg ls" and "req_header (request c) = []"
    and "url = take l (drop q msg)" and "0 \<notin> set url"
  shows "\<exists>c1. accept_loop (Suc k) sha1 n sys fs hp srv c = call_bind (serve_request sha1 n sys fs srv url)
      (\<lambda>more. if \<not> more then call_return () else next_request k sha1 n sys fs hp srv) c1 \<and>
    env c1 = e \<and> ctx_ok c1 \<and> response c1 = response c \<and> sock_fd (conn c1) = sock_fd (conn c) \<and>
    path (request c1) = Some (url @ [0]) \<and> keep_alive c1 = Some ka \<and> version (request c1) = Some (major * 100 + minor) \<and>
    req_method (request c1) = (if m = HTTP_GET then str ''GET'' else if m = HTTP_POST then str ''POST'' else req_method (request c)) \<and>
    (\<forall>x. map_find x (req_header (request c1)) = map_of (rev (header_pairs msg ls)) x)"
proof -
  obtain c0 c1 where 1: "recv_request n sys c = Some (Inr (int (length msg), c0))" "parse_request hp (int (length msg)) c0 = Some (Inr ((), c1))"
    and f: "env c1 = e" "ctx_ok c1" "response c1 = response c" "sock_fd (conn c1) = sock_fd (conn c)" "path (request c1) = Some (url @ [0])"
    "keep_alive c1 = Some ka" "version (request c1) = Some (major * 100 + minor)"
    "req_method (request c1) = (if m = HTTP_GET then str ''GET'' else if m = HTTP_POST then str ''POST'' else req_method (request c))"
    "\<forall>x. map_find x (req_header (request c1)) = map_of (rev (header_pairs msg ls)) x"
    using read_whole_request [OF assms(1,3-8)] unfolding assms(9) by blast
  have "from_c_str (url @ [0]) = url" using assms(10) by (simp add: from_c_str_def takeWhile_append takeWhile_eq_all_conv)
  then have "accept_loop (Suc k) sha1 n sys fs hp srv c = call_bind (serve_request sha1 n sys fs srv url)
      (\<lambda>more. if \<not> more then call_return () else next_request k sha1 n sys fs hp srv) c1"
    unfolding next_request_def using 1 f(5) assms(2) by (simp add: call_then_def call_bind_def call_get_def)
  with f show ?thesis by blast
qed

lemma serve_by_handler:
  assumes "map_find (str ''document_root'') (settings srv) = None" and "get_http_handler url srv = Some h"
    and "map_find (str ''sec-websocket-key'') (req_header (request c)) = None"
  shows "serve_request sha1 n sys fs srv url c = call_then h (call_return True) c"
  using assms by (simp add: serve_request_def get_document_absolute_path_def lift_env_def in_env_def call_on_def
      call_bind_def call_http_handler_def call_get_def has_sec_websocket_key_def has_header_def)

lemma serve_not_found:
  assumes "map_find (str ''document_root'') (settings srv) = None" and "get_http_handler url srv = None"
    and "get_websocket_handler url srv = None"
  shows "serve_request sha1 n sys fs srv url c = call_then (send_not_found_response n sys) (call_return True) c"
  using assms by (simp add: serve_request_def get_document_absolute_path_def lift_env_def in_env_def call_on_def call_bind_def)

text \<open>
  A request that arrives in one read reaches its handler. When the parser reports a request line, header
  lines and the end of the headers, and a handler is registered for the path (there is no document root, and the
  client does not ask for a WebSocket), the next turn of the loop runs just this handler, on a request with the method, version,
  path and headers that were sent and on a connection in order; after it the loop goes on as
  \<open>keep_alive\<close> says.
\<close>

theorem request_dispatched:
  assumes "ctx_ok c" and "msg \<noteq> []" and "length msg \<le> READ_BUF_MAX_SIZE"
    and "co_recv n sys (conn c) READ_BUF_MAX_SIZE (env c) = Some (Inr ((int (length msg), msg), e))"
    and "http_parser_execute hp (parser c) msg = (p, request_events q l ls major minor m ka)"
    and "q + l \<le> length msg" and "lines_in msg ls" and "req_header (request c) = []"
    and "map_find (str ''document_root'') (settings srv) = None"
    and "url = take l (drop q msg)" and "0 \<notin> set url" and "get_http_handler url srv = Some h"
    and "map_of (rev (header_pairs msg ls)) (str ''sec-websocket-key'') = None"
  shows "\<exists>c1. accept_loop (Suc k) sha1 n sys fs hp srv c = call_then h (next_request k sha1 n sys fs hp srv) c1 \<and>
    env c1 = e \<and> ctx_ok c1 \<and> path (request c1) = Some (url @ [0]) \<and> keep_alive c1 = Some ka \<and>
    version (request c1) = Some (major * 100 + minor) \<and>
    req_method (request c1) = (if m = HTTP_GET then str ''GET'' else if m = HTTP_POST then str ''POST'' else req_method (request c)) \<and>
    (\<forall>x. map_find x (req_header (request c1)) = map_of (rev (header_pairs msg ls)) x)"
proof -
  obtain c1 where 1: "accept_loop (Suc k) sha1 n sys fs hp srv c = call_bind (serve_request sha1 n sys fs srv url)
      (\<lambda>more. if \<not> more then call_return () else next_request k sha1 n sys fs hp srv) c1"
    and f: "env c1 = e" "ctx_ok c1" "path (request c1) = Some (url @ [0])" "keep_alive c1 = Some ka"
    "version (request c1) = Some (major * 100 + minor)"
    "req_method (request c1) = (if m = HTTP_GET then str ''GET'' else if m = HTTP_POST then str ''POST'' else req_method (request c))"
    "\<forall>x. map_find x (req_header (request c1)) = map_of (rev (header_pairs msg ls)) x"
    using request_read [OF assms(1-8,10,11)] by blast
  have "serve_request sha1 n sys fs srv url c1 = call_then h (call_return True) c1"
    using serve_by_handler [OF assms(9,12)] assms(13) f(7) by simp
  then have "accept_loop (Suc k) sha1 n sys fs hp srv c = call_then h (next_request k sha1 n sys fs hp srv) c1"
    using 1 by (simp add: call_then_def call_bind_def call_return_def split: option.split sum.split)
  with f show ?thesis by blast
qed

lemma demo_arrives:
  fixes c :: "(demo, unit) ctx" and m :: bytes
  defines "c \<equiv> Ctx_new demo_peer demo_socket ()" and "m \<equiv> str ''GET / Host: a''" and "ls \<equiv> [((6, 4), (12, 1))]"
  shows "ctx_ok c" "req_header (request c) = []" "m \<noteq> []" "length m \<le> READ_BUF_MAX_SIZE"
    "co_recv 1 quick_sys (conn c) READ_BUF_MAX_SIZE (env c) = Some (Inr ((int (length m), m), \<lparr>blocked = 0, to_read = [], written = []\<rparr>))"
    "4 + 1 \<le> length m" "lines_in m ls" "str ''/'' = take 1 (drop 4 m)" "0 \<notin> set (str ''/'')"
    "map_of (rev (header_pairs m ls)) (str ''sec-websocket-key'') = None" "header_pairs m ls = [(str ''host'', str ''a'')]"
proof -
  show "m \<noteq> []" "length m \<le> READ_BUF_MAX_SIZE" "4 + 1 \<le> length m" "lines_in m ls" "str ''/'' = take 1 (drop 4 m)" "0 \<notin> set (str ''/'')"
    "map_of (rev (header_pairs m ls)) (str ''sec-websocket-key'') = None" "header_pairs m ls = [(str ''host'', str ''a'')]"
    unfolding m_def ls_def by code_simp+
  show "ctx_ok c" "req_header (request c) = []"
    by (simp_all add: c_def ctx_ok_def conn_ok_def reading_ok_def Ctx_new_def demo_socket_def Request_new_def)
  have "length m = 13" unfolding m_def by code_simp
  then show "co_recv 1 quick_sys (conn c) READ_BUF_MAX_SIZE (env c) =
      Some (Inr ((int (length m), m), \<lparr>blocked = 0, to_read = [], written = []\<rparr>))"
    using quick_recv [of m READ_BUF_MAX_SIZE] by (simp add: c_def m_def demo_peer_def Ctx_new_def to_int_small READ_BUF_MAX_SIZE_def)
qed

lemma demo_parsed: "http_parser_execute (get_parser ka) (parser c) m = ((), request_events 4 1 [((6, 4), (12, 1))] 1 1 1 ka)"
  by (simp add: get_parser_def)

theorem request_dispatched_witness:
  "\<exists>c1. accept_loop 2 (\<lambda>_. []) 1 quick_sys demo_files (get_parser False) demo_site (Ctx_new demo_peer demo_socket ()) =
      call_then (Response_end 1 quick_sys None 0) (next_request 1 (\<lambda>_. []) 1 quick_sys demo_files (get_parser False) demo_site) c1 \<and>
    path (request c1) = Some (str ''/'' @ [0]) \<and> req_method (request c1) = str ''GET'' \<and> keep_alive c1 = Some False \<and>
    map_find (str ''host'') (req_header (request c1)) = Some (str ''a'')"
proof -
  let ?m = "str ''GET / Host: a''" and ?ls = "[((6, 4), (12, 1))]"
  have s: "map_find (str ''document_root'') (settings demo_site) = None"
    "get_http_handler (str ''/'') demo_site = Some (Response_end 1 quick_sys None 0)"
    by (simp_all add: demo_site_def get_http_handler_def)
  from request_dispatched [OF demo_arrives(1,3,4,5) demo_parsed [of False] demo_arrives(6,7,2) s(1) demo_arrives(8,9) s(2) demo_arrives(10), of 1 "\<lambda>_. []" demo_files]
    demo_arrives(11)
  show ?thesis by (auto simp: HTTP_GET_def numeral_2_eq_2)
qed

section \<open>A request and its response\<close>

lemma response_sent:
  assumes "ctx_ok c" and "keep_alive c = Some ka" and "\<And>d. bd = Some d \<Longrightarrow> buf_wf d"
    and "msg = http_text (status (response c)) ka (resp_header (response c)) (case bd of None \<Rightarrow> 0 | Some d \<Rightarrow> int (length (buf_contents d)))
      (map_option buf_contents bd)" and "length msg \<le> WRITE_BUF_MAX_SIZE" and "co_send n sys (conn c) msg (env c) = Some (Inr (r, e))"
  shows "\<exists>b. Response_end n sys bd 0 c = Some (Inr ((), c\<lparr>env := e, conn := (conn c)\<lparr>write_buf := Some b\<rparr>\<rparr>))"
proof -
  have "sint (ucast (body_size bd 0) :: u32) = (case bd of None \<Rightarrow> 0 | Some d \<Rightarrow> int (length (buf_contents d)))"
  proof (cases bd)
    case (Some d)
    have "length (buf_contents d) \<le> 1024" using assms(4,5) Some by (simp add: http_text_def WRITE_BUF_MAX_SIZE_def)
    then have "unat (buf_length d) \<le> 1024" using length_contents [OF assms(3) [OF Some]] by simp
    moreover have "sint (ucast w :: u32) = to_int (int (unat w))" for w :: u64
      unfolding to_int_def by simp
    ultimately show ?thesis using Some length_contents [OF assms(3) [OF Some]] by (simp add: body_size_def to_int_small del: of_nat_unat)
  qed (simp add: body_size_def)
  then show ?thesis
    using Response_end_text [of c ka bd msg 0 n sys] assms by (auto simp: ctx_ok_def WRITE_BUF_MAX_SIZE_def)
qed

text \<open>
  C10: a request and the response to it, through the socket, the parser's callbacks, the handlers and the write
  buffer. When a request for a page arrives in one read and its handler ends the response with a page of the server, the bytes that
  reach \<open>send\<close> are those of the response with status 200, the length of the page and the page; for a path without a handler they
  are those of an empty response with status 404. The connection then ends or waits for the next request as the client asked.
\<close>

theorem http_exchange:
  assumes "ctx_ok c" and "msg \<noteq> []" and "length msg \<le> READ_BUF_MAX_SIZE"
    and "co_recv n sys (conn c) READ_BUF_MAX_SIZE (env c) = Some (Inr ((int (length msg), msg), e))"
    and "http_parser_execute hp (parser c) msg = (p, request_events q l ls major minor m ka)"
    and "q + l \<le> length msg" and "lines_in msg ls" and "req_header (request c) = []"
    and "map_find (str ''document_root'') (settings srv) = None"
    and "url = take l (drop q msg)" and "0 \<notin> set url"
    and "map_of (rev (header_pairs msg ls)) (str ''sec-websocket-key'') = None"
    and "status (response c) = 200" and "resp_header (response c) = []"
    and "get_http_handler url srv = map_option (\<lambda>d. Response_end n sys (Some d) 0) page"
    and "get_websocket_handler url srv = None" and "\<And>d. page = Some d \<Longrightarrow> buf_wf d"
    and "answer = (case page of None \<Rightarrow> http_text 404 ka [] 0 None
      | Some d \<Rightarrow> http_text 200 ka [] (int (length (buf_contents d))) (Some (buf_contents d)))"
    and "length answer \<le> WRITE_BUF_MAX_SIZE" and "co_send n sys (conn c) answer e = Some (Inr (r, e'))"
  shows "\<exists>c2. accept_loop (Suc k) sha1 n sys fs hp srv c =
      (if ka then accept_loop k sha1 n sys fs hp srv (Ctx_clear c2) else Some (Inr ((), c2))) \<and>
    env c2 = e' \<and> ctx_ok c2 \<and> status (response c2) = (if page = None then 404 else 200)"
proof -
  obtain c1 where 1: "accept_loop (Suc k) sha1 n sys fs hp srv c = call_bind (serve_request sha1 n sys fs srv url)
      (\<lambda>more. if \<not> more then call_return () else next_request k sha1 n sys fs hp srv) c1"
    and f: "env c1 = e" "ctx_ok c1" "response c1 = response c" "sock_fd (conn c1) = sock_fd (conn c)" "keep_alive c1 = Some ka"
    "\<forall>x. map_find x (req_header (request c1)) = map_of (rev (header_pairs msg ls)) x"
    using request_read [OF assms(1-8,10,11)] by blast
  define c1' where "c1' = (if page = None then set_status 404 c1 else c1)"
  have c1': "ctx_ok c1'" "keep_alive c1' = Some ka" "resp_header (response c1') = []" "env c1' = e" "conn c1' = conn c1"
    "status (response c1') = (if page = None then 404 else 200)"
    using f assms(13,14) by (auto simp: c1'_def set_status_def ctx_ok_def)
  have s: "serve_request sha1 n sys fs srv url c1 = call_then (Response_end n sys page 0) (call_return True) c1'"
  proof (cases page)
    case None
    then show ?thesis
      using serve_not_found [OF assms(9) _ assms(16)] assms(15) by (simp add: c1'_def send_not_found_response_def call_then_def call_bind_def call_modify_def)
  next
    case (Some d)
    then show ?thesis using serve_by_handler [OF assms(9)] assms(12,15) f(6) by (simp add: c1'_def)
  qed
  have "co_send n sys (conn c1') answer (env c1') = Some (Inr (r, e'))"
    using assms(20) c1' by (simp add: co_send_fd [OF f(4)])
  moreover have "answer = http_text (status (response c1')) ka (resp_header (response c1')) (case page of None \<Rightarrow> 0 | Some d \<Rightarrow> int (length (buf_contents d)))
      (map_option buf_contents page)"
    using assms(18) c1'(3,6) by (cases page) simp_all
  ultimately obtain b where
    r: "Response_end n sys page 0 c1' = Some (Inr ((), c1'\<lparr>env := e', conn := (conn c1')\<lparr>write_buf := Some b\<rparr>\<rparr>))"
    using response_sent [OF c1'(1,2) assms(17)] assms(19) by blast
  let ?c2 = "c1'\<lparr>env := e', conn := (conn c1')\<lparr>write_buf := Some b\<rparr>\<rparr>"
  have "ctx_ok ?c2" using call_keepsD [OF ok_Response_end c1'(1) r] .
  moreover have "accept_loop (Suc k) sha1 n sys fs hp srv c =
      (if ka then accept_loop k sha1 n sys fs hp srv (Ctx_clear ?c2) else Some (Inr ((), ?c2)))"
    using 1 s r c1'(2) by (simp add: next_request_def call_then_def call_bind_def call_get_def call_modify_def call_return_def)
  ultimately show ?thesis using c1'(6) by (intro exI [of _ ?c2]) simp
qed

definition page_site :: "(demo, unit) http_server" where
  "page_site = \<lparr>settings = [], http_handlers = [(str ''/'', Some (Response_end 1 quick_sys (Some demo_body) 0))], websocket_handlers = []\<rparr>"

theorem http_exchange_witness:
  "\<exists>c2. accept_loop 2 (\<lambda>_. []) 1 quick_sys demo_files (get_parser False) page_site (Ctx_new demo_peer demo_socket ()) = Some (Inr ((), c2)) \<and>
     written (env c2) = http_text 200 False [] 2 (Some (str ''hi''))"
proof -
  let ?c = "Ctx_new demo_peer demo_socket ()" and ?e = "\<lparr>blocked = 0, to_read = [], written = []\<rparr>"
  let ?a = "http_text 200 False [] 2 (Some (str ''hi''))"
  have s: "map_find (str ''document_root'') (settings page_site) = None" "get_websocket_handler (str ''/'') page_site = None"
    "get_http_handler (str ''/'') page_site = map_option (\<lambda>d. Response_end 1 quick_sys (Some d) 0) (Some demo_body)"
    by (simp_all add: page_site_def get_http_handler_def get_websocket_handler_def)
  have r: "status (response ?c) = 200" "resp_header (response ?c) = []" by (simp_all add: Ctx_new_def Response_new_def)
  have d: "buf_wf demo_body" "buf_contents demo_body = str ''hi''" "length (str ''hi'') = 2" by code_simp+
  have l: "length ?a \<le> WRITE_BUF_MAX_SIZE" by code_simp
  have a: "?a = (case Some demo_body of None \<Rightarrow> http_text 404 False [] 0 None
      | Some d \<Rightarrow> http_text 200 False [] (int (length (buf_contents d))) (Some (buf_contents d)))" by (simp add: d)
  have send: "co_send 1 quick_sys (conn ?c) ?a ?e = Some (Inr (int (length ?a), ?e\<lparr>written := written ?e @ ?a\<rparr>))"
    by (rule quick_send) (use l in \<open>simp add: to_int_small WRITE_BUF_MAX_SIZE_def\<close>)
  have w: "buf_wf x" if "Some demo_body = Some x" for x using d(1) that by simp
  from http_exchange [OF demo_arrives(1,3,4,5) demo_parsed [of False] demo_arrives(6,7,2) s(1) demo_arrives(8-10) r s(3,2) w a l send,
      of 1 "\<lambda>_. []" demo_files]
  show ?thesis by (auto simp: numeral_2_eq_2)
qed

end
