(* ===== verification/Http2_Frame.thy ===== *)
theory Http2_Frame
  imports Std_Map Buffer
begin

text \<open>
  \<open>src/coroutine/http2/http2.cc\<close> and \<open>include/coroutine_http2.h\<close>: the frames of HTTP/2, their
  nine-byte header as it is written to and read from a block of memory, settings, header lists and streams.
\<close>

unbundle bit_operations_syntax

section \<open>Constants\<close>

definition FSW_HTTP2_DEFAULT_HEADER_TABLE_SIZE :: u32 where "FSW_HTTP2_DEFAULT_HEADER_TABLE_SIZE = 4096"
definition FSW_HTTP2_MAX_MAX_CONCURRENT_STREAMS :: u32 where "FSW_HTTP2_MAX_MAX_CONCURRENT_STREAMS = 128"
definition FSW_HTTP2_MAX_MAX_FRAME_SIZE :: u32 where "FSW_HTTP2_MAX_MAX_FRAME_SIZE = 16384"
definition FSW_HTTP2_DEFAULT_WINDOW_SIZE :: u32 where "FSW_HTTP2_DEFAULT_WINDOW_SIZE = 65535"
definition FSW_HTTP2_DEFAULT_MAX_HEADER_LIST_SIZE :: u32 where "FSW_HTTP2_DEFAULT_MAX_HEADER_LIST_SIZE = 4096"
definition FSW_HTTP2_FRAME_HEADER_SIZE :: nat where "FSW_HTTP2_FRAME_HEADER_SIZE = 9"
definition FSW_HTTP2_FRAME_PING_PAYLOAD_SIZE :: nat where "FSW_HTTP2_FRAME_PING_PAYLOAD_SIZE = 8"
definition FSW_HTTP2_MAX_STATUS_LINE_NUM :: nat where "FSW_HTTP2_MAX_STATUS_LINE_NUM = 8"

definition FSW_HTTP2_PRI_STRING :: cstring where
  "FSW_HTTP2_PRI_STRING = str ''PRI * HTTP/2.0'' @ [13, 10, 13, 10] @ str ''SM'' @ [13, 10, 13, 10]"

definition FSW_HTTP2_STREAM_NORMAL :: byte where "FSW_HTTP2_STREAM_NORMAL = 0"
definition FSW_HTTP2_STREAM_PIPELINE_REQUEST :: byte where "FSW_HTTP2_STREAM_PIPELINE_REQUEST = 2"
definition FSW_HTTP2_STREAM_PIPELINE_RESPONSE :: byte where "FSW_HTTP2_STREAM_PIPELINE_RESPONSE = 4"

definition FSW_HTTP2_TYPE_DATA :: byte where "FSW_HTTP2_TYPE_DATA = 0"
definition FSW_HTTP2_TYPE_HEADERS :: byte where "FSW_HTTP2_TYPE_HEADERS = 1"
definition FSW_HTTP2_TYPE_RST_STREAM :: byte where "FSW_HTTP2_TYPE_RST_STREAM = 3"
definition FSW_HTTP2_TYPE_SETTINGS :: byte where "FSW_HTTP2_TYPE_SETTINGS = 4"
definition FSW_HTTP2_TYPE_PUSH_PROMISE :: byte where "FSW_HTTP2_TYPE_PUSH_PROMISE = 5"
definition FSW_HTTP2_TYPE_PING :: byte where "FSW_HTTP2_TYPE_PING = 6"
definition FSW_HTTP2_TYPE_GOAWAY :: byte where "FSW_HTTP2_TYPE_GOAWAY = 7"
definition FSW_HTTP2_TYPE_WINDOW_UPDATE :: byte where "FSW_HTTP2_TYPE_WINDOW_UPDATE = 8"

definition FSW_HTTP2_FLAG_ACK :: byte where "FSW_HTTP2_FLAG_ACK = 1"
definition FSW_HTTP2_FLAG_END_STREAM :: byte where "FSW_HTTP2_FLAG_END_STREAM = 1"
definition FSW_HTTP2_FLAG_END_HEADERS :: byte where "FSW_HTTP2_FLAG_END_HEADERS = 4"

definition FSW_HTTP2_SETTING_HEADER_TABLE_SIZE :: u16 where "FSW_HTTP2_SETTING_HEADER_TABLE_SIZE = 1"
definition FSW_HTTP2_SETTINGS_MAX_CONCURRENT_STREAMS :: u16 where "FSW_HTTP2_SETTINGS_MAX_CONCURRENT_STREAMS = 3"
definition FSW_HTTP2_SETTINGS_INIT_WINDOW_SIZE :: u16 where "FSW_HTTP2_SETTINGS_INIT_WINDOW_SIZE = 4"
definition FSW_HTTP2_SETTINGS_MAX_FRAME_SIZE :: u16 where "FSW_HTTP2_SETTINGS_MAX_FRAME_SIZE = 5"
definition FSW_HTTP2_SETTINGS_MAX_HEADER_LIST_SIZE :: u16 where "FSW_HTTP2_SETTINGS_MAX_HEADER_LIST_SIZE = 6"

lemmas h2_types = FSW_HTTP2_TYPE_DATA_def FSW_HTTP2_TYPE_HEADERS_def FSW_HTTP2_TYPE_RST_STREAM_def
  FSW_HTTP2_TYPE_SETTINGS_def FSW_HTTP2_TYPE_PUSH_PROMISE_def FSW_HTTP2_TYPE_PING_def
  FSW_HTTP2_TYPE_GOAWAY_def FSW_HTTP2_TYPE_WINDOW_UPDATE_def

lemmas h2_setting_ids = FSW_HTTP2_SETTING_HEADER_TABLE_SIZE_def FSW_HTTP2_SETTINGS_MAX_CONCURRENT_STREAMS_def
  FSW_HTTP2_SETTINGS_INIT_WINDOW_SIZE_def FSW_HTTP2_SETTINGS_MAX_FRAME_SIZE_def
  FSW_HTTP2_SETTINGS_MAX_HEADER_LIST_SIZE_def

section \<open>The header of a frame\<close>

text \<open>A shifted length that is assigned to a \<open>char\<close> keeps its low eight bits.\<close>

definition set_frame_header :: "bytes \<Rightarrow> byte \<Rightarrow> u32 \<Rightarrow> byte \<Rightarrow> u32 \<Rightarrow> bytes res" where
  "set_frame_header buf ty len flags sid =
     res_bind (mem_write buf 0 [ucast (drop_bit 16 len), ucast (drop_bit 8 len), ucast len, ty, flags])
       (\<lambda>buf. mem_write buf 5 (store_le 4 (htonl sid)))"

definition get_payload_length :: "bytes \<Rightarrow> nat res" where
  "get_payload_length buf =
     res_bind (mem_read buf 0 3) (\<lambda>bs.
     Inr (nat (push_bit 16 (uint (bs ! 0)) + push_bit 8 (uint (bs ! 1)) + uint (bs ! 2))))"

text \<open>
  A payload pointer is \<open>FSW_HTTP2_FRAME_HEADER_SIZE\<close> bytes into one of three blocks. Of the other
  members only \<open>stream\<close> can be read before it is written: \<open>Wild\<close>.
\<close>

datatype h2_block = WriteBuf | ReadBuf | StackBuf
datatype stream_ptr = Wild | Null | At nat

record h2_frame =
  payload :: "h2_block option"
  payload_length :: int
  frame_type :: byte
  frame_flags :: byte
  frame_stream_id :: u32
  frame_stream :: stream_ptr

definition Frame_new :: h2_frame where
  "Frame_new = \<lparr>payload = None, payload_length = 0, frame_type = 0, frame_flags = 0, frame_stream_id = 0, frame_stream = Wild\<rparr>"

text \<open>\<open>build_frame_header\<close> of the client writes the same bytes from the \<open>ssize_t\<close> length of a frame.\<close>

definition write_frame_header :: "h2_frame \<Rightarrow> bytes \<Rightarrow> bytes res" where
  "write_frame_header f buf =
     res_bind (mem_write buf 0 [word_of_int (drop_bit 16 (payload_length f)), word_of_int (drop_bit 8 (payload_length f)),
         word_of_int (payload_length f), frame_type f, frame_flags f])
       (\<lambda>buf. mem_write buf 5 (store_le 4 (htonl (frame_stream_id f))))"

text \<open>What \<open>recv_frame\<close> reads back: length, type, flags and the stream identifier without its first bit.\<close>

definition read_frame_header :: "bytes \<Rightarrow> (nat \<times> byte \<times> byte \<times> u32) res" where
  "read_frame_header buf =
     res_bind (get_payload_length buf) (\<lambda>len.
     res_bind (mem_read buf 3 2) (\<lambda>tf.
     res_bind (mem_read buf 5 4) (\<lambda>bs.
     Inr (len, tf ! 0, tf ! 1, ntohl (load_le bs) AND 0x7fffffff))))"

section \<open>Settings\<close>

record h2_settings =
  header_table_size :: u32
  window_size :: u32
  max_concurrent_streams :: u32
  max_frame_size :: u32
  max_header_list_size :: u32

definition setting_bytes :: "u16 \<Rightarrow> u32 \<Rightarrow> bytes" where
  "setting_bytes sid value = store_le 2 (htons sid) @ store_le 4 (htonl value)"

section \<open>Header lists\<close>

text \<open>A name and a value; both are copied with their lengths.\<close>

type_synonym nghttp2_nv = "bytes \<times> bytes"

record h2_headers =
  hd_size :: nat
  nvs :: "nghttp2_nv list"

definition Headers_new :: "nat \<Rightarrow> h2_headers" where
  "Headers_new sz = \<lparr>hd_size = sz, nvs = []\<rparr>"

definition Headers_add :: "bytes \<Rightarrow> nat \<Rightarrow> bytes \<Rightarrow> nat \<Rightarrow> h2_headers \<Rightarrow> h2_headers res" where
  "Headers_add name name_len val val_len h =
     (if length (nvs h) < hd_size h
      then res_bind (mem_read name 0 name_len) (\<lambda>nm.
           res_bind (mem_read val 0 val_len) (\<lambda>vl.
           Inr (h\<lparr>nvs := nvs h @ [(nm, vl)]\<rparr>)))
      else Inl OutOfBounds)"

section \<open>Requests, responses and streams\<close>

record h2_request =
  h2_method :: cstring
  h2_path :: cstring
  h2_body :: "bytes option"
  h2_body_length :: "u64 option"
  pipeline :: bool
  h2_header :: "cstring str_map"

record h2_response =
  resp_body :: cstring
  status_code :: "int option"
  err_code_of :: "int option"
  h2_resp_header :: "cstring str_map"

definition h2_response_new :: h2_response where
  "h2_response_new = \<lparr>resp_body = [], status_code = None, err_code_of = None, h2_resp_header = []\<rparr>"

record stream =
  str_id :: u32
  str_flags :: byte
  str_buffer :: "buffer option"
  str_response :: h2_response
  remote_window_size :: u32
  local_window_size :: u32

definition Stream_new :: "u32 \<Rightarrow> bool \<Rightarrow> stream" where
  "Stream_new sid pipe =
     \<lparr>str_id = sid, str_flags = if pipe then FSW_HTTP2_STREAM_PIPELINE_REQUEST else FSW_HTTP2_STREAM_NORMAL,
      str_buffer = None, str_response = h2_response_new, remote_window_size = FSW_HTTP2_DEFAULT_WINDOW_SIZE,
      local_window_size = FSW_HTTP2_DEFAULT_WINDOW_SIZE\<rparr>"

section \<open>Writing and reading a header\<close>

text \<open>The nine bytes on the wire.\<close>

definition wire_header :: "nat \<Rightarrow> byte \<Rightarrow> byte \<Rightarrow> nat \<Rightarrow> bytes" where
  "wire_header len ty flags sid = be_bytes 3 len @ [ty, flags] @ be_bytes 4 sid"

lemma length_wire_header [simp]: "length (wire_header len ty flags sid) = 9"
  by (simp add: wire_header_def)

lemma be_bytes_3: "be_bytes 3 n = [of_nat (n div 65536), of_nat (n div 256), of_nat n]"
  by (simp add: be_bytes_def numeral_3_eq_3 div_mult2_eq [symmetric])

lemma two_writes:
  assumes "length xs = 5" and "length ys = 4" and "9 \<le> length buf"
  shows "res_bind (mem_write buf 0 xs) (\<lambda>b. mem_write b 5 ys) = Inr (xs @ ys @ drop 9 buf)"
  using assms by (simp add: mem_write_def)

lemma set_frame_header_wire:
  assumes "9 \<le> length buf"
  shows "set_frame_header buf ty len flags sid = Inr (wire_header (unat len) ty flags (unat sid) @ drop 9 buf)"
proof -
  have "ucast (drop_bit k len) = (of_nat (unat len div 2 ^ k) :: byte)" for k
    by (simp add: ucast_byte_eq unat_drop_bit_word)
  from this [of 16] this [of 8] this [of 0] show ?thesis
    using assms by (simp add: set_frame_header_def two_writes wire_header_def be_bytes_3 store_htonl)
qed

lemma write_frame_header_wire:
  assumes "9 \<le> length buf" and "0 \<le> payload_length f"
  shows "write_frame_header f buf =
    Inr (wire_header (nat (payload_length f)) (frame_type f) (frame_flags f) (unat (frame_stream_id f)) @ drop 9 buf)"
proof -
  obtain n where n: "payload_length f = int n" using assms(2) nonneg_int_cases by blast
  have "word_of_int (drop_bit k (int n)) = (of_nat (n div 2 ^ k) :: byte)" for k
  proof -
    have "int n div 2 ^ k = int (n div 2 ^ k)" by (simp add: zdiv_int)
    then show ?thesis by (simp add: drop_bit_eq_div)
  qed
  from this [of 16] this [of 8] this [of 0] show ?thesis
    using assms by (simp add: write_frame_header_def two_writes wire_header_def be_bytes_3 store_htonl n)
qed

lemma payload_length_unat:
  "nat (push_bit 16 (uint a) + push_bit 8 (uint b) + uint c) = unat a * 65536 + unat b * 256 + unat (c :: byte)" for a b :: byte
  by (simp add: push_bit_eq_mult nat_add_distrib nat_mult_distrib)

lemma read_wire_header:
  assumes "len < 2 ^ 24"
  shows "read_frame_header (wire_header len ty flags (unat sid) @ rest) = Inr (len, ty, flags, sid AND 0x7fffffff)"
proof -
  let ?b = "wire_header len ty flags (unat sid) @ rest"
  have "mem_read ?b 0 3 = Inr [of_nat (len div 65536), of_nat (len div 256), of_nat len]"
    by (simp add: mem_read_def wire_header_def be_bytes_3)
  moreover have top: "len div 65536 < 256" using assms by simp
  moreover have "len div 65536 * 65536 + len div 256 mod 256 * 256 + len mod 256 = len"
  proof -
    have "len div 65536 = len div 256 div 256" by (simp add: div_mult2_eq [symmetric])
    then show ?thesis
      using div_mult_mod_eq [of "len div 256" 256] div_mult_mod_eq [of len 256] by linarith
  qed
  ultimately have "get_payload_length ?b = Inr len"
    by (simp add: get_payload_length_def payload_length_unat unat_of_nat_byte del: unsigned_of_nat)
  moreover have "take 4 (drop 5 ?b) = store_le 4 (htonl sid)"
    by (simp add: wire_header_def be_bytes_3 store_htonl)
  moreover have "mem_read ?b 3 2 = Inr [ty, flags]"
    by (simp add: mem_read_def wire_header_def be_bytes_3 numeral_2_eq_2)
  ultimately show ?thesis
    by (simp add: read_frame_header_def mem_read_def load_store)
qed

text \<open>
  C34: a frame header that is written into a block can be read back: \<open>recv_frame\<close> finds the length,
  type, flags and stream that \<open>build_frame_header\<close> or \<open>set_frame_header\<close> wrote (both write the same
  bytes), and the payload behind it is untouched.
\<close>

theorem frame_header_roundtrip:
  assumes "9 \<le> length buf" and "payload_length f = int len" and "len < 2 ^ 24" and "frame_stream_id f < 2 ^ 31"
  shows "\<exists>buf'. write_frame_header f buf = Inr buf' \<and>
    set_frame_header buf (frame_type f) (of_nat len) (frame_flags f) (frame_stream_id f) = Inr buf' \<and>
    length buf' = length buf \<and> drop 9 buf' = drop 9 buf \<and>
    read_frame_header buf' = Inr (len, frame_type f, frame_flags f, frame_stream_id f)"
proof -
  let ?w = "wire_header len (frame_type f) (frame_flags f) (unat (frame_stream_id f)) @ drop 9 buf"
  have "unat (of_nat len :: u32) = len" using assms(3) by (simp add: unat_of_nat)
  then have "set_frame_header buf (frame_type f) (of_nat len) (frame_flags f) (frame_stream_id f) = Inr ?w"
    using set_frame_header_wire [OF assms(1), of "frame_type f" "of_nat len"] by simp
  moreover have "write_frame_header f buf = Inr ?w"
    using write_frame_header_wire [OF assms(1), of f] assms(2) by simp
  moreover have "frame_stream_id f AND 0x7fffffff = frame_stream_id f"
  proof -
    have "(0x7fffffff :: u32) = mask 31" by (simp add: mask_eq_exp_minus_1)
    moreover have "take_bit 31 (frame_stream_id f) = frame_stream_id f"
      using assms(4) by (simp add: word_unat_eq_iff unat_take_bit_word word_less_nat_alt)
    ultimately show ?thesis by (simp add: take_bit_eq_mask)
  qed
  ultimately show ?thesis
    using read_wire_header [OF assms(3), of "frame_type f" "frame_flags f" "frame_stream_id f" "drop 9 buf"] assms(1) by simp
qed

theorem frame_header_roundtrip_witness:
  "\<exists>buf'. write_frame_header (Frame_new\<lparr>payload_length := 70000, frame_type := 1, frame_flags := 4, frame_stream_id := 257\<rparr>)
     (replicate 12 7) = Inr buf' \<and> read_frame_header buf' = Inr (70000, 1, 4, 257)"
  using frame_header_roundtrip [of "replicate 12 7"
      "Frame_new\<lparr>payload_length := 70000, frame_type := 1, frame_flags := 4, frame_stream_id := 257\<rparr>" 70000]
  by auto

end
