(* ===== verification/Http2_Client.thy ===== *)
theory Http2_Client
  imports Http2_Frame Co_Socket
begin

text \<open>
  \<open>src/coroutine/http2/client.cc\<close> and \<open>include/coroutine_http2_client.h\<close>: connecting, sending
  requests and receiving responses over one connection. The header compression of
  \<open>thirdparty/nghttp2\<close> is a parameter.
\<close>

unbundle bit_operations_syntax

section \<open>The client\<close>

text \<open>
  What the client calls of \<open>nghttp2\<close>. \<open>hd_deflate_hd\<close> gives the result and the bytes it wrote;
  \<open>hd_inflate_hd\<close> the result, the flags and the name and value it emitted, which are NUL-terminated.
\<close>

record ('d, 'i) nghttp2 =
  hd_deflate_new :: "u32 \<Rightarrow> int \<times> 'd"
  hd_inflate_new :: "int \<times> 'i"
  hd_deflate_bound :: "'d \<Rightarrow> nghttp2_nv list \<Rightarrow> nat"
  hd_deflate_hd :: "'d \<Rightarrow> nat \<Rightarrow> nghttp2_nv list \<Rightarrow> (int \<times> bytes) \<times> 'd"
  hd_deflate_change_table_size :: "'d \<Rightarrow> u32 \<Rightarrow> int \<times> 'd"
  hd_inflate_hd :: "'i \<Rightarrow> bytes \<Rightarrow> (int \<times> byte \<times> nghttp2_nv) \<times> 'i"
  hd_inflate_end_headers :: "'i \<Rightarrow> 'i"

definition NGHTTP2_HD_INFLATE_FINAL :: byte where "NGHTTP2_HD_INFLATE_FINAL = 1"
definition NGHTTP2_HD_INFLATE_EMIT :: byte where "NGHTTP2_HD_INFLATE_EMIT = 2"

text \<open>
  Streams are allocated in \<open>store\<close> at their addresses, \<open>None\<close> after their deletion. \<open>stack_buf\<close>
  is the block of the global \<open>FswG.buffer_stack\<close>.
\<close>

record ('e, 'd, 'i) h2_client =
  h2_env :: 'e
  h2_sock :: "co_socket option"
  local_settings :: h2_settings
  remote_settings :: h2_settings
  inflater :: 'i
  deflater :: 'd
  next_stream_id :: u32
  last_stream_id :: u32
  streams :: "(u32 \<times> nat) list"
  store :: "stream option list"
  stack_buf :: bytes

definition init_settings :: h2_settings where
  "init_settings =
     \<lparr>header_table_size = FSW_HTTP2_DEFAULT_HEADER_TABLE_SIZE, window_size = FSW_HTTP2_DEFAULT_WINDOW_SIZE,
      max_concurrent_streams = FSW_HTTP2_MAX_MAX_CONCURRENT_STREAMS, max_frame_size = FSW_HTTP2_MAX_MAX_FRAME_SIZE,
      max_header_list_size = FSW_HTTP2_DEFAULT_MAX_HEADER_LIST_SIZE\<rparr>"

definition init_settings_local_settings :: "('e, 'd, 'i) h2_client \<Rightarrow> ('e, 'd, 'i) h2_client" where
  "init_settings_local_settings c = c\<lparr>local_settings := init_settings\<rparr>"

definition init_settings_remote_settings :: "('e, 'd, 'i) h2_client \<Rightarrow> ('e, 'd, 'i) h2_client" where
  "init_settings_remote_settings c = c\<lparr>remote_settings := init_settings\<rparr>"

definition Client_new :: "('d, 'i) nghttp2 \<Rightarrow> 'e \<Rightarrow> bytes \<Rightarrow> ('e, 'd, 'i) h2_client res" where
  "Client_new ng e blk =
     (case hd_deflate_new ng FSW_HTTP2_DEFAULT_HEADER_TABLE_SIZE of (ret, d) \<Rightarrow>
        if ret \<noteq> 0 then Inl ExitError
        else case hd_inflate_new ng of (ret, i) \<Rightarrow>
          if ret \<noteq> 0 then Inl ExitError
          else Inr (init_settings_remote_settings (init_settings_local_settings
            \<lparr>h2_env = e, h2_sock = None, local_settings = init_settings, remote_settings = init_settings, inflater = i,
             deflater = d, next_stream_id = 1, last_stream_id = 0, streams = [], store = [], stack_buf = blk\<rparr>)))"

section \<open>Streams and memory\<close>

definition get_stream :: "('e, 'd, 'i) h2_client \<Rightarrow> u32 \<Rightarrow> stream_ptr" where
  "get_stream c sid = (case map_of (streams c) sid of None \<Rightarrow> Null | Some a \<Rightarrow> At a)"

definition deref :: "stream_ptr \<Rightarrow> (('e, 'd, 'i) h2_client, stream) call" where
  "deref p c =
     (case p of
        Wild \<Rightarrow> Some (Inl Uninitialised)
      | Null \<Rightarrow> Some (Inl NullPointer)
      | At a \<Rightarrow> (case if a < length (store c) then store c ! a else None of
            None \<Rightarrow> Some (Inl UseAfterFree) | Some s \<Rightarrow> Some (Inr (s, c))))"

definition assign :: "stream_ptr \<Rightarrow> stream \<Rightarrow> ('e, 'd, 'i) h2_client \<Rightarrow> ('e, 'd, 'i) h2_client" where
  "assign p s c = (case p of At a \<Rightarrow> c\<lparr>store := (store c)[a := Some s]\<rparr> | _ \<Rightarrow> c)"

definition destroy_stream :: "stream_ptr \<Rightarrow> (('e, 'd, 'i) h2_client, unit) call" where
  "destroy_stream p =
     call_then (deref p)
       (call_modify (\<lambda>c. case p of At a \<Rightarrow> c\<lparr>store := (store c)[a := None]\<rparr> | _ \<Rightarrow> c))"

definition delete_stream :: "u32 \<Rightarrow> (('e, 'd, 'i) h2_client, bool) call" where
  "delete_stream sid c =
     (case map_of (streams c) sid of
        None \<Rightarrow> call_return False c
      | Some a \<Rightarrow> call_then (destroy_stream (At a))
          (call_then (call_modify (\<lambda>c. c\<lparr>streams := filter (\<lambda>(k, _). k \<noteq> sid) (streams c)\<rparr>)) (call_return True)) c)"

text \<open>\<open>emplace\<close> keeps an entry that is there.\<close>

definition emplace_stream :: "u32 \<Rightarrow> nat \<Rightarrow> ('e, 'd, 'i) h2_client \<Rightarrow> ('e, 'd, 'i) h2_client" where
  "emplace_stream sid a c = (if map_of (streams c) sid = None then c\<lparr>streams := (sid, a) # streams c\<rparr> else c)"

text \<open>The three blocks that frames are built in or received into.\<close>

definition get_block :: "h2_block \<Rightarrow> (('e, 'd, 'i) h2_client, bytes) call" where
  "get_block blk c =
     (case blk of
        StackBuf \<Rightarrow> Some (Inr (stack_buf c, c))
      | WriteBuf \<Rightarrow> (case h2_sock c of
            None \<Rightarrow> Some (Inl NullPointer)
          | Some s \<Rightarrow> (case get_write_buf s of (b, s) \<Rightarrow> Some (Inr (buf_data b, c\<lparr>h2_sock := Some s\<rparr>))))
      | ReadBuf \<Rightarrow> (case h2_sock c of
            None \<Rightarrow> Some (Inl NullPointer)
          | Some s \<Rightarrow> (case get_read_buf s of (b, s) \<Rightarrow> Some (Inr (buf_data b, c\<lparr>h2_sock := Some s\<rparr>)))))"

definition set_block :: "h2_block \<Rightarrow> bytes \<Rightarrow> ('e, 'd, 'i) h2_client \<Rightarrow> ('e, 'd, 'i) h2_client" where
  "set_block blk bs c =
     (case blk of
        StackBuf \<Rightarrow> c\<lparr>stack_buf := bs\<rparr>
      | WriteBuf \<Rightarrow> c\<lparr>h2_sock := map_option (\<lambda>s. s\<lparr>write_buf := map_option (\<lambda>b. b\<lparr>buf_data := bs\<rparr>) (write_buf s)\<rparr>) (h2_sock c)\<rparr>
      | ReadBuf \<Rightarrow> c\<lparr>h2_sock := map_option (\<lambda>s. s\<lparr>read_buf := map_option (\<lambda>b. b\<lparr>buf_data := bs\<rparr>) (read_buf s)\<rparr>) (h2_sock c)\<rparr>)"

definition on_block :: "h2_block \<Rightarrow> (bytes \<Rightarrow> bytes res) \<Rightarrow> (('e, 'd, 'i) h2_client, unit) call" where
  "on_block blk f =
     call_bind (get_block blk) (\<lambda>bs. call_bind (call_res (f bs)) (\<lambda>bs'. call_modify (set_block blk bs')))"

definition of_payload :: "h2_frame \<Rightarrow> (h2_block \<Rightarrow> (('e, 'd, 'i) h2_client, 'a) call) \<Rightarrow> (('e, 'd, 'i) h2_client, 'a) call" where
  "of_payload f g = (case payload f of None \<Rightarrow> call_fault NullPointer | Some blk \<Rightarrow> g blk)"

section \<open>Sending\<close>

definition h2_on_env :: "('e, 'a) call \<Rightarrow> (('e, 'd, 'i) h2_client, 'a) call" where
  "h2_on_env = call_on h2_env (\<lambda>e c. c\<lparr>h2_env := e\<rparr>)"

text \<open>Every turn of \<open>send_all\<close> moves at least a byte: one more turn than bytes is enough.\<close>

definition h2_send :: "nat \<Rightarrow> 'e sys \<Rightarrow> bytes \<Rightarrow> (('e, 'd, 'i) h2_client, bool) call" where
  "h2_send n sys bs =
     call_bind (call_get h2_sock) (\<lambda>so. case so of
       None \<Rightarrow> call_fault NullPointer
     | Some s \<Rightarrow> call_bind (h2_on_env (co_send_all (Suc (length bs)) n sys s bs)) (\<lambda>ret.
         call_return (if ret \<noteq> int (length bs) then False else True)))"

definition h2_send_frame :: "nat \<Rightarrow> 'e sys \<Rightarrow> h2_frame \<Rightarrow> (('e, 'd, 'i) h2_client, bool) call" where
  "h2_send_frame n sys f =
     of_payload f (\<lambda>blk.
       call_bind (get_block blk) (\<lambda>bs.
       call_bind (call_res (mem_read bs 0 (FSW_HTTP2_FRAME_HEADER_SIZE + nat (payload_length f)))) (h2_send n sys)))"

definition build_frame_header :: "h2_frame \<Rightarrow> (('e, 'd, 'i) h2_client, unit) call" where
  "build_frame_header f = of_payload f (\<lambda>blk. on_block blk (write_frame_header f))"

definition build_setting_frame :: "h2_frame \<Rightarrow> (('e, 'd, 'i) h2_client, h2_frame) call" where
  "build_setting_frame f =
     (let f = f\<lparr>frame_flags := 0, frame_type := FSW_HTTP2_TYPE_SETTINGS, frame_stream_id := 0, payload := Some WriteBuf,
        payload_length := 3 * 6\<rparr>
      in call_then (get_block WriteBuf)
        (call_then (build_frame_header f)
        (call_bind (call_get local_settings) (\<lambda>ls.
         call_then (on_block WriteBuf (\<lambda>bs.
           res_bind (mem_write bs 9 (setting_bytes FSW_HTTP2_SETTING_HEADER_TABLE_SIZE (header_table_size ls))) (\<lambda>bs.
           res_bind (mem_write bs 15 (setting_bytes FSW_HTTP2_SETTINGS_MAX_CONCURRENT_STREAMS (max_concurrent_streams ls))) (\<lambda>bs.
           mem_write bs 21 (setting_bytes FSW_HTTP2_SETTINGS_INIT_WINDOW_SIZE (window_size ls))))))
         (call_return f)))))"

definition h2_connect :: "nat \<Rightarrow> 'e sys \<Rightarrow> cstring \<Rightarrow> u16 \<Rightarrow> (('e, 'd, 'i) h2_client, bool) call" where
  "h2_connect n sys host port =
     call_bind (call_get h2_sock) (\<lambda>so.
     if so \<noteq> None then call_return True
     else
       call_bind (h2_on_env (\<lambda>e. Some (Inr (co_socket_new sys AF_INET SOCK_STREAM 0 e)))) (\<lambda>s.
       call_then (call_modify (\<lambda>c. c\<lparr>h2_sock := Some s\<rparr>))
      (call_bind (h2_on_env (co_connect_host n sys s host port)) (\<lambda>(ok, s).
       call_then (call_modify (\<lambda>c. c\<lparr>h2_sock := Some s\<rparr>))
      (if \<not> ok then call_return False
       else call_bind (h2_send n sys FSW_HTTP2_PRI_STRING) (\<lambda>ok.
         if \<not> ok then call_return False
         else call_bind (build_setting_frame Frame_new) (h2_send_frame n sys)))))))"

text \<open>
  \<open>FSW_STRL(s.c_str())\<close> is \<open>sizeof\<close> of the pointer less one: 7 bytes of every name and value of
  \<open>req->header\<close>, whatever their lengths.
\<close>

definition h2_header_list :: "h2_request \<Rightarrow> h2_headers res" where
  "h2_header_list req =
     res_bind (Headers_add (str '':method'') 7 (c_str (h2_method req)) (length (h2_method req))
       (Headers_new (FSW_HTTP2_MAX_STATUS_LINE_NUM + length (h2_header req)))) (\<lambda>h.
     res_bind (Headers_add (str '':path'') 5 (c_str (h2_path req)) (length (h2_path req)) h) (\<lambda>h.
     res_bind (Headers_add (str '':scheme'') 7 (str ''http'') 4 h) (\<lambda>h.
     res_bind (Headers_add (str '':authority'') 10 (str ''127.0.0.1'') 9 h) (\<lambda>h.
     res_fold (\<lambda>h (k, v). Headers_add (c_str k) 7 (c_str v) 7 h) h (h2_header req)))))"

definition h2_build_http_header :: "('d, 'i) nghttp2 \<Rightarrow> h2_frame \<Rightarrow> h2_request \<Rightarrow> (('e, 'd, 'i) h2_client, int) call" where
  "h2_build_http_header ng f req =
     of_payload f (\<lambda>blk.
     call_bind (call_res (h2_header_list req)) (\<lambda>h.
     call_bind (call_get deflater) (\<lambda>d.
     case hd_deflate_hd ng d (hd_deflate_bound ng d (nvs h)) (nvs h) of
       ((rv, bs), d) \<Rightarrow>
         call_then (call_modify (\<lambda>c. c\<lparr>deflater := d\<rparr>))
        (call_then (on_block blk (\<lambda>m. mem_write m FSW_HTTP2_FRAME_HEADER_SIZE bs))
        (if rv < 0 then call_fault ExitError else call_return rv)))))"

definition send_http_header_frame ::
    "nat \<Rightarrow> 'e sys \<Rightarrow> ('d, 'i) nghttp2 \<Rightarrow> h2_frame \<Rightarrow> h2_request \<Rightarrow> (('e, 'd, 'i) h2_client, bool \<times> h2_frame) call" where
  "send_http_header_frame n sys ng f req =
     call_bind (call_get (\<lambda>c. (next_stream_id c, length (store c)))) (\<lambda>(sid, a).
     let s = Stream_new sid (pipeline req); f = f\<lparr>payload := Some StackBuf\<rparr> in
     call_then (call_modify (\<lambda>c. c\<lparr>store := store c @ [Some s]\<rparr>))
    (call_bind (h2_build_http_header ng f req) (\<lambda>len.
     if len \<le> 0 then call_return (False, f)
     else
       let f = f\<lparr>frame_type := FSW_HTTP2_TYPE_HEADERS, payload_length := len, frame_stream_id := sid, frame_stream := At a,
         frame_flags := if h2_body req = None \<and> str_flags s AND FSW_HTTP2_STREAM_PIPELINE_REQUEST = 0
           then FSW_HTTP2_FLAG_END_HEADERS OR FSW_HTTP2_FLAG_END_STREAM else FSW_HTTP2_FLAG_END_HEADERS\<rparr>
       in call_then (build_frame_header f)
         (call_then (call_modify (emplace_stream sid a))
         (call_bind (h2_send_frame n sys f) (\<lambda>ok. call_return (ok, f)))))))"

text \<open>\<open>memcpy(frame->payload, req->body, req->body_length)\<close>; \<open>body_length\<close> has no initial value.\<close>

definition copy_body :: "h2_request \<Rightarrow> (bytes \<times> nat) res" where
  "copy_body req =
     (case h2_body_length req of
        None \<Rightarrow> Inl Uninitialised
      | Some len \<Rightarrow> (case h2_body req of
          None \<Rightarrow> if len = 0 then Inr ([], 0) else Inl NullPointer
        | Some bs \<Rightarrow> res_bind (mem_read bs 0 (unat len)) (\<lambda>bs. Inr (bs, unat len))))"

definition send_http_body_frame ::
    "nat \<Rightarrow> 'e sys \<Rightarrow> h2_frame \<Rightarrow> h2_request \<Rightarrow> (('e, 'd, 'i) h2_client, bool \<times> h2_frame) call" where
  "send_http_body_frame n sys f req =
     (if frame_stream f = Wild then call_fault Uninitialised
      else
        call_bind (call_res (copy_body req)) (\<lambda>(bs, len).
        call_then (on_block StackBuf (\<lambda>m. mem_write m FSW_HTTP2_FRAME_HEADER_SIZE bs))
       (call_bind (deref (frame_stream f)) (\<lambda>s.
        let f = f\<lparr>payload := Some StackBuf, frame_type := FSW_HTTP2_TYPE_DATA, payload_length := int len,
          frame_flags := if str_flags s AND FSW_HTTP2_STREAM_PIPELINE_REQUEST \<noteq> 0 then 0 else FSW_HTTP2_FLAG_END_STREAM\<rparr>
        in call_then (build_frame_header f)
          (call_bind (h2_send_frame n sys f) (\<lambda>ok. call_return (ok, f)))))))"

definition send_request :: "nat \<Rightarrow> 'e sys \<Rightarrow> ('d, 'i) nghttp2 \<Rightarrow> h2_request \<Rightarrow> (('e, 'd, 'i) h2_client, u32) call" where
  "send_request n sys ng req =
     call_bind (send_http_header_frame n sys ng Frame_new req) (\<lambda>(_, f).
     call_bind (send_http_body_frame n sys f req) (\<lambda>(_, f).
     call_then (call_modify (\<lambda>c. c\<lparr>next_stream_id := next_stream_id c + 2\<rparr>))
    (call_bind (deref (frame_stream f)) (\<lambda>s. call_return (str_id s)))))"

definition write_data :: "nat \<Rightarrow> 'e sys \<Rightarrow> u32 \<Rightarrow> bytes \<Rightarrow> bool \<Rightarrow> (('e, 'd, 'i) h2_client, u32) call" where
  "write_data n sys sid dat end_stream =
     call_then (on_block StackBuf (\<lambda>m. mem_write m FSW_HTTP2_FRAME_HEADER_SIZE dat))
    (call_bind (call_get (\<lambda>c. get_stream c sid)) (\<lambda>p.
     let f = Frame_new\<lparr>frame_flags := if end_stream then FSW_HTTP2_FLAG_END_STREAM else 0, payload := Some StackBuf,
       payload_length := int (length dat), frame_stream := p, frame_stream_id := sid, frame_type := FSW_HTTP2_TYPE_DATA\<rparr>
     in call_then (build_frame_header f)
       (call_then (h2_send_frame n sys f) (call_return sid))))"

section \<open>Receiving\<close>

definition parse_header_stop :: "('d, 'i) nghttp2 \<Rightarrow> byte \<Rightarrow> nat \<Rightarrow> 'i \<Rightarrow> bool \<times> 'i" where
  "parse_header_stop ng inflate_flags inlen i =
     (let stop = inflate_flags AND NGHTTP2_HD_INFLATE_FINAL \<noteq> 0;
          i = if stop then hd_inflate_end_headers ng i else i
      in (stop \<or> inlen = 0, i))"

text \<open>One emitted header. A name or value is used as a NUL-terminated string.\<close>

definition take_header :: "nghttp2_nv \<Rightarrow> h2_response \<Rightarrow> h2_response" where
  "take_header nv r =
     (let name = fst nv; val = snd nv
      in if char_at name 0 = 58 \<and> length name - 1 = 6 \<and> strncasecmp_eq (drop 1 name) (str ''status'') (length name - 1)
         then r\<lparr>status_code := Some (atoi (from_c_str val))\<rparr>
         else r\<lparr>h2_resp_header := map_put (from_c_str name) (from_c_str val) (h2_resp_header r)\<rparr>)"

text \<open>The loop of \<open>parse_frame_header\<close>, at most \<open>k\<close> turns; false for \<open>FSW_ERR\<close>.\<close>

primrec inflate_loop ::
    "nat \<Rightarrow> ('d, 'i) nghttp2 \<Rightarrow> byte \<Rightarrow> bytes \<Rightarrow> h2_response \<Rightarrow> 'i \<Rightarrow> ((bool \<times> h2_response) \<times> 'i) option" where
  "inflate_loop 0 ng inflate_flags inp r i = None"
| "inflate_loop (Suc k) ng inflate_flags inp r i =
     (case parse_header_stop ng inflate_flags (length inp) i of
        (True, i) \<Rightarrow> Some ((True, r), i)
      | (False, i) \<Rightarrow>
          (case hd_inflate_hd ng i inp of
             ((rv, fl, nv), i) \<Rightarrow>
               if rv < 0 then Some ((False, r), i)
               else inflate_loop k ng fl (drop (nat rv) inp)
                 (if fl AND NGHTTP2_HD_INFLATE_EMIT \<noteq> 0 then take_header nv r else r) i))"

text \<open>\<open>Response response = frame->stream->response\<close> is a copy.\<close>

definition parse_frame_header :: "nat \<Rightarrow> ('d, 'i) nghttp2 \<Rightarrow> h2_frame \<Rightarrow> (('e, 'd, 'i) h2_client, bool) call" where
  "parse_frame_header k ng f =
     of_payload f (\<lambda>blk.
     call_bind (get_block blk) (\<lambda>bs.
     call_bind (deref (frame_stream f)) (\<lambda>s.
     call_bind (call_res (mem_read bs FSW_HTTP2_FRAME_HEADER_SIZE (nat (payload_length f)))) (\<lambda>inp.
     call_bind (call_get inflater) (\<lambda>i c.
     case inflate_loop k ng 0 inp (str_response s) i of
       None \<Rightarrow> None
     | Some ((ok, response), i) \<Rightarrow> Some (Inr (ok, c\<lparr>inflater := i\<rparr>)))))))"

definition parse_payload :: "h2_frame \<Rightarrow> (('e, 'd, 'i) h2_client, unit) call" where
  "parse_payload f =
     call_then (if frame_flags f AND FSW_HTTP2_FLAG_END_STREAM = 0
       then call_bind (deref (frame_stream f)) (\<lambda>s.
         call_modify (assign (frame_stream f) (s\<lparr>str_flags := str_flags s OR FSW_HTTP2_STREAM_PIPELINE_RESPONSE\<rparr>)))
       else call_return ())
    (if 0 < payload_length f
     then
       call_bind (deref (frame_stream f)) (\<lambda>s.
       let b = (case str_buffer s of Some b \<Rightarrow> b | None \<Rightarrow> Buffer_new 0 (of_nat READ_BUF_MAX_SIZE));
           len = word_of_int (payload_length f)
       in of_payload f (\<lambda>blk.
         call_bind (get_block blk) (\<lambda>bs.
         call_bind (call_res (append_chars b (drop FSW_HTTP2_FRAME_HEADER_SIZE bs) len)) (\<lambda>b.
         call_modify (\<lambda>c. assign (frame_stream f)
           (s\<lparr>str_buffer := Some b, local_window_size := local_window_size s - ucast len\<rparr>)
           (c\<lparr>local_settings := (local_settings c)\<lparr>window_size := window_size (local_settings c) - ucast len\<rparr>\<rparr>))))))
     else call_return ())"

text \<open>One entry of a SETTINGS frame; false when the table size could not be changed.\<close>

definition parse_setting :: "('d, 'i) nghttp2 \<Rightarrow> u16 \<Rightarrow> u32 \<Rightarrow> ('e, 'd, 'i) h2_client \<Rightarrow> bool \<times> ('e, 'd, 'i) h2_client" where
  "parse_setting ng sid val c =
     (let r = remote_settings c in
      if sid = FSW_HTTP2_SETTING_HEADER_TABLE_SIZE then
        (if val \<noteq> header_table_size r then
           (case hd_deflate_change_table_size ng (deflater c) val of (ret, d) \<Rightarrow>
              (ret = 0, c\<lparr>remote_settings := r\<lparr>header_table_size := val\<rparr>, deflater := d\<rparr>))
         else (True, c))
      else if sid = FSW_HTTP2_SETTINGS_MAX_CONCURRENT_STREAMS then (True, c\<lparr>remote_settings := r\<lparr>max_concurrent_streams := val\<rparr>\<rparr>)
      else if sid = FSW_HTTP2_SETTINGS_INIT_WINDOW_SIZE then (True, c\<lparr>remote_settings := r\<lparr>window_size := val\<rparr>\<rparr>)
      else if sid = FSW_HTTP2_SETTINGS_MAX_FRAME_SIZE then (True, c\<lparr>remote_settings := r\<lparr>max_frame_size := val\<rparr>\<rparr>)
      else if sid = FSW_HTTP2_SETTINGS_MAX_HEADER_LIST_SIZE then (True, c\<lparr>remote_settings := r\<lparr>max_header_list_size := val\<rparr>\<rparr>)
      else (True, c))"

text \<open>
  The loop over the entries, from offset \<open>pos\<close> of the block with \<open>len\<close> bytes to go. It reads six
  bytes whenever there is at least one to go. The result is the last value, \<open>None\<close> for \<open>FSW_ERR\<close>.
\<close>

fun parse_settings_loop ::
    "('d, 'i) nghttp2 \<Rightarrow> bytes \<Rightarrow> nat \<Rightarrow> nat \<Rightarrow> u32 \<Rightarrow> (('e, 'd, 'i) h2_client, u32 option) call" where
  "parse_settings_loop ng bs pos len prev c =
     (if len = 0 then call_return (Some prev) c
      else call_bind (call_res (mem_read bs pos 2)) (\<lambda>ib.
        call_bind (call_res (mem_read bs (pos + 2) 4)) (\<lambda>vb c.
        let val = ntohl (load_le vb) in
        case parse_setting ng (ntohs (load_le ib)) val c of
          (False, c) \<Rightarrow> call_return None c
        | (True, c) \<Rightarrow> parse_settings_loop ng bs (pos + 6) (len - 6) val c)) c)"

declare parse_settings_loop.simps [simp del]

definition parse_setting_frame :: "nat \<Rightarrow> 'e sys \<Rightarrow> ('d, 'i) nghttp2 \<Rightarrow> h2_frame \<Rightarrow> (('e, 'd, 'i) h2_client, u32 option) call" where
  "parse_setting_frame n sys ng f =
     of_payload f (\<lambda>blk.
     call_bind (get_block blk) (\<lambda>bs.
     call_bind (parse_settings_loop ng bs FSW_HTTP2_FRAME_HEADER_SIZE (nat (payload_length f)) 0) (\<lambda>r.
     case r of
       None \<Rightarrow> call_return None
     | Some val \<Rightarrow>
         call_bind (call_res (set_frame_header (replicate (FSW_HTTP2_FRAME_HEADER_SIZE + FSW_HTTP2_FRAME_PING_PAYLOAD_SIZE) 0)
           FSW_HTTP2_TYPE_SETTINGS 0 FSW_HTTP2_FLAG_ACK (frame_stream_id f))) (\<lambda>ack.
         call_bind (h2_send n sys (take FSW_HTTP2_FRAME_HEADER_SIZE ack)) (\<lambda>ok.
         call_return (if ok then Some val else None))))))"

datatype fswReturn_code = FSW_CONTINUE | FSW_WAIT | FSW_CLOSE | FSW_ERROR | FSW_READY

definition ignored_types :: "byte list" where
  "ignored_types = [FSW_HTTP2_TYPE_WINDOW_UPDATE, FSW_HTTP2_TYPE_PING, FSW_HTTP2_TYPE_GOAWAY, FSW_HTTP2_TYPE_RST_STREAM,
     FSW_HTTP2_TYPE_PUSH_PROMISE]"

text \<open>The end of a stream hands the collected body to the response.\<close>

definition finish_stream :: "stream_ptr \<Rightarrow> (('e, 'd, 'i) h2_client, unit) call" where
  "finish_stream p =
     call_bind (deref p) (\<lambda>s.
     case str_buffer s of
       None \<Rightarrow> call_return ()
     | Some b \<Rightarrow>
         if 0 < buf_length b then
           call_bind (call_res (mem_read (buf_data b) 0 (unat (buf_length b)))) (\<lambda>bs.
           call_bind (call_res (Buffer_clear b)) (\<lambda>b.
           call_modify (assign p (s\<lparr>str_buffer := Some b, str_response := (str_response s)\<lparr>resp_body := bs\<rparr>\<rparr>))))
         else call_return ())"

definition parse_frame :: "nat \<Rightarrow> nat \<Rightarrow> 'e sys \<Rightarrow> ('d, 'i) nghttp2 \<Rightarrow> h2_frame \<Rightarrow> (('e, 'd, 'i) h2_client, fswReturn_code) call" where
  "parse_frame k n sys ng f =
     call_then (call_modify (\<lambda>c. if last_stream_id c < next_stream_id c then c\<lparr>last_stream_id := next_stream_id c\<rparr> else c))
    (if frame_type f = FSW_HTTP2_TYPE_SETTINGS then call_then (parse_setting_frame n sys ng f) (call_return FSW_CONTINUE)
     else if frame_type f \<in> set ignored_types then call_return FSW_CONTINUE
     else
       call_then
         (if frame_type f = FSW_HTTP2_TYPE_HEADERS then call_then (parse_frame_header k ng f) (call_return ())
          else if frame_type f = FSW_HTTP2_TYPE_DATA then parse_payload f
          else call_return ())
         (if frame_flags f AND FSW_HTTP2_FLAG_END_STREAM \<noteq> 0 \<or> frame_type f = FSW_HTTP2_TYPE_RST_STREAM
             \<or> frame_type f = FSW_HTTP2_TYPE_GOAWAY
          then call_then
            (if frame_type f = FSW_HTTP2_TYPE_RST_STREAM
             then call_bind (deref (frame_stream f)) (\<lambda>s. call_modify (assign (frame_stream f)
               (s\<lparr>str_response := (str_response s)\<lparr>status_code := Some (-3), err_code_of := Some 0\<rparr>\<rparr>)))
             else call_return ())
           (call_then (finish_stream (frame_stream f)) (call_return FSW_READY))
          else call_return FSW_CONTINUE))"

text \<open>The results of both \<open>recv\<close> are ignored.\<close>

definition h2_recv_into :: "nat \<Rightarrow> 'e sys \<Rightarrow> nat \<Rightarrow> nat \<Rightarrow> (('e, 'd, 'i) h2_client, unit) call" where
  "h2_recv_into n sys off len =
     call_bind (call_get h2_sock) (\<lambda>so. case so of
       None \<Rightarrow> call_fault NullPointer
     | Some s \<Rightarrow> call_bind (h2_on_env (co_recv n sys s len)) (\<lambda>(ret, bs). on_block ReadBuf (\<lambda>m. mem_write m off bs)))"

definition h2_recv_frame :: "nat \<Rightarrow> 'e sys \<Rightarrow> h2_frame \<Rightarrow> (('e, 'd, 'i) h2_client, h2_frame) call" where
  "h2_recv_frame n sys f =
     call_then (get_block ReadBuf)
    (call_then (h2_recv_into n sys 0 FSW_HTTP2_FRAME_HEADER_SIZE)
    (call_bind (get_block ReadBuf) (\<lambda>bs.
     call_bind (call_res (get_payload_length bs)) (\<lambda>len.
     call_then (h2_recv_into n sys FSW_HTTP2_FRAME_HEADER_SIZE len)
    (call_bind (get_block ReadBuf) (\<lambda>bs.
     call_bind (call_res (read_frame_header bs)) (\<lambda>(_, ty, fl, sid).
     call_bind (call_get (\<lambda>c. get_stream c sid)) (\<lambda>p.
     call_return (f\<lparr>frame_flags := fl, payload := Some ReadBuf, payload_length := int len, frame_stream_id := sid,
       frame_type := ty, frame_stream := p\<rparr>)))))))))"

text \<open>The loop of \<open>recv_reponse\<close>, at most \<open>m\<close> frames.\<close>

primrec recv_loop :: "nat \<Rightarrow> nat \<Rightarrow> nat \<Rightarrow> 'e sys \<Rightarrow> ('d, 'i) nghttp2 \<Rightarrow> h2_frame \<Rightarrow> (('e, 'd, 'i) h2_client, h2_frame) call" where
  "recv_loop 0 k n sys ng f c = None"
| "recv_loop (Suc m) k n sys ng f c =
     call_bind (h2_recv_frame n sys f) (\<lambda>f.
     call_bind (parse_frame k n sys ng f) (\<lambda>ret.
     if ret = FSW_CONTINUE then recv_loop m k n sys ng f
     else if ret = FSW_READY then call_return f
     else recv_loop m k n sys ng f)) c"

definition recv_reponse :: "nat \<Rightarrow> nat \<Rightarrow> nat \<Rightarrow> 'e sys \<Rightarrow> ('d, 'i) nghttp2 \<Rightarrow> (('e, 'd, 'i) h2_client, h2_response) call" where
  "recv_reponse m k n sys ng =
     call_bind (recv_loop m k n sys ng Frame_new) (\<lambda>f.
     call_bind (deref (frame_stream f)) (\<lambda>s. call_return (str_response s)))"

end
