(* ===== verification/Http2_Streams.thy ===== *)
theory Http2_Streams
  imports Http2_Client
begin

text \<open>
  What the client keeps of its streams: a response never gets its status and headers, and every
  request opens a stream with a number of its own.
\<close>

unbundle bit_operations_syntax

section \<open>What is lost of a response\<close>

definition blank :: "stream \<Rightarrow> bool" where
  "blank s \<longleftrightarrow> status_code (str_response s) = None \<and> h2_resp_header (str_response s) = []"

definition blank_store :: "('e, 'd, 'i) h2_client \<Rightarrow> bool" where
  "blank_store c \<longleftrightarrow> list_all (\<lambda>so. case so of None \<Rightarrow> True | Some s \<Rightarrow> blank s) (store c)"

lemma blank_store_cong: "store c' = store c \<Longrightarrow> blank_store c \<Longrightarrow> blank_store c'"
  by (simp add: blank_store_def)

lemma blank_assign: "blank s \<Longrightarrow> blank_store c \<Longrightarrow> blank_store (assign p s c)"
  by (auto simp: blank_store_def assign_def list_all_iff dest!: set_update_subset_insert [THEN subsetD]
      split: stream_ptr.splits)

lemma deref_blank: "blank_store c \<Longrightarrow> deref p c = Some (Inr (s, c')) \<Longrightarrow> c' = c \<and> blank s"
  by (auto simp: deref_def blank_store_def list_all_length split: stream_ptr.splits option.splits if_splits)

lemma keeps_deref:
  "(\<And>s. blank s \<Longrightarrow> call_keeps blank_store (f s)) \<Longrightarrow> call_keeps blank_store (call_bind (deref p) f)"
  unfolding call_keeps_def call_bind_returns using deref_blank by (metis prod.collapse)

text \<open>Memory and the world outside do not matter to a statement about the streams.\<close>

definition about_streams :: "(('e, 'd, 'i) h2_client \<Rightarrow> bool) \<Rightarrow> bool" where
  "about_streams I \<longleftrightarrow>
     (\<forall>c c'. I c \<longrightarrow> store c' = store c \<longrightarrow> streams c' = streams c \<longrightarrow> next_stream_id c' = next_stream_id c \<longrightarrow> I c')"

lemma about_streamsD:
  "about_streams I \<Longrightarrow> I c \<Longrightarrow> store c' = store c \<Longrightarrow> streams c' = streams c \<Longrightarrow> next_stream_id c' = next_stream_id c \<Longrightarrow> I c'"
  by (simp add: about_streams_def)

lemma blank_about_streams [simp]: "about_streams blank_store"
  by (simp add: about_streams_def blank_store_def)

lemma keeps_env: "about_streams I \<Longrightarrow> call_keeps I (h2_on_env m)"
  unfolding h2_on_env_def by (rule call_keeps_on) (erule (1) about_streamsD; simp)

lemma keeps_get_block: "about_streams I \<Longrightarrow> call_keeps I (get_block blk)"
  by (cases blk) (auto simp: call_keeps_def get_block_def split: option.splits prod.splits elim: about_streamsD)

lemma keeps_set_block: "about_streams I \<Longrightarrow> call_keeps I (call_modify (set_block blk bs))"
  by (rule call_keeps_modify) (erule (1) about_streamsD; simp add: set_block_def split: h2_block.split)

lemma keeps_on_block: "about_streams I \<Longrightarrow> call_keeps I (on_block blk f)"
  unfolding on_block_def by (intro call_keeps_bind call_keeps_basic keeps_get_block keeps_set_block)

lemma keeps_of_payload: "(\<And>blk. call_keeps I (g blk)) \<Longrightarrow> call_keeps I (of_payload f g)"
  by (simp add: of_payload_def split: option.split)

lemmas keeps_intros = call_keeps_intros keeps_env keeps_get_block keeps_on_block keeps_of_payload

lemma keeps_send: "about_streams I \<Longrightarrow> call_keeps I (h2_send n sys bs)"
  unfolding h2_send_def by (intro call_keeps_bind call_keeps_basic) (auto intro!: keeps_intros split: option.split)

lemma keeps_send_frame: "about_streams I \<Longrightarrow> call_keeps I (h2_send_frame n sys f)"
  unfolding h2_send_frame_def by (intro keeps_of_payload call_keeps_bind call_keeps_basic keeps_get_block keeps_send)

lemma keeps_build_header: "about_streams I \<Longrightarrow> call_keeps I (build_frame_header f)"
  unfolding build_frame_header_def by (intro keeps_of_payload keeps_on_block)

lemma keeps_parse_payload: "call_keeps blank_store (parse_payload f)"
proof -
  have "blank_store (assign p (s\<lparr>str_buffer := b, local_window_size := w\<rparr>) (c\<lparr>local_settings := ls\<rparr>))"
    if "blank s" "blank_store c" for p s b w ls and c :: "('e, 'd, 'i) h2_client"
    using that by (intro blank_assign) (auto simp: blank_def blank_store_def)
  moreover have "blank_store (assign p (s\<lparr>str_flags := fl\<rparr>) c)"
    if "blank s" "blank_store c" for p s fl and c :: "('e, 'd, 'i) h2_client"
    using that by (intro blank_assign) (auto simp: blank_def)
  ultimately show ?thesis
    unfolding parse_payload_def Let_def
    by (auto intro!: keeps_intros keeps_deref split: option.split)
qed

lemma keeps_finish: "call_keeps blank_store (finish_stream p)"
proof -
  have "blank_store (assign p (s\<lparr>str_buffer := b, str_response := (str_response s)\<lparr>resp_body := bs\<rparr>\<rparr>) c)"
    if "blank s" "blank_store c" for p s b bs and c :: "('e, 'd, 'i) h2_client"
    using that by (intro blank_assign) (auto simp: blank_def)
  then show ?thesis
    unfolding finish_stream_def by (auto intro!: keeps_intros keeps_deref split: option.split)
qed

lemma parse_setting_store: "store (snd (parse_setting ng sid val c)) = store c"
  by (simp add: parse_setting_def Let_def split: prod.split)

lemma keeps_settings_loop:
  fixes ng :: "('d, 'i) nghttp2"
  shows "call_keeps (blank_store :: ('e, 'd, 'i) h2_client \<Rightarrow> bool) (parse_settings_loop ng bs pos len prev)"
proof (induction len arbitrary: pos prev rule: less_induct)
  case (less len)
  show ?case
  proof (cases "len = 0")
    case False
    have "call_keeps (blank_store :: ('e, 'd, 'i) h2_client \<Rightarrow> bool) (\<lambda>c. case parse_setting ng sid val c of
          (False, c) \<Rightarrow> call_return None c
        | (True, c) \<Rightarrow> parse_settings_loop ng bs (pos + 6) (len - 6) val c)" for sid val
      unfolding call_keeps_def
    proof (intro allI impI)
      fix c x and t :: "('e, 'd, 'i) h2_client"
      assume b: "blank_store c" and r: "(case parse_setting ng sid val c of (False, c) \<Rightarrow> call_return None c
        | (True, c) \<Rightarrow> parse_settings_loop ng bs (pos + 6) (len - 6) val c) = Some (Inr (x, t))"
      obtain ok c1 where c1: "parse_setting ng sid val c = (ok, c1)" by force
      then have "blank_store c1" using b parse_setting_store [of ng sid val c] by (simp add: blank_store_def)
      moreover have "len - 6 < len" using False by simp
      ultimately show "blank_store t"
        using less [of "len - 6" "pos + 6" val] r c1 by (cases ok) (auto simp: call_keeps_def call_return_def)
    qed
    then show ?thesis
      using False by (simp add: parse_settings_loop.simps [abs_def] Let_def call_keeps_bind del: call_bind_res)
  qed (simp add: parse_settings_loop.simps [abs_def])
qed

lemma keeps_parse_frame: "call_keeps blank_store (parse_frame k n sys ng f)"
proof -
  have "call_keeps blank_store (parse_frame_header k ng f)"
    unfolding parse_frame_header_def
    by (rule keeps_of_payload, rule call_keeps_bind, rule keeps_get_block, simp, rule keeps_deref, rule call_keeps_bind, simp,
        rule call_keeps_bind, simp) (auto simp: call_keeps_def blank_store_def split: option.splits)
  moreover have "call_keeps blank_store (parse_setting_frame n sys ng f)"
    unfolding parse_setting_frame_def
    by (auto intro!: keeps_intros keeps_settings_loop keeps_send split: option.split)
  moreover have "frame_type f = FSW_HTTP2_TYPE_RST_STREAM \<Longrightarrow> frame_type f \<in> set ignored_types"
    by (simp add: ignored_types_def)
  ultimately show ?thesis
    unfolding parse_frame_def
    by (auto intro!: keeps_intros keeps_parse_payload keeps_finish simp: blank_store_def)
qed

lemma keeps_recv_loop: "call_keeps blank_store (recv_loop m k n sys ng f)"
proof (induction m arbitrary: f)
  case (Suc m)
  have r: "call_keeps blank_store (h2_recv_into n sys off len)" for off len
    unfolding h2_recv_into_def by (intro call_keeps_bind call_keeps_basic) (auto intro!: keeps_intros split: option.split)
  have "call_keeps blank_store (h2_recv_frame n sys f)"
    unfolding h2_recv_frame_def by (auto intro!: keeps_intros r)
  then show ?case
    using Suc by (auto simp: recv_loop.simps(2) [abs_def] intro!: call_keeps_bind keeps_parse_frame)
qed (simp add: call_keeps_def)

lemma response_blank:
  assumes "blank_store c" and "recv_reponse m k n sys ng c = Some (Inr (r, c'))"
  shows "status_code r = None \<and> h2_resp_header r = []"
proof -
  obtain f c1 s where "recv_loop m k n sys ng Frame_new c = Some (Inr (f, c1))" "deref (frame_stream f) c1 = Some (Inr (s, c'))"
    "r = str_response s"
    using assms(2) by (auto simp: recv_reponse_def call_bind_returns call_return_def)
  moreover from this have "blank_store c1" using assms(1) keeps_recv_loop unfolding call_keeps_def by blast
  ultimately show ?thesis using deref_blank by (fastforce simp: blank_def)
qed

text \<open>
  For examples: a compression that knows one header, and a client with a connection on which \<open>inp\<close>
  arrives.
\<close>

definition demo_ng :: "(unit, unit) nghttp2" where
  "demo_ng = \<lparr>hd_deflate_new = \<lambda>_. (0, ()), hd_inflate_new = (0, ()), hd_deflate_bound = \<lambda>_ _. 2,
     hd_deflate_hd = \<lambda>_ _ _. ((2, [9, 9]), ()), hd_deflate_change_table_size = \<lambda>_ _. (0, ()),
     hd_inflate_hd = \<lambda>_ bs. ((int (length bs), 3, (str '':status'', str ''200'')), ()), hd_inflate_end_headers = \<lambda>_. ()\<rparr>"

definition demo_client :: "bytes \<Rightarrow> (demo, unit, unit) h2_client" where
  "demo_client inp = \<lparr>h2_env = \<lparr>blocked = 0, to_read = inp, written = []\<rparr>, h2_sock = Some demo_socket,
     local_settings = init_settings, remote_settings = init_settings, inflater = (), deflater = (), next_stream_id = 1,
     last_stream_id = 0, streams = [], store = [], stack_buf = replicate 64 0\<rparr>"

definition demo_request :: h2_request where
  "demo_request = \<lparr>h2_method = str ''GET'', h2_path = str ''/'', h2_body = None, h2_body_length = Some 0, pipeline = False, h2_header = []\<rparr>"

section \<open>Streams are numbered\<close>

definition streams_ok :: "('e, 'd, 'i) h2_client \<Rightarrow> bool" where
  "streams_ok c \<longleftrightarrow>
     odd (unat (next_stream_id c)) \<and> distinct (map fst (streams c)) \<and>
     list_all (\<lambda>(sid, a). odd (unat sid) \<and> sid < next_stream_id c \<and> a < length (store c)) (streams c)"

definition state_is :: "stream option list \<times> (u32 \<times> nat) list \<times> u32 \<Rightarrow> ('e, 'd, 'i) h2_client \<Rightarrow> bool" where
  "state_is k c \<longleftrightarrow> (store c, streams c, next_stream_id c) = k"

lemma state_is_about [simp]: "about_streams (state_is k)"
  by (simp add: about_streams_def state_is_def)

lemmas state_keepsD = call_keepsD [where I = "state_is k" for k]

lemma keeps_build_http: "about_streams I \<Longrightarrow> call_keeps I (h2_build_http_header ng f req)"
  unfolding h2_build_http_header_def
  by (intro keeps_of_payload call_keeps_bind call_keeps_basic)
    (auto intro!: call_keeps_then call_keeps_modify keeps_on_block elim: about_streamsD split: prod.split)

lemma deref_keeps: "deref p c = Some (Inr (s, c')) \<Longrightarrow> c' = c"
  by (auto simp: deref_def split: stream_ptr.splits option.splits)

lemma keeps_body_frame: "about_streams I \<Longrightarrow> call_keeps I (send_http_body_frame n sys f req)"
proof -
  assume I: "about_streams I"
  have "call_keeps I (deref p)" for p using deref_keeps unfolding call_keeps_def by blast
  then show ?thesis
    unfolding send_http_body_frame_def Let_def using I
    by (auto intro!: call_keeps_bind call_keeps_then keeps_on_block keeps_build_header keeps_send_frame split: prod.split)
qed

lemma send_http_header_frame_state:
  assumes "send_http_header_frame n sys ng f req c = Some (Inr ((ok, g), c'))"
  shows "next_stream_id c' = next_stream_id c \<and> store c' = store c @ [Some (Stream_new (next_stream_id c) (pipeline req))] \<and>
    (frame_stream g = frame_stream f \<or>
     frame_stream g = At (length (store c)) \<and> streams c' = streams (emplace_stream (next_stream_id c) (length (store c)) c))"
proof -
  let ?s = "Stream_new (next_stream_id c) (pipeline req)" and ?f = "f\<lparr>payload := Some StackBuf\<rparr>"
  let ?c = "c\<lparr>store := store c @ [Some ?s]\<rparr>"
  let ?k = "(store c @ [Some ?s], streams c, next_stream_id c)"
  have c: "state_is ?k ?c" by (simp add: state_is_def)
  obtain len c1 where c1: "h2_build_http_header ng ?f req ?c = Some (Inr (len, c1))"
    using assms by (auto simp: send_http_header_frame_def Let_def call_bind_returns call_then_def call_modify_def call_get_def)
  have k1: "state_is ?k c1" by (rule state_keepsD [OF keeps_build_http [OF state_is_about] c c1])
  show ?thesis
  proof (cases "len \<le> 0")
    case True
    then show ?thesis
      using assms c1 k1 by (auto simp: send_http_header_frame_def Let_def call_bind_cong call_return_def state_is_def)
  next
    case False
    define h where "h = ?f\<lparr>frame_type := FSW_HTTP2_TYPE_HEADERS, payload_length := len, frame_stream_id := next_stream_id c,
        frame_stream := At (length (store c)),
        frame_flags := if h2_body req = None \<and> str_flags ?s AND FSW_HTTP2_STREAM_PIPELINE_REQUEST = 0
          then FSW_HTTP2_FLAG_END_HEADERS OR FSW_HTTP2_FLAG_END_STREAM else FSW_HTTP2_FLAG_END_HEADERS\<rparr>"
    have "send_http_header_frame n sys ng f req c = call_then (build_frame_header h)
        (call_then (call_modify (emplace_stream (next_stream_id c) (length (store c))))
        (call_bind (h2_send_frame n sys h) (\<lambda>ok. call_return (ok, h)))) c1"
      using False unfolding send_http_header_frame_def call_bind_get Let_def prod.case call_then_modify h_def
      by (simp add: call_bind_cong [of "h2_build_http_header ng ?f req", OF c1])
    then have e: "call_then (build_frame_header h) (call_then (call_modify (emplace_stream (next_stream_id c) (length (store c))))
        (call_bind (h2_send_frame n sys h) (\<lambda>ok. call_return (ok, h)))) c1 = Some (Inr ((ok, g), c'))"
      using assms by simp
    have hs: "frame_stream h = At (length (store c))" by (simp add: h_def)
    from e obtain u c2 where h: "build_frame_header h c1 = Some (Inr (u, c2))"
      and h3: "call_then (call_modify (emplace_stream (next_stream_id c) (length (store c))))
        (call_bind (h2_send_frame n sys h) (\<lambda>ok. call_return (ok, h))) c2 = Some (Inr ((ok, g), c'))"
      unfolding call_then_def [of "build_frame_header h"] call_bind_returns by blast
    have k2: "state_is ?k c2" by (rule state_keepsD [OF keeps_build_header [OF state_is_about] k1 h])
    define c3 where "c3 = emplace_stream (next_stream_id c) (length (store c)) c2"
    have "state_is (store c3, streams c3, next_stream_id c3) c3" by (simp add: state_is_def)
    moreover from h3 have "call_bind (h2_send_frame n sys h) (\<lambda>ok. call_return (ok, h)) c3 = Some (Inr ((ok, g), c'))"
      by (simp only: c3_def call_then_modify)
    then have "h2_send_frame n sys h c3 = Some (Inr (ok, c')) \<and> g = h"
      unfolding call_bind_returns call_return_def option.inject sum.inject prod.inject by blast
    ultimately have "state_is (store c3, streams c3, next_stream_id c3) c'" "g = h"
      using state_keepsD [OF keeps_send_frame [OF state_is_about]] by blast+
    then show ?thesis using k2 hs by (auto simp: state_is_def c3_def emplace_stream_def)
  qed
qed

lemma send_request_opens:
  assumes "streams_ok c" and "unat (next_stream_id c) + 2 < 2 ^ 32"
    and "send_request n sys ng req c = Some (Inr (sid, c'))"
  shows "sid = next_stream_id c \<and> get_stream c sid = Null \<and> get_stream c' sid = At (length (store c)) \<and> streams_ok c' \<and>
    next_stream_id c < next_stream_id c'"
proof -
  let ?a = "length (store c)" and ?sid = "next_stream_id c" and ?s = "Stream_new (next_stream_id c) (pipeline req)"
  obtain ok f c1 ok' g c2 s where 1: "send_http_header_frame n sys ng Frame_new req c = Some (Inr ((ok, f), c1))"
    and 2: "send_http_body_frame n sys f req c1 = Some (Inr ((ok', g), c2))"
    and 3: "deref (frame_stream g) (c2\<lparr>next_stream_id := next_stream_id c2 + 2\<rparr>) = Some (Inr (s, c'))" "sid = str_id s"
    using assms(3) by (auto simp: send_request_def call_bind_returns call_then_def call_modify_def call_return_def)
  have g: "frame_stream g = frame_stream f" "frame_stream f \<noteq> Wild"
    using 2 by (auto simp: send_http_body_frame_def Let_def call_bind_returns call_then_def call_return_def call_fault_def
        res_case_returns split: if_splits prod.splits)
  have f: "frame_stream f = At ?a" and c1: "store c1 = store c @ [Some ?s]" "next_stream_id c1 = ?sid"
    "streams c1 = streams (emplace_stream ?sid ?a c)"
    using send_http_header_frame_state [OF 1] g(2) by (auto simp: Frame_new_def)
  have "state_is (store c1, streams c1, next_stream_id c1) c2"
    by (rule state_keepsD [OF keeps_body_frame [OF state_is_about] _ 2]) (simp add: state_is_def)
  then have c': "store c' = store c @ [Some ?s]" "streams c' = streams (emplace_stream ?sid ?a c)" "next_stream_id c' = ?sid + 2"
    and s: "s = ?s"
    using 3 deref_keeps [OF 3(1)] f g(1) c1 by (auto simp: state_is_def deref_def)
  have fresh: "?sid \<notin> fst ` set (streams c)" using assms(1) by (auto simp: streams_ok_def list_all_iff)
  then have new: "map_of (streams c) ?sid = None" by (simp add: map_of_eq_None_iff)
  have u: "unat (?sid + 2) = unat ?sid + 2" using assms(2) by (simp add: unat_word_ariths)
  then have lt: "?sid < ?sid + 2" by (simp add: word_less_nat_alt)
  show ?thesis
    using assms(1) new fresh lt s c' 3(2) u
    by (auto simp: streams_ok_def get_stream_def emplace_stream_def Stream_new_def list_all_iff)
qed

end
