(* ===== verification/Http2_Session.thy ===== *)
theory Http2_Session
  imports Http2_Streams
begin

text \<open>
  The sending side of a session: header lists, the frames of a request, settings from one side to the
  other, and connecting.
\<close>

unbundle bit_operations_syntax

section \<open>Header lists\<close>

lemma headers_fold:
  "length (nvs h) + length hs \<le> hd_size h \<Longrightarrow>
   res_fold (\<lambda>h (k, v). Headers_add (c_str k) 7 (c_str v) 7 h) h hs =
     (if list_all (\<lambda>(k, v). 6 \<le> length k \<and> 6 \<le> length v) hs
      then Inr (h\<lparr>nvs := nvs h @ map (\<lambda>(k, v). (take 7 (c_str k), take 7 (c_str v))) hs\<rparr>)
      else Inl OutOfBounds)"
proof (induction hs arbitrary: h)
  case (Cons kv hs)
  obtain k v where kv: "kv = (k, v)" by force
  show ?case
  proof (cases "6 \<le> length k \<and> 6 \<le> length v")
    case True
    then have "Headers_add (c_str k) 7 (c_str v) 7 h = Inr (h\<lparr>nvs := nvs h @ [(take 7 (c_str k), take 7 (c_str v))]\<rparr>)"
      using Cons.prems by (simp add: Headers_add_def mem_read_def c_str_def)
    then show ?thesis using True Cons by (simp add: kv)
  next
    case False
    then have "Headers_add (c_str k) 7 (c_str v) 7 h = Inl OutOfBounds"
      by (auto simp: Headers_add_def mem_read_def c_str_def res_bind_def)
    then show ?thesis using False by (auto simp: kv)
  qed
qed simp

lemma header_list_eq:
  "h2_header_list req =
    (if list_all (\<lambda>(k, v). 6 \<le> length k \<and> 6 \<le> length v) (h2_header req)
     then Inr \<lparr>hd_size = 8 + length (h2_header req), nvs =
       [(str '':method'', h2_method req), (str '':path'', h2_path req), (str '':scheme'', str ''http''),
        (str '':authority'', str ''127.0.0.1'')] @ map (\<lambda>(k, v). (take 7 (c_str k), take 7 (c_str v))) (h2_header req)\<rparr>
     else Inl OutOfBounds)"
proof -
  have add: "Headers_add (str '':method'') 7 (c_str m) (length m) (Headers_new sz) = Inr \<lparr>hd_size = sz, nvs = [(str '':method'', m)]\<rparr>"
    if "0 < sz" for m sz using that by (simp add: Headers_add_def Headers_new_def mem_read_def c_str_def str_def)
  have add2: "Headers_add (str '':path'') 5 (c_str m) (length m) h = Inr (h\<lparr>nvs := nvs h @ [(str '':path'', m)]\<rparr>)"
    if "length (nvs h) < hd_size h" for m h using that by (simp add: Headers_add_def mem_read_def c_str_def str_def)
  have add3: "Headers_add (str '':scheme'') 7 (str ''http'') 4 h = Inr (h\<lparr>nvs := nvs h @ [(str '':scheme'', str ''http'')]\<rparr>)"
    if "length (nvs h) < hd_size h" for h using that by (simp add: Headers_add_def mem_read_def str_def)
  have add4: "Headers_add (str '':authority'') 10 (str ''127.0.0.1'') 9 h = Inr (h\<lparr>nvs := nvs h @ [(str '':authority'', str ''127.0.0.1'')]\<rparr>)"
    if "length (nvs h) < hd_size h" for h using that by (simp add: Headers_add_def mem_read_def str_def)
  show ?thesis
    by (simp add: h2_header_list_def add add2 add3 add4 headers_fold FSW_HTTP2_MAX_STATUS_LINE_NUM_def)
qed

text \<open>
  C37: \<open>build_http_header\<close> gives the request line as it is but takes seven bytes of every header
  name and value: a shorter one is read beyond its end, a longer one is cut.
\<close>

theorem header_fields_cut_to_seven:
  "h2_header_list req =
    (if list_all (\<lambda>(k, v). 6 \<le> length k \<and> 6 \<le> length v) (h2_header req)
     then Inr \<lparr>hd_size = 8 + length (h2_header req), nvs =
       [(str '':method'', h2_method req), (str '':path'', h2_path req), (str '':scheme'', str ''http''),
        (str '':authority'', str ''127.0.0.1'')] @ map (\<lambda>(k, v). (take 7 (c_str k), take 7 (c_str v))) (h2_header req)\<rparr>
     else Inl OutOfBounds)"
  by (rule header_list_eq)

section \<open>What a request puts on the wire\<close>

definition headers_frame :: "u32 \<Rightarrow> h2_request \<Rightarrow> bytes \<Rightarrow> bytes" where
  "headers_frame sid req hb =
     wire_header (length hb) FSW_HTTP2_TYPE_HEADERS (if h2_body req = None \<and> \<not> pipeline req then 5 else 4) (unat sid) @ hb"

definition data_frame :: "u32 \<Rightarrow> bool \<Rightarrow> bytes \<Rightarrow> bytes" where
  "data_frame sid end_stream bs = wire_header (length bs) FSW_HTTP2_TYPE_DATA (if end_stream then 1 else 0) (unat sid) @ bs"

lemma h2_send_eq:
  assumes "h2_sock c = Some s" and "co_send_all (Suc (length bs)) n sys s bs (h2_env c) = Some (Inr (r, e))"
  shows "h2_send n sys bs c = Some (Inr (r = int (length bs), c\<lparr>h2_env := e\<rparr>))"
  using assms by (simp add: h2_send_def h2_on_env_def call_on_def call_bind_def call_get_def call_return_def)

lemma stack_frame:
  fixes c :: "('e, 'd, 'i) h2_client"
  assumes "payload f = Some StackBuf" and "payload_length f = int (length bs)" and "9 + length bs \<le> length (stack_buf c)"
    and "take (length bs) (drop 9 (stack_buf c)) = bs" and "h2_sock c = Some s"
    and "co_send_all (Suc (9 + length bs)) n sys s
      (wire_header (length bs) (frame_type f) (frame_flags f) (unat (frame_stream_id f)) @ bs) (h2_env c) = Some (Inr (r, e))"
  shows "\<exists>m ok. length m = length (stack_buf c) \<and> build_frame_header f c = Some (Inr ((), c\<lparr>stack_buf := m\<rparr>)) \<and>
    (\<forall>c1 :: ('e, 'd, 'i) h2_client. stack_buf c1 = m \<and> h2_sock c1 = Some s \<and> h2_env c1 = h2_env c \<longrightarrow> h2_send_frame n sys f c1 = Some (Inr (ok, c1\<lparr>h2_env := e\<rparr>)))"
proof -
  let ?w = "wire_header (length bs) (frame_type f) (frame_flags f) (unat (frame_stream_id f))"
  define m where "m = ?w @ drop 9 (stack_buf c)"
  have "write_frame_header f (stack_buf c) = Inr m"
    using write_frame_header_wire [of "stack_buf c" f] assms(2,3) by (simp add: m_def)
  then have b: "build_frame_header f c = Some (Inr ((), c\<lparr>stack_buf := m\<rparr>))"
    using assms(1) by (simp add: build_frame_header_def of_payload_def on_block_def get_block_def call_bind_def call_res_def
        call_modify_def set_block_def)
  have t: "take (9 + length bs) m = ?w @ bs" using assms(4) by (simp add: m_def)
  have l: "length m = length (stack_buf c)" using assms(3) by (simp add: m_def)
  have s: "h2_send_frame n sys f c1 = Some (Inr (r = int (length (?w @ bs)), c1\<lparr>h2_env := e\<rparr>))"
    if "stack_buf c1 = m" "h2_sock c1 = Some s" "h2_env c1 = h2_env c" for c1 :: "('e, 'd, 'i) h2_client"
  proof -
    have "mem_read (stack_buf c1) 0 (9 + length bs) = Inr (?w @ bs)"
      using that(1) t l assms(3) by (simp add: mem_read_def)
    moreover have "h2_send n sys (?w @ bs) c1 = Some (Inr (r = int (length (?w @ bs)), c1\<lparr>h2_env := e\<rparr>))"
      by (rule h2_send_eq [OF that(2)]) (use assms(6) that(3) in simp)
    ultimately show ?thesis
      using assms(1,2) by (simp add: h2_send_frame_def of_payload_def get_block_def call_bind_def call_res_def
          FSW_HTTP2_FRAME_HEADER_SIZE_def)
  qed
  from s b l show ?thesis by blast
qed

lemma copy_to_stack:
  assumes "9 + length bs \<le> length (stack_buf c)"
  shows "\<exists>m. on_block StackBuf (\<lambda>m. mem_write m FSW_HTTP2_FRAME_HEADER_SIZE bs) c = Some (Inr ((), c\<lparr>stack_buf := m\<rparr>)) \<and>
    length m = length (stack_buf c) \<and> take (length bs) (drop 9 m) = bs"
  using assms by (intro exI [of _ "take 9 (stack_buf c) @ bs @ drop (9 + length bs) (stack_buf c)"])
    (simp add: on_block_def get_block_def call_bind_def call_res_def call_modify_def set_block_def mem_write_def
      FSW_HTTP2_FRAME_HEADER_SIZE_def)

lemma header_frame_sent:
  fixes c :: "('e, 'd, 'i) h2_client"
  assumes "h2_sock c = Some s" and "h2_header_list req = Inr h"
    and "hd_deflate_hd ng (deflater c) (hd_deflate_bound ng (deflater c) (nvs h)) (nvs h) = ((int (length hb), hb), d)"
    and "hb \<noteq> []" and "9 + length hb \<le> length (stack_buf c)" and "map_of (streams c) (next_stream_id c) = None"
    and "co_send_all (Suc (9 + length hb)) n sys s (headers_frame (next_stream_id c) req hb) (h2_env c) = Some (Inr (r, e))"
  shows "\<exists>ok f m. send_http_header_frame n sys ng Frame_new req c = Some (Inr ((ok, f),
      c\<lparr>store := store c @ [Some (Stream_new (next_stream_id c) (pipeline req))], deflater := d, stack_buf := m,
        streams := (next_stream_id c, length (store c)) # streams c, h2_env := e\<rparr>)) \<and>
    length m = length (stack_buf c) \<and> frame_stream f = At (length (store c)) \<and> frame_stream_id f = next_stream_id c"
proof -
  let ?sid = "next_stream_id c" and ?a = "length (store c)" and ?f = "Frame_new\<lparr>payload := Some StackBuf\<rparr>"
  let ?s = "Stream_new ?sid (pipeline req)"
  let ?c = "c\<lparr>store := store c @ [Some ?s]\<rparr>"
  obtain m0 where m0: "on_block StackBuf (\<lambda>m. mem_write m FSW_HTTP2_FRAME_HEADER_SIZE hb) (?c\<lparr>deflater := d\<rparr>) =
      Some (Inr ((), ?c\<lparr>deflater := d, stack_buf := m0\<rparr>))" "length m0 = length (stack_buf c)" "take (length hb) (drop 9 m0) = hb"
    using copy_to_stack [of hb "?c\<lparr>deflater := d\<rparr>"] assms(5) by auto
  let ?c1 = "?c\<lparr>deflater := d, stack_buf := m0\<rparr>"
  have 1: "h2_build_http_header ng ?f req ?c = Some (Inr (int (length hb), ?c1))"
    using assms(2,3) m0(1) by (simp add: h2_build_http_header_def of_payload_def call_then_def call_bind_def call_get_def call_res_def
        call_modify_def call_return_def)
  define f where "f = ?f\<lparr>frame_type := FSW_HTTP2_TYPE_HEADERS, payload_length := int (length hb), frame_stream_id := ?sid,
      frame_stream := At ?a, frame_flags := if h2_body req = None \<and> str_flags ?s AND FSW_HTTP2_STREAM_PIPELINE_REQUEST = 0
        then FSW_HTTP2_FLAG_END_HEADERS OR FSW_HTTP2_FLAG_END_STREAM else FSW_HTTP2_FLAG_END_HEADERS\<rparr>"
  have fl: "frame_flags f = (if h2_body req = None \<and> \<not> pipeline req then 5 else 4)"
    by (simp add: f_def Stream_new_def FSW_HTTP2_STREAM_PIPELINE_REQUEST_def FSW_HTTP2_STREAM_NORMAL_def
        FSW_HTTP2_FLAG_END_HEADERS_def FSW_HTTP2_FLAG_END_STREAM_def)
  have "co_send_all (Suc (9 + length hb)) n sys s
      (wire_header (length hb) (frame_type f) (frame_flags f) (unat (frame_stream_id f)) @ hb) (h2_env ?c1) = Some (Inr (r, e))"
    using assms(7) fl by (simp add: headers_frame_def f_def)
  moreover have "payload f = Some StackBuf" "payload_length f = int (length hb)" by (simp_all add: f_def)
  ultimately obtain m ok where m: "length m = length (stack_buf c)" "build_frame_header f ?c1 = Some (Inr ((), ?c1\<lparr>stack_buf := m\<rparr>))"
    and send: "\<And>c1 :: ('e, 'd, 'i) h2_client. stack_buf c1 = m \<Longrightarrow> h2_sock c1 = Some s \<Longrightarrow> h2_env c1 = h2_env c \<Longrightarrow>
      h2_send_frame n sys f c1 = Some (Inr (ok, c1\<lparr>h2_env := e\<rparr>))"
    using stack_frame [of f hb ?c1 s n sys r e] assms(1,5) m0(2,3) by auto
  have "emplace_stream ?sid ?a (?c1\<lparr>stack_buf := m\<rparr>) = ?c1\<lparr>stack_buf := m, streams := (?sid, ?a) # streams c\<rparr>"
    using assms(6) by (simp add: emplace_stream_def)
  moreover have "send_http_header_frame n sys ng Frame_new req c = call_then (build_frame_header f)
        (call_then (call_modify (emplace_stream ?sid ?a)) (call_bind (h2_send_frame n sys f) (\<lambda>ok. call_return (ok, f)))) ?c1"
    using assms(4) unfolding send_http_header_frame_def call_bind_get Let_def prod.case call_then_modify f_def
    by (simp add: call_bind_cong [of "h2_build_http_header ng ?f req", OF 1])
  moreover have "h2_send_frame n sys f (?c1\<lparr>stack_buf := m, streams := (?sid, ?a) # streams c\<rparr>) =
      Some (Inr (ok, ?c1\<lparr>stack_buf := m, streams := (?sid, ?a) # streams c, h2_env := e\<rparr>))"
    by (rule send) (use assms(1) in simp_all)
  ultimately have "send_http_header_frame n sys ng Frame_new req c = Some (Inr ((ok, f),
      ?c1\<lparr>stack_buf := m, streams := (?sid, ?a) # streams c, h2_env := e\<rparr>))"
    using m(2) by (simp add: call_then_def call_bind_def call_modify_def call_return_def)
  moreover have "frame_stream f = At ?a" "frame_stream_id f = ?sid" by (simp_all add: f_def)
  ultimately show ?thesis using m(1) by auto
qed

lemma body_frame_sent:
  fixes c :: "('e, 'd, 'i) h2_client"
  assumes "h2_sock c = Some s" and "copy_body req = Inr (bd, length bd)" and "9 + length bd \<le> length (stack_buf c)"
    and "frame_stream f = At a" and "a < length (store c)" and "store c ! a = Some (Stream_new sid (pipeline req))"
    and "frame_stream_id f = sid"
    and "co_send_all (Suc (9 + length bd)) n sys s (data_frame sid (\<not> pipeline req) bd) (h2_env c) = Some (Inr (r, e))"
  shows "\<exists>ok g m. send_http_body_frame n sys f req c = Some (Inr ((ok, g), c\<lparr>stack_buf := m, h2_env := e\<rparr>)) \<and> frame_stream g = At a"
proof -
  obtain m0 where m0: "on_block StackBuf (\<lambda>m. mem_write m FSW_HTTP2_FRAME_HEADER_SIZE bd) c = Some (Inr ((), c\<lparr>stack_buf := m0\<rparr>))"
    "length m0 = length (stack_buf c)" "take (length bd) (drop 9 m0) = bd"
    using copy_to_stack [OF assms(3)] by auto
  let ?c1 = "c\<lparr>stack_buf := m0\<rparr>" and ?s = "Stream_new sid (pipeline req)"
  define g where "g = f\<lparr>payload := Some StackBuf, frame_type := FSW_HTTP2_TYPE_DATA, payload_length := int (length bd),
      frame_flags := if str_flags ?s AND FSW_HTTP2_STREAM_PIPELINE_REQUEST \<noteq> 0 then 0 else FSW_HTTP2_FLAG_END_STREAM\<rparr>"
  have fl: "frame_flags g = (if \<not> pipeline req then 1 else 0)"
    by (simp add: g_def Stream_new_def FSW_HTTP2_STREAM_PIPELINE_REQUEST_def FSW_HTTP2_STREAM_NORMAL_def FSW_HTTP2_FLAG_END_STREAM_def)
  have "co_send_all (Suc (9 + length bd)) n sys s
      (wire_header (length bd) (frame_type g) (frame_flags g) (unat (frame_stream_id g)) @ bd) (h2_env ?c1) = Some (Inr (r, e))"
    using assms(7,8) fl by (simp add: data_frame_def g_def)
  moreover have "payload g = Some StackBuf" "payload_length g = int (length bd)" by (simp_all add: g_def)
  ultimately obtain m ok where m: "build_frame_header g ?c1 = Some (Inr ((), ?c1\<lparr>stack_buf := m\<rparr>))"
    and send: "\<And>c1 :: ('e, 'd, 'i) h2_client. stack_buf c1 = m \<Longrightarrow> h2_sock c1 = Some s \<Longrightarrow> h2_env c1 = h2_env c \<Longrightarrow>
      h2_send_frame n sys g c1 = Some (Inr (ok, c1\<lparr>h2_env := e\<rparr>))"
    using stack_frame [of g bd ?c1 s n sys r e] assms(1,3) m0(2,3) by auto
  have d: "deref (frame_stream f) ?c1 = Some (Inr (?s, ?c1))" using assms(4-6) by (simp add: deref_def)
  have "send_http_body_frame n sys f req c = call_then (build_frame_header g) (call_bind (h2_send_frame n sys g) (\<lambda>ok. call_return (ok, g))) ?c1"
    using assms(2,4) m0(1) d unfolding send_http_body_frame_def Let_def g_def
    by (simp add: call_then_def call_bind_cong)
  moreover have "h2_send_frame n sys g (?c1\<lparr>stack_buf := m\<rparr>) = Some (Inr (ok, ?c1\<lparr>stack_buf := m, h2_env := e\<rparr>))"
    by (rule send) (use assms(1) in simp_all)
  then have "call_then (build_frame_header g) (call_bind (h2_send_frame n sys g) (\<lambda>ok. call_return (ok, g))) ?c1 =
      Some (Inr ((ok, g), ?c1\<lparr>stack_buf := m, h2_env := e\<rparr>))"
    using m by (simp add: call_then_def call_bind_def call_return_def)
  ultimately show ?thesis using assms(4) by (auto simp: g_def)
qed

lemma send_request_sends:
  assumes "h2_sock c = Some s" and "h2_header_list req = Inr h"
    and "hd_deflate_hd ng (deflater c) (hd_deflate_bound ng (deflater c) (nvs h)) (nvs h) = ((int (length hb), hb), d)"
    and "hb \<noteq> []" and "copy_body req = Inr (bd, length bd)"
    and "9 + length hb \<le> length (stack_buf c)" and "9 + length bd \<le> length (stack_buf c)"
    and "get_stream c (next_stream_id c) = Null"
    and "co_send_all (10 + length hb) n sys s (headers_frame (next_stream_id c) req hb) (h2_env c) = Some (Inr (r1, e1))"
    and "co_send_all (10 + length bd) n sys s (data_frame (next_stream_id c) (\<not> pipeline req) bd) e1 = Some (Inr (r2, e2))"
  shows "\<exists>c'. send_request n sys ng req c = Some (Inr (next_stream_id c, c')) \<and> h2_env c' = e2 \<and>
    next_stream_id c' = next_stream_id c + 2 \<and> streams c' = (next_stream_id c, length (store c)) # streams c \<and>
    store c' = store c @ [Some (Stream_new (next_stream_id c) (pipeline req))] \<and> h2_sock c' = Some s"
proof -
  let ?sid = "next_stream_id c" and ?a = "length (store c)"
  have new: "map_of (streams c) ?sid = None" using assms(8) by (simp add: get_stream_def split: option.splits)
  obtain ok f m where 1: "send_http_header_frame n sys ng Frame_new req c = Some (Inr ((ok, f),
      c\<lparr>store := store c @ [Some (Stream_new ?sid (pipeline req))], deflater := d, stack_buf := m,
        streams := (?sid, ?a) # streams c, h2_env := e1\<rparr>))" "length m = length (stack_buf c)" "frame_stream f = At ?a" "frame_stream_id f = ?sid"
    using header_frame_sent [OF assms(1-4,6) new, of n sys r1 e1] assms(9) by auto
  let ?c1 = "c\<lparr>store := store c @ [Some (Stream_new ?sid (pipeline req))], deflater := d, stack_buf := m,
        streams := (?sid, ?a) # streams c, h2_env := e1\<rparr>"
  obtain ok' g m' where 2: "send_http_body_frame n sys f req ?c1 = Some (Inr ((ok', g), ?c1\<lparr>stack_buf := m', h2_env := e2\<rparr>))"
    "frame_stream g = At ?a"
    using body_frame_sent [of ?c1 s req bd f ?a ?sid n sys r2 e2] assms(1,5,7,10) 1 by auto
  show ?thesis
    using assms(1) 1(1) 2 by (simp add: send_request_def call_bind_cong call_then_def call_bind_def call_modify_def deref_def call_return_def Stream_new_def)
qed

text \<open>
  What \<open>send_request\<close> puts on the wire, and what it leaves behind. It sends a HEADERS frame and
  then always a DATA frame, both on the next stream. Without a body both carry \<open>END_STREAM\<close>: the DATA frame
  follows the end of its stream.
\<close>

theorem send_request_frames:
  assumes "h2_sock c = Some s" and "h2_header_list req = Inr h"
    and "hd_deflate_hd ng (deflater c) (hd_deflate_bound ng (deflater c) (nvs h)) (nvs h) = ((int (length hb), hb), d)"
    and "hb \<noteq> []" and "copy_body req = Inr (bd, length bd)"
    and "9 + length hb \<le> length (stack_buf c)" and "9 + length bd \<le> length (stack_buf c)"
    and "get_stream c (next_stream_id c) = Null"
    and "co_send_all (10 + length hb) n sys s (headers_frame (next_stream_id c) req hb) (h2_env c) = Some (Inr (r1, e1))"
    and "co_send_all (10 + length bd) n sys s (data_frame (next_stream_id c) (\<not> pipeline req) bd) e1 = Some (Inr (r2, e2))"
  shows "\<exists>c'. send_request n sys ng req c = Some (Inr (next_stream_id c, c')) \<and> h2_env c' = e2 \<and>
    next_stream_id c' = next_stream_id c + 2 \<and> streams c' = (next_stream_id c, length (store c)) # streams c \<and>
    store c' = store c @ [Some (Stream_new (next_stream_id c) (pipeline req))]"
  using send_request_sends [OF assms] by blast

lemma demo_send: "0 < m \<Longrightarrow> co_send_all m 1 quick_sys s bs e = Some (Inr (int (length bs), e\<lparr>written := written e @ bs\<rparr>))"
  by (cases "bs = []"; cases m) (simp_all add: co_send_all_def send_from_def Socket_send_def quick_sys_def call_bind_def call_return_def)

lemma demo_headers: "h2_header_list demo_request = Inr \<lparr>hd_size = 8, nvs = [(str '':method'', str ''GET''), (str '':path'', str ''/''),
    (str '':scheme'', str ''http''), (str '':authority'', str ''127.0.0.1'')]\<rparr>"
  by (simp add: header_list_eq demo_request_def)

theorem send_request_frames_witness:
  "\<exists>c'. send_request 1 quick_sys demo_ng demo_request (demo_client []) = Some (Inr (1, c')) \<and>
     written (h2_env c') = headers_frame 1 demo_request [9, 9] @ data_frame 1 True []"
proof -
  let ?c = "demo_client []" and ?e = "\<lparr>blocked = 0, to_read = [], written = headers_frame 1 demo_request [9, 9]\<rparr>"
  have c: "h2_sock ?c = Some demo_socket" "next_stream_id ?c = 1" "get_stream ?c 1 = Null" "length (stack_buf ?c) = 64"
    "h2_env ?c = \<lparr>blocked = 0, to_read = [], written = []\<rparr>"
    by (simp_all add: demo_client_def get_stream_def)
  have d: "hd_deflate_hd demo_ng d k x = ((int (length [9 :: byte, 9]), [9, 9]), ())" for d k x by (simp add: demo_ng_def)
  have b: "copy_body demo_request = Inr ([], length ([] :: bytes))" by (simp add: copy_body_def demo_request_def)
  show ?thesis
    using send_request_frames [OF c(1) demo_headers d _ b _ _ _ demo_send demo_send] c by (auto simp: demo_request_def)
qed

text \<open>
  C33: \<open>send_request\<close> opens a new stream. The id that it returns is the odd number that was next and
  that no stream had; the client's table stays free of duplicates, and the next request gets a larger id
  (until the ids run out at the width of their type).
\<close>

theorem send_request_new_stream:
  assumes "streams_ok c" and "unat (next_stream_id c) + 2 < 2 ^ 32"
    and "send_request n sys ng req c = Some (Inr (sid, c'))"
  shows "sid = next_stream_id c \<and> get_stream c sid = Null \<and> get_stream c' sid = At (length (store c)) \<and> streams_ok c' \<and>
    next_stream_id c < next_stream_id c'"
  using assms by (rule send_request_opens)

theorem send_request_new_stream_witness:
  "\<exists>c'. send_request 1 quick_sys demo_ng demo_request (demo_client []) = Some (Inr (1, c')) \<and> get_stream c' 1 = At 0 \<and> streams_ok c'"
proof -
  let ?c = "demo_client []"
  have c: "h2_sock ?c = Some demo_socket" "next_stream_id ?c = 1" "get_stream ?c 1 = Null" "length (stack_buf ?c) = 64"
    "h2_env ?c = \<lparr>blocked = 0, to_read = [], written = []\<rparr>" "length (store ?c) = 0" "streams_ok ?c"
    by (simp_all add: demo_client_def get_stream_def streams_ok_def)
  have d: "hd_deflate_hd demo_ng d k x = ((int (length [9 :: byte, 9]), [9, 9]), ())" for d k x by (simp add: demo_ng_def)
  have b: "copy_body demo_request = Inr ([], length ([] :: bytes))" by (simp add: copy_body_def demo_request_def)
  have "\<exists>c'. send_request 1 quick_sys demo_ng demo_request ?c = Some (Inr (1, c'))"
    using send_request_sends [OF c(1) demo_headers d _ b _ _ _ demo_send demo_send] c by (auto simp: demo_request_def)
  then show ?thesis
    using send_request_new_stream [of ?c 1 quick_sys demo_ng demo_request] c by auto
qed

section \<open>Settings\<close>

text \<open>The entries of a SETTINGS frame one after the other, until one cannot be applied.\<close>

fun apply_settings ::
    "('d, 'i) nghttp2 \<Rightarrow> (u16 \<times> u32) list \<Rightarrow> u32 \<Rightarrow> ('e, 'd, 'i) h2_client \<Rightarrow> u32 option \<times> ('e, 'd, 'i) h2_client" where
  "apply_settings ng [] prev c = (Some prev, c)"
| "apply_settings ng ((sid, v) # es) prev c =
     (case parse_setting ng sid v c of (False, c') \<Rightarrow> (None, c') | (True, c') \<Rightarrow> apply_settings ng es v c')"

definition entry_bytes :: "(u16 \<times> u32) list \<Rightarrow> bytes" where
  "entry_bytes es = concat (map (\<lambda>(sid, v). setting_bytes sid v) es)"

lemma settings_loop_entries:
  fixes c :: "('e, 'd, 'i) h2_client"
  shows "parse_settings_loop ng (pre @ entry_bytes es @ rest) (length pre) (6 * length es) prev c =
   Some (Inr (apply_settings ng es prev c))"
proof (induction es arbitrary: pre prev c)
  case Nil
  then show ?case by (simp add: parse_settings_loop.simps call_return_def)
next
  case (Cons e es)
  obtain sid v where e: "e = (sid, v)" by force
  let ?bs = "pre @ entry_bytes (e # es) @ rest"
  have l: "?bs = (pre @ setting_bytes sid v) @ entry_bytes es @ rest" by (simp add: entry_bytes_def e)
  have r: "mem_read ?bs (length pre) 2 = Inr (store_le 2 (htons sid))" "mem_read ?bs (length pre + 2) 4 = Inr (store_le 4 (htonl v))"
    by (simp_all add: mem_read_def entry_bytes_def e setting_bytes_def)
  have IH: "parse_settings_loop ng ?bs (length pre + 6) (6 * length es) v c' = Some (Inr (apply_settings ng es v c'))" for c' :: "('e, 'd, 'i) h2_client"
    using Cons.IH [of "pre @ setting_bytes sid v" v c'] unfolding l by (simp add: setting_bytes_def)
  obtain ok c' where p: "parse_setting ng sid v c = (ok, c')" by force
  have "parse_settings_loop ng ?bs (length pre) (6 * length (e # es)) prev c =
      (case parse_setting ng sid v c of (False, c) \<Rightarrow> call_return None c
        | (True, c) \<Rightarrow> parse_settings_loop ng ?bs (length pre + 6) (6 * length es) v c)"
    by (subst parse_settings_loop.simps) (simp add: r load_store Let_def del: add_2_eq_Suc' split: prod.split bool.split)
  then show ?case using IH by (cases ok) (simp_all add: p e call_return_def)
qed

definition own_settings :: "h2_settings \<Rightarrow> (u16 \<times> u32) list" where
  "own_settings ls =
     [(FSW_HTTP2_SETTING_HEADER_TABLE_SIZE, header_table_size ls),
      (FSW_HTTP2_SETTINGS_MAX_CONCURRENT_STREAMS, max_concurrent_streams ls),
      (FSW_HTTP2_SETTINGS_INIT_WINDOW_SIZE, window_size ls)]"

lemma build_setting_frame_bytes:
  assumes "h2_sock c = Some s" and "get_write_buf s = (b, s')" and "27 \<le> length (buf_data b)"
  shows "\<exists>f c1 b' rest. build_setting_frame Frame_new c = Some (Inr (f, c1)) \<and>
    get_block WriteBuf c1 = Some (Inr (wire_header 18 FSW_HTTP2_TYPE_SETTINGS 0 0 @ entry_bytes (own_settings (local_settings c)) @ rest, c1)) \<and>
    c1 = c\<lparr>h2_sock := Some (s\<lparr>write_buf := Some b'\<rparr>)\<rparr> \<and> payload f = Some WriteBuf \<and> payload_length f = 18"
proof -
  have s': "s' = s\<lparr>write_buf := Some b\<rparr>" using assms(2) by (auto simp: get_write_buf_def Let_def split: option.splits)
  let ?f = "Frame_new\<lparr>frame_flags := 0, frame_type := FSW_HTTP2_TYPE_SETTINGS, frame_stream_id := 0, payload := Some WriteBuf,
        payload_length := 3 * 6\<rparr>"
  let ?ls = "local_settings c"
  let ?w = "wire_header 18 FSW_HTTP2_TYPE_SETTINGS 0 0"
  let ?e1 = "setting_bytes FSW_HTTP2_SETTING_HEADER_TABLE_SIZE (header_table_size ?ls)"
  let ?e2 = "setting_bytes FSW_HTTP2_SETTINGS_MAX_CONCURRENT_STREAMS (max_concurrent_streams ?ls)"
  let ?e3 = "setting_bytes FSW_HTTP2_SETTINGS_INIT_WINDOW_SIZE (window_size ?ls)"
  have ob: "on_block WriteBuf g (c\<lparr>h2_sock := Some (s\<lparr>write_buf := Some b1\<rparr>)\<rparr>) =
      Some (Inr ((), c\<lparr>h2_sock := Some (s\<lparr>write_buf := Some (b1\<lparr>buf_data := m\<rparr>)\<rparr>)\<rparr>))" if "g (buf_data b1) = Inr m" for g m b1
    using that by (simp add: on_block_def get_block_def get_write_buf_def call_bind_def call_res_def call_modify_def set_block_def)
  have w: "write_frame_header ?f (buf_data b) = Inr (?w @ drop 9 (buf_data b))"
    using write_frame_header_wire [of "buf_data b" ?f] assms(3) by simp
  let ?m = "?w @ drop 9 (buf_data b)"
  have e: "res_bind (mem_write ?m 9 ?e1) (\<lambda>bs. res_bind (mem_write bs 15 ?e2) (\<lambda>bs. mem_write bs 21 ?e3)) =
      Inr (?w @ ?e1 @ ?e2 @ ?e3 @ drop 27 (buf_data b))"
    using assms(3) by (auto simp: mem_write_def setting_bytes_def)
  have "build_setting_frame Frame_new c = Some (Inr (?f, c\<lparr>h2_sock := Some (s\<lparr>write_buf := Some (b\<lparr>buf_data :=
      ?w @ ?e1 @ ?e2 @ ?e3 @ drop 27 (buf_data b)\<rparr>)\<rparr>)\<rparr>))"
    using assms(1,2) e ob [of "write_frame_header ?f" b, OF w] ob [of "\<lambda>bs. res_bind (mem_write bs 9 ?e1) (\<lambda>bs. res_bind (mem_write bs 15 ?e2) (\<lambda>bs. mem_write bs 21 ?e3))" "b\<lparr>buf_data := ?m\<rparr>"]
    by (simp add: build_setting_frame_def Let_def call_then_def call_bind_def get_block_def s' build_frame_header_def of_payload_def
        call_get_def call_return_def)
  moreover have "entry_bytes (own_settings ?ls) = ?e1 @ ?e2 @ ?e3" by (simp add: entry_bytes_def own_settings_def)
  ultimately show ?thesis by (auto simp: get_block_def get_write_buf_def)
qed

text \<open>
  C32: the SETTINGS frame that a client sends when it connects is read back by \<open>parse_setting_frame\<close> of
  the other side: its header table size, stream limit and initial window become the remote settings, and
  nothing else of them changes.
\<close>

theorem settings_roundtrip:
  assumes "h2_sock c = Some s" and "27 \<le> length (buf_data (fst (get_write_buf s)))"
    and "\<And>d v. fst (hd_deflate_change_table_size ng d v) = 0"
  shows "\<exists>f c1 bs d'. build_setting_frame Frame_new c = Some (Inr (f, c1)) \<and> get_block WriteBuf c1 = Some (Inr (bs, c1)) \<and>
    read_frame_header bs = Inr (18, FSW_HTTP2_TYPE_SETTINGS, 0, 0) \<and>
    parse_settings_loop ng bs FSW_HTTP2_FRAME_HEADER_SIZE 18 0 d = Some (Inr (Some (window_size (local_settings c)), d')) \<and>
    remote_settings d' = (remote_settings d)\<lparr>header_table_size := header_table_size (local_settings c),
      max_concurrent_streams := max_concurrent_streams (local_settings c), window_size := window_size (local_settings c)\<rparr>"
proof -
  let ?w = "wire_header 18 FSW_HTTP2_TYPE_SETTINGS 0 0" and ?ls = "local_settings c"
  obtain b s' where "get_write_buf s = (b, s')" by force
  then obtain f c1 rest where b: "build_setting_frame Frame_new c = Some (Inr (f, c1))"
    "get_block WriteBuf c1 = Some (Inr (?w @ entry_bytes (own_settings ?ls) @ rest, c1))"
    using build_setting_frame_bytes [OF assms(1)] assms(2) by (metis fst_conv)
  have "read_frame_header (?w @ entry_bytes (own_settings ?ls) @ rest) = Inr (18, FSW_HTTP2_TYPE_SETTINGS, 0, 0)"
    using read_wire_header [of 18 FSW_HTTP2_TYPE_SETTINGS 0 0] by simp
  moreover have "parse_settings_loop ng (?w @ entry_bytes (own_settings ?ls) @ rest) FSW_HTTP2_FRAME_HEADER_SIZE 18 0 d =
      Some (Inr (apply_settings ng (own_settings ?ls) 0 d))"
    using settings_loop_entries [of ng ?w "own_settings ?ls" rest 0 d]
    by (simp add: own_settings_def FSW_HTTP2_FRAME_HEADER_SIZE_def)
  moreover obtain dd where "hd_deflate_change_table_size ng (deflater d) (header_table_size ?ls) = (0, dd)"
    using assms(3) by (metis prod.collapse)
  then obtain d' where "apply_settings ng (own_settings ?ls) 0 d = (Some (window_size ?ls), d')"
    "remote_settings d' = (remote_settings d)\<lparr>header_table_size := header_table_size ?ls,
      max_concurrent_streams := max_concurrent_streams ?ls, window_size := window_size ?ls\<rparr>"
    by (cases "header_table_size ?ls = header_table_size (remote_settings d)")
      (auto simp: own_settings_def parse_setting_def h2_setting_ids Let_def)
  ultimately show ?thesis using b by auto
qed

theorem settings_roundtrip_witness:
  "\<exists>f c1 bs d'. build_setting_frame Frame_new (demo_client []) = Some (Inr (f, c1)) \<and> get_block WriteBuf c1 = Some (Inr (bs, c1)) \<and>
     parse_settings_loop demo_ng bs 9 18 0 (demo_client []) = Some (Inr (Some 65535, d')) \<and> remote_settings d' = init_settings"
proof -
  have "h2_sock (demo_client []) = Some demo_socket" "27 \<le> length (buf_data (fst (get_write_buf demo_socket)))"
    by (simp_all add: demo_client_def demo_socket_def get_write_buf_def Buffer_new_def WRITE_BUF_MAX_SIZE_def Let_def)
  from settings_roundtrip [OF this, of demo_ng "demo_client []"] show ?thesis
    by (auto simp: demo_ng_def demo_client_def init_settings_def FSW_HTTP2_FRAME_HEADER_SIZE_def FSW_HTTP2_DEFAULT_WINDOW_SIZE_def)
qed

section \<open>Connecting\<close>

definition has_sock :: "('e, 'd, 'i) h2_client \<Rightarrow> bool" where
  "has_sock c \<longleftrightarrow> h2_sock c \<noteq> None"

lemma sock_get_block: "call_keeps has_sock (get_block blk)"
  by (cases blk) (auto simp: call_keeps_def get_block_def has_sock_def split: option.splits prod.splits)

lemma sock_on_block: "call_keeps has_sock (on_block blk f)"
  unfolding on_block_def
  by (intro call_keeps_bind call_keeps_basic call_keeps_modify sock_get_block) (auto simp: set_block_def has_sock_def split: h2_block.split)

lemma sock_env: "call_keeps has_sock (h2_on_env m)"
  unfolding h2_on_env_def by (rule call_keeps_on) (simp add: has_sock_def)

lemma sock_set: "call_keeps has_sock (call_modify (\<lambda>c. c\<lparr>h2_sock := Some s\<rparr>))"
  by (rule call_keeps_modify) (simp add: has_sock_def)

lemma sock_send: "call_keeps has_sock (h2_send n sys bs)"
  unfolding h2_send_def by (intro call_keeps_bind call_keeps_basic) (auto intro!: call_keeps_bind sock_env split: option.split)

lemma sock_send_frame: "call_keeps has_sock (h2_send_frame n sys f)"
  unfolding h2_send_frame_def by (intro keeps_of_payload call_keeps_bind call_keeps_basic sock_get_block sock_send)

lemma sock_build: "call_keeps has_sock (build_setting_frame f)"
  unfolding build_setting_frame_def Let_def build_frame_header_def
  by (intro call_keeps_bind call_keeps_then keeps_of_payload call_keeps_basic sock_get_block sock_on_block)

text \<open>A connection attempt that failed counts as connected from then on: \<open>connect\<close> only looks at the pointer.\<close>

theorem connect_failure_counts:
  fixes c :: "('e, 'd, 'i) h2_client"
  assumes "h2_connect n sys host port c = Some (Inr (ok, c'))"
  shows "h2_connect n' sys' host' port' c' = Some (Inr (True, c'))"
proof (cases "h2_sock c")
  case (Some s)
  then show ?thesis using assms by (simp add: h2_connect_def call_return_def)
next
  case None
  define rest :: "co_socket \<Rightarrow> (('e, 'd, 'i) h2_client, bool) call" where
    "rest s = call_bind (h2_on_env (co_connect_host n sys s host port)) (\<lambda>(ok, s).
       call_then (call_modify (\<lambda>c. c\<lparr>h2_sock := Some s\<rparr>))
      (if \<not> ok then call_return False
       else call_bind (h2_send n sys FSW_HTTP2_PRI_STRING) (\<lambda>ok.
         if \<not> ok then call_return False
         else call_bind (build_setting_frame Frame_new) (h2_send_frame n sys))))" for s
  have e: "h2_connect n sys host port c = call_bind (h2_on_env (\<lambda>e. Some (Inr (co_socket_new sys AF_INET SOCK_STREAM 0 e))))
      (\<lambda>s. call_then (call_modify (\<lambda>c. c\<lparr>h2_sock := Some s\<rparr>)) (rest s)) c"
    using None by (simp add: h2_connect_def rest_def)
  obtain s t where "rest s (t\<lparr>h2_sock := Some s\<rparr>) = Some (Inr (ok, c'))"
    using assms unfolding e call_bind_returns call_then_modify by blast
  moreover have "call_keeps has_sock (rest s)"
  proof -
    have settings: "call_keeps (has_sock :: ('e, 'd, 'i) h2_client \<Rightarrow> bool) (if \<not> ok then call_return False
        else call_bind (build_setting_frame Frame_new) (h2_send_frame n sys))" for ok
      by (cases ok) (simp_all add: call_keeps_bind sock_build sock_send_frame)
    have "call_keeps (has_sock :: ('e, 'd, 'i) h2_client \<Rightarrow> bool) (if \<not> ok then call_return False
        else call_bind (h2_send n sys FSW_HTTP2_PRI_STRING) (\<lambda>ok.
          if \<not> ok then call_return False else call_bind (build_setting_frame Frame_new) (h2_send_frame n sys)))" for ok
      by (cases ok) (simp_all only: not_True_eq_False not_False_eq_True if_True if_False call_keeps_basic
          call_keeps_bind [OF sock_send settings])
    then show ?thesis
      unfolding rest_def by (intro call_keeps_bind sock_env) (simp only: split_beta call_keeps_then sock_set)
  qed
  moreover have "has_sock (t\<lparr>h2_sock := Some s\<rparr>)" by (simp add: has_sock_def)
  ultimately have "has_sock c'" using call_keepsD [of has_sock "rest s" "t\<lparr>h2_sock := Some s\<rparr>" ok c'] by blast
  then show ?thesis by (auto simp: h2_connect_def call_return_def has_sock_def)
qed

end
