(* ===== verification/Http2_Response.thy ===== *)
theory Http2_Response
  imports Http2_Session
begin

text \<open>
  The receiving side of a session: frames from the bytes of the connection, bodies collected from DATA
  frames, and the response that \<open>recv_reponse\<close> returns.
\<close>

unbundle bit_operations_syntax

section \<open>Collecting a body\<close>

definition collected :: "stream \<Rightarrow> bytes" where
  "collected s = (case str_buffer s of None \<Rightarrow> [] | Some b \<Rightarrow> buf_contents b)"

definition stream_ok :: "stream \<Rightarrow> bool" where
  "stream_ok s = (case str_buffer s of None \<Rightarrow> True | Some b \<Rightarrow> buf_wf b \<and> buf_cap b = READ_BUF_MAX_SIZE)"

definition body_buffer :: "stream \<Rightarrow> buffer" where
  "body_buffer s = (case str_buffer s of Some b \<Rightarrow> b | None \<Rightarrow> Buffer_new 0 (of_nat READ_BUF_MAX_SIZE))"

lemma body_buffer_ok:
  "stream_ok s \<Longrightarrow> buf_wf (body_buffer s) \<and> buf_cap (body_buffer s) = READ_BUF_MAX_SIZE \<and> buf_contents (body_buffer s) = collected s"
  by (auto simp: stream_ok_def body_buffer_def collected_def READ_BUF_MAX_SIZE_def intro!: Buffer_new_wf split: option.splits)

text \<open>The payload of a frame, behind its header in the read buffer.\<close>

definition frame_bytes :: "h2_frame \<Rightarrow> ('e, 'd, 'i) h2_client \<Rightarrow> bytes" where
  "frame_bytes f c = (case h2_sock c of None \<Rightarrow> [] | Some s \<Rightarrow> (case read_buf s of None \<Rightarrow> []
     | Some b \<Rightarrow> take (nat (payload_length f)) (drop 9 (buf_data b))))"

definition data_ready :: "h2_frame \<Rightarrow> nat \<Rightarrow> stream \<Rightarrow> ('e, 'd, 'i) h2_client \<Rightarrow> bool" where
  "data_ready f a s c \<longleftrightarrow> frame_type f = FSW_HTTP2_TYPE_DATA \<and> payload f = Some ReadBuf \<and> frame_stream f = At a \<and>
     a < length (store c) \<and> store c ! a = Some s \<and> stream_ok s \<and> 0 \<le> payload_length f \<and>
     length (frame_bytes f c) = nat (payload_length f) \<and> nat (payload_length f) < 2 ^ 24"

text \<open>Parsing touches the streams and the settings, not the connection or the table of streams.\<close>

definition same_session :: "('e, 'd, 'i) h2_client \<Rightarrow> ('e, 'd, 'i) h2_client \<Rightarrow> bool" where
  "same_session c c' \<longleftrightarrow> h2_env c' = h2_env c \<and> h2_sock c' = h2_sock c \<and> streams c' = streams c"

definition flagged :: "h2_frame \<Rightarrow> stream \<Rightarrow> stream" where
  "flagged f s = (if frame_flags f AND FSW_HTTP2_FLAG_END_STREAM = 0
     then s\<lparr>str_flags := str_flags s OR FSW_HTTP2_STREAM_PIPELINE_RESPONSE\<rparr> else s)"

lemma flagged_simps [simp]:
  "str_buffer (flagged f s) = str_buffer s" "str_response (flagged f s) = str_response s"
  "local_window_size (flagged f s) = local_window_size s"
  by (simp_all add: flagged_def)

lemma parse_payload_flags:
  fixes c :: "('e, 'd, 'i) h2_client"
  assumes "frame_stream f = At a" and "a < length (store c)" and "store c ! a = Some s"
  shows "parse_payload f c = (if 0 < payload_length f
     then
       let b = body_buffer s; len = word_of_int (payload_length f); c1 = assign (At a) (flagged f s) c
       in of_payload f (\<lambda>blk.
         call_bind (get_block blk) (\<lambda>bs.
         call_bind (call_res (append_chars b (drop FSW_HTTP2_FRAME_HEADER_SIZE bs) len)) (\<lambda>b.
         call_modify (\<lambda>c. assign (At a)
           ((flagged f s)\<lparr>str_buffer := Some b, local_window_size := local_window_size s - ucast len\<rparr>)
           (c\<lparr>local_settings := (local_settings c)\<lparr>window_size := window_size (local_settings c) - ucast len\<rparr>\<rparr>))))) c1
     else Some (Inr ((), assign (At a) (flagged f s) c)))"
proof -
  let ?c1 = "assign (At a) (flagged f s) c"
  define p0 :: "(('e, 'd, 'i) h2_client, unit) call" where "p0 = (if frame_flags f AND FSW_HTTP2_FLAG_END_STREAM = 0
       then call_bind (deref (frame_stream f)) (\<lambda>s.
         call_modify (assign (frame_stream f) (s\<lparr>str_flags := str_flags s OR FSW_HTTP2_STREAM_PIPELINE_RESPONSE\<rparr>)))
       else call_return ())"
  have lu: "(store c)[a := Some s] = store c" using assms(3) by (metis list_update_id)
  have "p0 c = Some (Inr ((), ?c1))"
    using assms by (simp add: p0_def deref_def call_bind_def call_modify_def call_return_def assign_def flagged_def lu)
  moreover have "deref (At a) ?c1 = Some (Inr (flagged f s, ?c1))" using assms(2) by (simp add: deref_def assign_def)
  ultimately show ?thesis
    unfolding parse_payload_def call_then_def p0_def [symmetric] using assms(1)
    by (simp add: call_bind_cong Let_def body_buffer_def call_return_def)
qed

lemma parse_payload_collects:
  fixes c :: "('e, 'd, 'i) h2_client"
  assumes "data_ready f a s c"
  shows "if length (collected s) + length (frame_bytes f c) \<le> READ_BUF_MAX_SIZE
    then \<exists>s' c'. parse_payload f c = Some (Inr ((), c')) \<and> store c' = (store c)[a := Some s'] \<and> same_session c c' \<and>
      stream_ok s' \<and> collected s' = collected s @ frame_bytes f c \<and> str_response s' = str_response s \<and>
      local_window_size s' = local_window_size s - of_nat (length (frame_bytes f c))
    else parse_payload f c = Some (Inl ExitError)"
proof -
  note d = assms [unfolded data_ready_def]
  let ?bs = "frame_bytes f c" and ?b = "body_buffer s" and ?s = "flagged f s"
  let ?c1 = "assign (At a) ?s c"
  have b: "buf_wf ?b" "buf_cap ?b = READ_BUF_MAX_SIZE" "buf_contents ?b = collected s" using body_buffer_ok d by blast+
  have room: "length (collected s) \<le> READ_BUF_MAX_SIZE"
    using buf_wf_length [OF b(1)] length_contents [OF b(1)] b(2,3) by simp
  have "frame_stream f = At a" "a < length (store c)" "store c ! a = Some s" using d by simp_all
  note pp = parse_payload_flags [OF this]
  show ?thesis
  proof (cases "payload_length f = 0")
    case True
    then have p: "parse_payload f c = Some (Inr ((), ?c1))" "?bs = []" using pp d by simp_all
    then have fit: "length (collected s) + length ?bs \<le> READ_BUF_MAX_SIZE" using room by simp
    have "store ?c1 = (store c)[a := Some ?s]" "same_session c ?c1" by (simp_all add: assign_def same_session_def)
    moreover have "stream_ok ?s" "collected ?s = collected s" using d by (simp_all add: stream_ok_def collected_def)
    ultimately show ?thesis unfolding if_P [OF fit] using p by (intro exI [of _ ?s] exI [of _ ?c1]) simp
  next
    case False
    then obtain N where N: "payload_length f = int N" "0 < N" "N < 2 ^ 24" using d by (metis nat_0_le of_nat_0_less_iff order_le_less)
    then obtain so rb where so: "h2_sock c = Some so" "read_buf so = Some rb" and bs: "?bs = take N (drop 9 (buf_data rb))"
      using d by (auto simp: frame_bytes_def split: option.splits)
    have lb: "length ?bs = N" using d N(1) by simp
    have u: "unat (of_nat N :: u64) = N" using N(3) by (simp add: unat_of_nat)
    have u32: "(ucast (of_nat N :: u64) :: u32) = of_nat N"
      using N(3) by (simp add: word_unat_eq_iff unat_of_nat unsigned_ucast_eq take_bit_nat_eq_self)
    have "append_chars ?b (drop 9 (buf_data rb)) (of_nat N) = append_chars ?b ?bs (of_nat (length ?bs))"
      unfolding lb by (rule append_chars_cong) (use lb u in \<open>auto simp: bs min_def split: if_splits\<close>)
    then have app: "append_chars ?b (drop 9 (buf_data rb)) (of_nat N) = append_string ?b ?bs"
      by (simp only: append_chars_all)
    have rb1: "get_block ReadBuf ?c1 = Some (Inr (buf_data rb, ?c1))"
      using so by (simp add: get_block_def get_read_buf_def assign_def)
    let ?t = "\<lambda>b'. ?s\<lparr>str_buffer := Some b', local_window_size := local_window_size s - of_nat N\<rparr>"
    let ?out = "\<lambda>b'. assign (At a) (?t b')
       (?c1\<lparr>local_settings := (local_settings ?c1)\<lparr>window_size := window_size (local_settings ?c1) - of_nat N\<rparr>\<rparr>)"
    have run: "parse_payload f c = (case append_string ?b ?bs of Inl e \<Rightarrow> Some (Inl e) | Inr b' \<Rightarrow> Some (Inr ((), ?out b')))"
      using pp N d rb1 app u32 by (simp add: call_bind_def Let_def of_payload_def call_modify_def call_res_def
          FSW_HTTP2_FRAME_HEADER_SIZE_def split: sum.split)
    have st: "store (?out b') = (store c)[a := Some (?t b')]" "same_session c (?out b')" for b'
      by (simp_all add: assign_def same_session_def)
    show ?thesis
    proof (cases "length (collected s) + length ?bs \<le> READ_BUF_MAX_SIZE")
      case True
      then obtain b' where b': "append_string ?b ?bs = Inr b'" "buf_wf b'" "buf_cap b' = READ_BUF_MAX_SIZE"
        "buf_contents b' = collected s @ ?bs"
        using append_string_fits [OF b(1), of ?bs] b(2,3) by auto
      have "stream_ok (?t b')" "collected (?t b') = collected s @ ?bs" "str_response (?t b') = str_response s"
        "local_window_size (?t b') = local_window_size s - of_nat (length ?bs)"
        using b' lb by (simp_all add: stream_ok_def collected_def)
      moreover have "parse_payload f c = Some (Inr ((), ?out b'))" using run b'(1) by simp
      ultimately show ?thesis using True st [of b'] by (simp only: if_True) blast
    next
      case False
      then have "append_string ?b ?bs = Inl ExitError"
        using room b(2,3) lb N(3) by (intro append_string_full [OF b(1)]) (simp_all add: READ_BUF_MAX_SIZE_def)
      then show ?thesis using False run by simp
    qed
  qed
qed

lemma finish_stream_takes:
  assumes "a < length (store c)" and "store c ! a = Some s" and "stream_ok s"
  shows "\<exists>s' c'. finish_stream (At a) c = Some (Inr ((), c')) \<and> store c' = (store c)[a := Some s'] \<and> same_session c c' \<and>
    stream_ok s' \<and> collected s' = [] \<and> local_window_size s' = local_window_size s \<and>
    str_response s' = (str_response s)\<lparr>resp_body := if collected s = [] then resp_body (str_response s) else collected s\<rparr>"
proof (cases "collected s = []")
  case True
  then have "finish_stream (At a) c = Some (Inr ((), c))"
    using assms by (auto simp: finish_stream_def deref_def call_bind_def call_return_def collected_def stream_ok_def buf_contents_def
        word_greater_zero_iff buf_wf_def unat_eq_zero unat_plus_1 split: option.splits)
  moreover have "(store c)[a := Some s] = store c" using assms(2) by (metis list_update_id)
  ultimately show ?thesis using True assms(3) by (intro exI [of _ s] exI [of _ c]) (simp add: same_session_def)
next
  case False
  then obtain b where b: "str_buffer s = Some b" "buf_wf b" "buf_cap b = READ_BUF_MAX_SIZE" "buf_contents b = collected s"
    using assms(3) by (auto simp: collected_def stream_ok_def split: option.splits)
  obtain b' where b': "Buffer_clear b = Inr b'" "buf_wf b'" "buf_contents b' = []" "buf_cap b' = buf_cap b"
    using Buffer_clear_wf [OF b(2)] by blast
  let ?t = "s\<lparr>str_buffer := Some b', str_response := (str_response s)\<lparr>resp_body := buf_contents b\<rparr>\<rparr>"
  have "0 < buf_length b" using False b(4) length_contents [OF b(2)] by (metis word_less_nat_alt unsigned_0 length_greater_0_conv)
  moreover have "mem_read (buf_data b) 0 (unat (buf_length b)) = Inr (buf_contents b)"
    using wf_data_length [OF b(2)] by (simp add: mem_read_def buf_contents_def)
  ultimately have "finish_stream (At a) c = Some (Inr ((), assign (At a) ?t c))"
    using assms(1,2) b(1) b'(1) by (simp add: finish_stream_def deref_def call_bind_def call_res_def call_modify_def)
  moreover have "stream_ok ?t" "collected ?t = []" using b(3) b' by (simp_all add: stream_ok_def collected_def)
  ultimately show ?thesis
    using False b(4) by (intro exI [of _ ?t] exI [of _ "assign (At a) ?t c"]) (simp add: assign_def same_session_def)
qed

lemma parse_frame_data:
  fixes c :: "('e, 'd, 'i) h2_client"
  assumes "data_ready f a s c"
  shows "\<exists>c0. store c0 = store c \<and> same_session c c0 \<and> frame_bytes f c0 = frame_bytes f c \<and> data_ready f a s c0 \<and>
    parse_frame k n sys ng f c = call_then (parse_payload f)
      (if frame_flags f AND FSW_HTTP2_FLAG_END_STREAM = 0 then call_return FSW_CONTINUE
       else call_then (finish_stream (At a)) (call_return FSW_READY)) c0"
proof -
  let ?c = "if last_stream_id c < next_stream_id c then c\<lparr>last_stream_id := next_stream_id c\<rparr> else c"
  note d = assms [unfolded data_ready_def]
  have fb: "frame_bytes f ?c = frame_bytes f c" "store ?c = store c" by (simp_all add: frame_bytes_def)
  have ty: "frame_type f \<noteq> FSW_HTTP2_TYPE_SETTINGS" "frame_type f \<notin> set ignored_types" "frame_type f \<noteq> FSW_HTTP2_TYPE_HEADERS"
    "frame_type f = FSW_HTTP2_TYPE_DATA" "frame_type f \<noteq> FSW_HTTP2_TYPE_RST_STREAM" "frame_type f \<noteq> FSW_HTTP2_TYPE_GOAWAY"
    using d by (auto simp: h2_types ignored_types_def)
  have "call_then (call_return ()) m = m" for m :: "(('e, 'd, 'i) h2_client, fswReturn_code) call"
    by (rule ext) (simp add: call_then_def)
  then have "parse_frame k n sys ng f c = call_then (parse_payload f)
      (if frame_flags f AND FSW_HTTP2_FLAG_END_STREAM = 0 then call_return FSW_CONTINUE
       else call_then (finish_stream (At a)) (call_return FSW_READY)) ?c"
    using ty d by (simp add: parse_frame_def)
  with fb d show ?thesis by (intro exI [of _ ?c]) (simp add: data_ready_def same_session_def)
qed

text \<open>
  What a DATA frame leaves of its stream: the payload is appended to what was collected, and the frame that ends
  the stream hands all of it to the response.
\<close>

definition data_taken :: "h2_frame \<Rightarrow> bytes \<Rightarrow> stream \<Rightarrow> stream \<Rightarrow> bool" where
  "data_taken f bs s s' \<longleftrightarrow> stream_ok s' \<and> local_window_size s' = local_window_size s - of_nat (length bs) \<and>
     (if frame_flags f AND FSW_HTTP2_FLAG_END_STREAM = 0
      then collected s' = collected s @ bs \<and> str_response s' = str_response s
      else collected s' = [] \<and> str_response s' = (str_response s)\<lparr>resp_body :=
        if collected s @ bs = [] then resp_body (str_response s) else collected s @ bs\<rparr>)"

lemma data_frame_collected:
  assumes "data_ready f a s c"
  shows "if length (collected s) + length (frame_bytes f c) \<le> READ_BUF_MAX_SIZE
    then \<exists>c' s'. parse_frame k n sys ng f c =
        Some (Inr (if frame_flags f AND FSW_HTTP2_FLAG_END_STREAM = 0 then FSW_CONTINUE else FSW_READY, c')) \<and>
      store c' = (store c)[a := Some s'] \<and> same_session c c' \<and> data_taken f (frame_bytes f c) s s'
    else parse_frame k n sys ng f c = Some (Inl ExitError)"
proof -
  let ?bs = "frame_bytes f c" and ?cont = "frame_flags f AND FSW_HTTP2_FLAG_END_STREAM = 0"
  obtain c0 where fb: "store c0 = store c" "same_session c c0" "frame_bytes f c0 = ?bs" "data_ready f a s c0"
    and pf: "parse_frame k n sys ng f c = call_then (parse_payload f)
      (if ?cont then call_return FSW_CONTINUE else call_then (finish_stream (At a)) (call_return FSW_READY)) c0"
    using parse_frame_data [OF assms] by blast
  show ?thesis
  proof (cases "length (collected s) + length ?bs \<le> READ_BUF_MAX_SIZE")
    case False
    then have "parse_payload f c0 = Some (Inl ExitError)" using parse_payload_collects [OF fb(4)] by (simp only: fb if_False)
    then show ?thesis using False pf by (simp only: if_False call_then_def) (simp add: call_bind_def)
  next
    case True
    then obtain s1 c1 where s1: "parse_payload f c0 = Some (Inr ((), c1))" "store c1 = (store c)[a := Some s1]" "same_session c0 c1"
      "stream_ok s1" "collected s1 = collected s @ ?bs" "str_response s1 = str_response s"
      "local_window_size s1 = local_window_size s - of_nat (length ?bs)"
      using parse_payload_collects [OF fb(4)] by (simp only: fb if_True) blast
    have "a < length (store c1)" "store c1 ! a = Some s1" using assms s1(2) by (simp_all add: data_ready_def)
    from finish_stream_takes [OF this s1(4)] obtain s2 c2 where s2: "finish_stream (At a) c1 = Some (Inr ((), c2))"
      "store c2 = (store c1)[a := Some s2]" "same_session c1 c2" "stream_ok s2" "collected s2 = []"
      "local_window_size s2 = local_window_size s1"
      "str_response s2 = (str_response s1)\<lparr>resp_body := if collected s1 = [] then resp_body (str_response s1) else collected s1\<rparr>"
      by blast
    have "parse_frame k n sys ng f c = Some (Inr (if ?cont then (FSW_CONTINUE, c1) else (FSW_READY, c2)))"
      using pf s1(1) s2(1) by (simp add: call_then_def call_bind_def call_return_def)
    moreover have "data_taken f ?bs s (if ?cont then s1 else s2)" using s1 s2 by (simp add: data_taken_def)
    moreover have "same_session c c1" "same_session c c2" using fb(2) s1(3) s2(3) by (simp_all add: same_session_def)
    ultimately show ?thesis
      using True s1(2) s2(2) by (intro if_P [THEN iffD2] exI [of _ "if ?cont then c1 else c2"] exI [of _ "if ?cont then s1 else s2"]) simp_all
  qed
qed

section \<open>Receiving\<close>

lemma get_read_buf_sets: "\<exists>b. get_read_buf s = (b, s\<lparr>read_buf := Some b\<rparr>)"
proof (cases "read_buf s")
  case (Some b)
  moreover from this have "s\<lparr>read_buf := Some b\<rparr> = s" by simp
  ultimately show ?thesis by (simp add: get_read_buf_def)
qed (simp add: get_read_buf_def Let_def)

lemma recv_into_read_buf:
  assumes "h2_sock c = Some s" and "read_buf s = Some b" and "co_recv n sys s len (h2_env c) = Some (Inr ((r, bs), e))"
  shows "h2_recv_into n sys off len c = (case mem_write (buf_data b) off bs of Inl x \<Rightarrow> Some (Inl x)
    | Inr m \<Rightarrow> Some (Inr ((), c\<lparr>h2_env := e, h2_sock := Some (s\<lparr>read_buf := Some (b\<lparr>buf_data := m\<rparr>)\<rparr>)\<rparr>)))"
  using assms by (simp add: h2_recv_into_def call_bind_def call_get_def h2_on_env_def call_on_def on_block_def get_block_def
      get_read_buf_def call_res_def call_modify_def set_block_def split: sum.split)

definition received :: "h2_frame \<Rightarrow> nat \<Rightarrow> byte \<Rightarrow> byte \<Rightarrow> u32 \<Rightarrow> ('e, 'd, 'i) h2_client \<Rightarrow> h2_frame" where
  "received f len ty fl sid c = f\<lparr>frame_flags := fl, payload := Some ReadBuf, payload_length := int len, frame_stream_id := sid,
     frame_type := ty, frame_stream := get_stream c sid\<rparr>"

lemma recv_frame_cases:
  fixes sid :: u32 and c :: "('e, 'd, 'i) h2_client"
  assumes "h2_sock c = Some s" and "length (buf_data (fst (get_read_buf s))) = 1025" and "len < 2 ^ 24"
    and "co_recv n sys s FSW_HTTP2_FRAME_HEADER_SIZE (h2_env c) = Some (Inr ((9, wire_header len ty fl (unat sid)), e1))"
    and "co_recv n sys s len e1 = Some (Inr ((r, bs), e2))"
  shows "if length bs \<le> 1016
    then \<exists>b m. h2_recv_frame n sys f c = Some (Inr (received f len ty fl (sid AND 0x7fffffff) c,
        c\<lparr>h2_env := e2, h2_sock := Some (s\<lparr>read_buf := Some (b\<lparr>buf_data := m\<rparr>)\<rparr>)\<rparr>)) \<and> length m = 1025 \<and> take (length bs) (drop 9 m) = bs
    else h2_recv_frame n sys f c = Some (Inl OutOfBounds)"
proof -
  obtain b where b: "get_read_buf s = (b, s\<lparr>read_buf := Some b\<rparr>)" using get_read_buf_sets by blast
  let ?w = "wire_header len ty fl (unat sid)"
  let ?c0 = "c\<lparr>h2_sock := Some (s\<lparr>read_buf := Some b\<rparr>)\<rparr>"
  let ?m = "?w @ drop 9 (buf_data b)"
  let ?c1 = "c\<lparr>h2_env := e1, h2_sock := Some (s\<lparr>read_buf := Some (b\<lparr>buf_data := ?m\<rparr>)\<rparr>)\<rparr>"
  have l: "length (buf_data b) = 1025" using assms(2) b by simp
  have 0: "get_block ReadBuf c = Some (Inr (buf_data b, ?c0))" using assms(1) b by (simp add: get_block_def)
  have fd: "co_recv n sys (s\<lparr>read_buf := x\<rparr>) k = co_recv n sys s k" for x k by (rule co_recv_fd) simp
  have "mem_write (buf_data b) 0 ?w = Inr ?m" using l by (simp add: mem_write_def)
  then have 1: "h2_recv_into n sys 0 FSW_HTTP2_FRAME_HEADER_SIZE ?c0 = Some (Inr ((), ?c1))"
    using recv_into_read_buf [of ?c0 "s\<lparr>read_buf := Some b\<rparr>" b n sys FSW_HTTP2_FRAME_HEADER_SIZE 9 ?w e1 0] assms(4) fd by simp
  have 2: "get_block ReadBuf ?c1 = Some (Inr (?m, ?c1))" by (simp add: get_block_def get_read_buf_def)
  have 3: "get_payload_length ?m = Inr len"
    using read_wire_header [OF assms(3), of ty fl sid "drop 9 (buf_data b)"] by (auto simp: read_frame_header_def res_simps)
  have into: "h2_recv_into n sys FSW_HTTP2_FRAME_HEADER_SIZE len ?c1 = (case mem_write ?m FSW_HTTP2_FRAME_HEADER_SIZE bs of
      Inl x \<Rightarrow> Some (Inl x)
    | Inr m \<Rightarrow> Some (Inr ((), c\<lparr>h2_env := e2, h2_sock := Some (s\<lparr>read_buf := Some (b\<lparr>buf_data := m\<rparr>)\<rparr>)\<rparr>)))"
    using recv_into_read_buf [of ?c1 "s\<lparr>read_buf := Some (b\<lparr>buf_data := ?m\<rparr>)\<rparr>" "b\<lparr>buf_data := ?m\<rparr>" n sys len r bs e2
        FSW_HTTP2_FRAME_HEADER_SIZE] assms(5) fd by (simp split: sum.split)
  show ?thesis
  proof (cases "length bs \<le> 1016")
    case True
    let ?m2 = "?w @ bs @ drop (9 + length bs) (buf_data b)"
    let ?c2 = "c\<lparr>h2_env := e2, h2_sock := Some (s\<lparr>read_buf := Some (b\<lparr>buf_data := ?m2\<rparr>)\<rparr>)\<rparr>"
    have "mem_write ?m FSW_HTTP2_FRAME_HEADER_SIZE bs = Inr ?m2"
      using l True by (simp add: mem_write_def FSW_HTTP2_FRAME_HEADER_SIZE_def add.commute)
    then have "h2_recv_into n sys FSW_HTTP2_FRAME_HEADER_SIZE len ?c1 = Some (Inr ((), ?c2))" using into by simp
    moreover have "get_block ReadBuf ?c2 = Some (Inr (?m2, ?c2))" by (simp add: get_block_def get_read_buf_def)
    moreover have "read_frame_header ?m2 = Inr (len, ty, fl, sid AND 0x7fffffff)" using read_wire_header [OF assms(3)] by blast
    moreover have "get_stream ?c2 x = get_stream c x" for x by (simp add: get_stream_def)
    ultimately have "h2_recv_frame n sys f c = Some (Inr (received f len ty fl (sid AND 0x7fffffff) c, ?c2))"
      using 0 1 2 3 by (simp add: h2_recv_frame_def call_then_def call_bind_def call_res_def call_get_def call_return_def received_def)
    moreover have "length ?m2 = 1025" "take (length bs) (drop 9 ?m2) = bs" using l True by simp_all
    ultimately show ?thesis using True by (simp only: if_True) blast
  next
    case False
    then have "mem_write ?m FSW_HTTP2_FRAME_HEADER_SIZE bs = Inl OutOfBounds"
      using l by (simp add: mem_write_def FSW_HTTP2_FRAME_HEADER_SIZE_def)
    then have "h2_recv_into n sys FSW_HTTP2_FRAME_HEADER_SIZE len ?c1 = Some (Inl OutOfBounds)" using into by simp
    then show ?thesis
      using False 0 1 2 3 by (simp add: h2_recv_frame_def call_then_def call_bind_def call_res_def)
  qed
qed

text \<open>
  C35: when its two reads bring a header and then a payload, \<open>recv_frame\<close> returns the frame with the length,
  type, flags and stream of that header and the payload behind it in the read buffer. The length is not compared with
  the room there is: a payload of more than 1016 bytes is written beyond the end of the buffer.
\<close>

theorem recv_frame_outcomes:
  fixes sid :: u32 and c :: "('e, 'd, 'i) h2_client"
  assumes "h2_sock c = Some s" and "length (buf_data (fst (get_read_buf s))) = 1025" and "len < 2 ^ 24"
    and "co_recv n sys s FSW_HTTP2_FRAME_HEADER_SIZE (h2_env c) = Some (Inr ((9, wire_header len ty fl (unat sid)), e1))"
    and "co_recv n sys s len e1 = Some (Inr ((int len, bs), e2))" and "length bs = len"
  shows "if len \<le> 1016
    then \<exists>g c'. h2_recv_frame n sys f c = Some (Inr (g, c')) \<and> frame_type g = ty \<and> frame_flags g = fl \<and>
      frame_stream_id g = sid AND 0x7fffffff \<and> frame_stream g = get_stream c (sid AND 0x7fffffff) \<and> frame_bytes g c' = bs
    else h2_recv_frame n sys f c = Some (Inl OutOfBounds)"
proof (cases "len \<le> 1016")
  case True
  then obtain b m where "h2_recv_frame n sys f c = Some (Inr (received f len ty fl (sid AND 0x7fffffff) c,
        c\<lparr>h2_env := e2, h2_sock := Some (s\<lparr>read_buf := Some (b\<lparr>buf_data := m\<rparr>)\<rparr>)\<rparr>))" "take (length bs) (drop 9 m) = bs"
    using recv_frame_cases [OF assms(1-5), of f] assms(6) by auto
  then show ?thesis using True assms(6) by (auto simp: received_def frame_bytes_def)
next
  case False
  then show ?thesis using recv_frame_cases [OF assms(1-5), of f] assms(6) by simp
qed

lemma demo_recv:
  "length x = len \<Longrightarrow> co_recv 1 quick_sys s len \<lparr>blocked = 0, to_read = x @ y, written = z\<rparr> =
     Some (Inr ((to_int (int len), x), \<lparr>blocked = 0, to_read = y, written = z\<rparr>))"
  by (auto simp: co_recv_def Socket_recv_def quick_sys_def call_return_def to_int_def demo_sys_def EAGAIN_def)

definition demo_input :: "(demo, unit, unit) h2_client" where
  "demo_input = (demo_client (wire_header 3 FSW_HTTP2_TYPE_HEADERS 5 1 @ [1, 2, 3]))\<lparr>streams := [(1, 0)],
     store := [Some (Stream_new 1 False)]\<rparr>"

lemma demo_input_reads:
  "h2_sock demo_input = Some demo_socket" "length (buf_data (fst (get_read_buf demo_socket))) = 1025"
  "co_recv 1 quick_sys demo_socket FSW_HTTP2_FRAME_HEADER_SIZE (h2_env demo_input) =
     Some (Inr ((9, wire_header 3 FSW_HTTP2_TYPE_HEADERS 5 (unat (1 :: u32))), \<lparr>blocked = 0, to_read = [1, 2, 3], written = []\<rparr>))"
  "co_recv 1 quick_sys demo_socket 3 \<lparr>blocked = 0, to_read = [1, 2, 3], written = []\<rparr> =
     Some (Inr ((int 3, [1, 2, 3]), \<lparr>blocked = 0, to_read = [], written = []\<rparr>))"
  using demo_recv [of "wire_header 3 FSW_HTTP2_TYPE_HEADERS 5 1" 9 demo_socket "[1, 2, 3]" "[]"] demo_recv [of "[1, 2, 3]" 3 demo_socket "[]" "[]"]
  by (simp_all add: demo_input_def demo_client_def demo_socket_def get_read_buf_def Buffer_new_def READ_BUF_MAX_SIZE_def
      FSW_HTTP2_FRAME_HEADER_SIZE_def to_int_def Let_def)

theorem recv_frame_outcomes_witness:
  "\<exists>g c'. h2_recv_frame 1 quick_sys Frame_new demo_input = Some (Inr (g, c')) \<and> frame_stream g = At 0 \<and> frame_bytes g c' = [1, 2, 3]"
  using recv_frame_outcomes [OF demo_input_reads(1,2) _ demo_input_reads(3,4), of Frame_new]
  by (auto simp: get_stream_def demo_input_def)

lemma demo_parse_header:
  fixes c :: "(demo, unit, unit) h2_client"
  assumes "get_block ReadBuf c = Some (Inr (m, c))" and "mem_read m 9 3 = Inr [1, 2, 3]" and "store c = store demo_input"
    and "payload f = Some ReadBuf" and "payload_length f = 3" and "frame_stream f = At 0"
  shows "\<exists>ok c'. parse_frame_header 5 demo_ng f c = Some (Inr (ok, c')) \<and> store c' = store demo_input"
proof -
  have "\<exists>x. inflate_loop 5 demo_ng 0 [1, 2, 3] r i = Some x" for r i
    by (simp add: numeral_eq_Suc parse_header_stop_def demo_ng_def NGHTTP2_HD_INFLATE_FINAL_def Let_def) blast
  from this [of "str_response (Stream_new 1 False)" "inflater c"] show ?thesis
    using assms by (auto simp: parse_frame_header_def of_payload_def deref_def demo_input_def call_bind_def call_res_def call_get_def
        FSW_HTTP2_FRAME_HEADER_SIZE_def)
qed

text \<open>
  C36: \<open>parse_frame_header\<close> writes the status and the headers into a copy of the response: whatever the
  server sends, the response that \<open>recv_reponse\<close> returns has neither.
\<close>

theorem response_without_status:
  assumes "blank_store c" and "recv_reponse m k n sys ng c = Some (Inr (r, c'))"
  shows "status_code r = None \<and> h2_resp_header r = []"
  using assms by (rule response_blank)

theorem response_without_status_witness:
  "\<exists>r c'. recv_reponse 1 5 1 quick_sys demo_ng demo_input = Some (Inr (r, c')) \<and> status_code r = None"
proof -
  let ?f = "received Frame_new 3 FSW_HTTP2_TYPE_HEADERS 5 1 demo_input"
  obtain b m where run: "h2_recv_frame 1 quick_sys Frame_new demo_input = Some (Inr (?f, demo_input\<lparr>h2_env :=
      \<lparr>blocked = 0, to_read = [], written = []\<rparr>, h2_sock := Some (demo_socket\<lparr>read_buf := Some (b\<lparr>buf_data := m\<rparr>)\<rparr>)\<rparr>))"
      (is "_ = Some (Inr (_, ?c))")
    and m: "length m = 1025" "take 3 (drop 9 m) = [1, 2, 3]"
    using recv_frame_cases [OF demo_input_reads(1,2) _ demo_input_reads(3,4), of Frame_new] by (auto simp: numeral_3_eq_3)
  let ?d = "if last_stream_id ?c < next_stream_id ?c then ?c\<lparr>last_stream_id := next_stream_id ?c\<rparr> else ?c"
  have f: "frame_stream ?f = At 0" "frame_type ?f = FSW_HTTP2_TYPE_HEADERS" "frame_flags ?f = 5" "payload ?f = Some ReadBuf"
    "payload_length ?f = 3"
    by (simp_all add: received_def get_stream_def demo_input_def)
  have "get_block ReadBuf ?d = Some (Inr (m, ?d))" "mem_read m 9 3 = Inr [1, 2, 3]" "store ?d = store demo_input"
    using m by (simp_all add: get_block_def get_read_buf_def mem_read_def)
  then obtain ok c where c: "parse_frame_header 5 demo_ng ?f ?d = Some (Inr (ok, c))" "store c = store demo_input"
    using demo_parse_header f by blast
  have d: "deref (At 0) c = Some (Inr (Stream_new 1 False, c))" using c(2) by (simp add: deref_def demo_input_def)
  then have "finish_stream (At 0) c = Some (Inr ((), c))"
    by (simp add: finish_stream_def call_bind_def Stream_new_def call_return_def)
  then have "parse_frame 5 1 quick_sys demo_ng ?f ?c = Some (Inr (FSW_READY, c))"
    using c(1) f by (simp add: parse_frame_def call_then_def call_bind_def call_modify_def call_return_def h2_types ignored_types_def
        FSW_HTTP2_FLAG_END_STREAM_def del: if_split)
  then have "\<exists>r c'. recv_reponse 1 5 1 quick_sys demo_ng demo_input = Some (Inr (r, c'))"
    using run d f(1) by (simp add: recv_reponse_def call_bind_def call_return_def)
  moreover have "blank_store demo_input"
    by (simp add: blank_store_def demo_input_def blank_def Stream_new_def h2_response_new_def)
  ultimately show ?thesis using response_without_status by blast
qed

section \<open>A whole response\<close>

text \<open>
  A connection whose reads bring all the bytes they ask for; \<open>io e\<close> are the bytes to come and those that
  were sent. (\<open>recv_frame\<close>
  does not look at how much \<open>recv\<close> brought.)
\<close>

definition full_reads :: "nat \<Rightarrow> 'e sys \<Rightarrow> int \<Rightarrow> ('e \<Rightarrow> bytes \<times> bytes) \<Rightarrow> bool" where
  "full_reads n sys fd io \<longleftrightarrow> (\<forall>s e bs rest w. sock_fd s = fd \<longrightarrow> length bs < 2 ^ 24 \<longrightarrow> io e = (bs @ rest, w) \<longrightarrow>
     (\<exists>e'. co_recv n sys s (length bs) e = Some (Inr ((int (length bs), bs), e')) \<and> io e' = (rest, w)))"

text \<open>A client that is connected and has the open stream \<open>sid\<close>.\<close>

definition awaits :: "u32 \<Rightarrow> nat \<Rightarrow> int \<Rightarrow> stream \<Rightarrow> ('e, 'd, 'i) h2_client \<Rightarrow> bool" where
  "awaits sid a fd st c \<longleftrightarrow>
     (case h2_sock c of None \<Rightarrow> False | Some s \<Rightarrow> sock_fd s = fd \<and> length (buf_data (fst (get_read_buf s))) = 1025) \<and>
     get_stream c sid = At a \<and> a < length (store c) \<and> store c ! a = Some st \<and> stream_ok st"

definition headers_reply :: "u32 \<Rightarrow> bytes \<Rightarrow> bytes" where
  "headers_reply sid hb = wire_header (length hb) FSW_HTTP2_TYPE_HEADERS FSW_HTTP2_FLAG_END_HEADERS (unat sid) @ hb"

fun body_frames :: "u32 \<Rightarrow> bytes list \<Rightarrow> bytes" where
  "body_frames sid [] = []"
| "body_frames sid (p # ps) = data_frame sid (ps = []) p @ body_frames sid ps"

lemma full_readsD:
  "full_reads n sys fd io \<Longrightarrow> sock_fd s = fd \<Longrightarrow> io e = (bs @ rest, w) \<Longrightarrow> length bs < 2 ^ 24 \<Longrightarrow>
   \<exists>e'. co_recv n sys s (length bs) e = Some (Inr ((int (length bs), bs), e')) \<and> io e' = (rest, w)"
  unfolding full_reads_def by blast

lemma sid_mask: "sid < 2 ^ 31 \<Longrightarrow> sid AND 0x7fffffff = (sid :: u32)"
proof -
  assume "sid < 2 ^ 31"
  then have "take_bit 31 sid = sid" by (simp add: word_unat_eq_iff unat_take_bit_word word_less_nat_alt)
  moreover have "(0x7fffffff :: u32) = mask 31" by (simp add: mask_eq_exp_minus_1)
  ultimately show ?thesis by (simp add: take_bit_eq_mask)
qed

lemma recv_frame_any:
  fixes c :: "('e, 'd, 'i) h2_client"
  assumes "awaits sid a fd st c" and "full_reads n sys fd io" and "fid < 2 ^ 31" and "length p \<le> 1016"
    and "io (h2_env c) = (wire_header (length p) ty fl (unat fid) @ p @ rest, w)"
  shows "\<exists>g c1. h2_recv_frame n sys f c = Some (Inr (g, c1)) \<and> awaits sid a fd st c1 \<and> io (h2_env c1) = (rest, w) \<and>
    frame_bytes g c1 = p \<and> payload_length g = int (length p) \<and> payload g = Some ReadBuf \<and> frame_type g = ty \<and>
    frame_flags g = fl \<and> frame_stream g = get_stream c fid \<and> frame_stream_id g = fid"
proof -
  obtain s where s: "h2_sock c = Some s" "sock_fd s = fd" "length (buf_data (fst (get_read_buf s))) = 1025"
    and st: "get_stream c sid = At a" "a < length (store c)" "store c ! a = Some st" "stream_ok st"
    using assms(1) by (auto simp: awaits_def split: option.splits)
  let ?w = "wire_header (length p) ty fl (unat fid)"
  obtain e1 where e1: "co_recv n sys s (length ?w) (h2_env c) = Some (Inr ((int (length ?w), ?w), e1))" "io e1 = (p @ rest, w)"
    using full_readsD [OF assms(2) s(2) assms(5)] by auto
  obtain e2 where e2: "co_recv n sys s (length p) e1 = Some (Inr ((int (length p), p), e2))" "io e2 = (rest, w)"
    using full_readsD [OF assms(2) s(2) e1(2)] assms(4) by auto
  have "co_recv n sys s FSW_HTTP2_FRAME_HEADER_SIZE (h2_env c) = Some (Inr ((9, ?w), e1))"
    using e1(1) by (simp add: FSW_HTTP2_FRAME_HEADER_SIZE_def)
  moreover have "length p < 2 ^ 24" using assms(4) by simp
  ultimately obtain b m where r: "h2_recv_frame n sys f c = Some (Inr (received f (length p) ty fl fid c,
        c\<lparr>h2_env := e2, h2_sock := Some (s\<lparr>read_buf := Some (b\<lparr>buf_data := m\<rparr>)\<rparr>)\<rparr>))" "length m = 1025" "take (length p) (drop 9 m) = p"
    using recv_frame_cases [OF s(1,3) _ _ e2(1), of ty fl fid f] assms(4) sid_mask [OF assms(3)] by auto
  let ?c1 = "c\<lparr>h2_env := e2, h2_sock := Some (s\<lparr>read_buf := Some (b\<lparr>buf_data := m\<rparr>)\<rparr>)\<rparr>"
  have "awaits sid a fd st ?c1" using s(2) st r(2) by (simp add: awaits_def get_stream_def get_read_buf_def)
  with r st(1) e2(2) show ?thesis by (auto simp: received_def frame_bytes_def)
qed

lemma recv_frame_stream:
  fixes c :: "('e, 'd, 'i) h2_client"
  assumes "awaits sid a fd st c" and "full_reads n sys fd io" and "sid < 2 ^ 31" and "length p \<le> 1016"
    and "io (h2_env c) = (wire_header (length p) ty fl (unat sid) @ p @ rest, w)"
  shows "\<exists>g c1. h2_recv_frame n sys f c = Some (Inr (g, c1)) \<and> awaits sid a fd st c1 \<and> io (h2_env c1) = (rest, w) \<and>
    frame_bytes g c1 = p \<and> payload_length g = int (length p) \<and> payload g = Some ReadBuf \<and> frame_type g = ty \<and>
    frame_flags g = fl \<and> frame_stream g = At a"
proof -
  have "get_stream c sid = At a" using assms(1) by (simp add: awaits_def)
  then show ?thesis using recv_frame_any [OF assms, of f] by metis
qed

lemma awaits_same: "awaits sid a fd st c \<Longrightarrow> same_session c c' \<Longrightarrow> store c' = (store c)[a := Some st'] \<Longrightarrow> stream_ok st' \<Longrightarrow> awaits sid a fd st' c'"
  by (auto simp: awaits_def same_session_def get_stream_def)

text \<open>A turn of the loop of \<open>recv_reponse\<close> on a DATA frame.\<close>

lemma recv_data_turn:
  fixes c :: "('e, 'd, 'i) h2_client"
  assumes "awaits sid a fd st c" and "full_reads n sys fd io" and "sid < 2 ^ 31" and "length p \<le> 1016"
    and "length (collected st) + length p \<le> READ_BUF_MAX_SIZE" and "io (h2_env c) = (data_frame sid fin p @ rest, w)"
  shows "\<exists>g c' st'. recv_loop (Suc m) k n sys ng f c = (if fin then call_return g c' else recv_loop m k n sys ng g c') \<and>
    frame_stream g = At a \<and> awaits sid a fd st' c' \<and> io (h2_env c') = (rest, w) \<and>
    (if fin then resp_body (str_response st') = (if collected st @ p = [] then resp_body (str_response st) else collected st @ p)
     else collected st' = collected st @ p \<and> str_response st' = str_response st)"
proof -
  let ?fl = "if fin then 1 else 0 :: byte"
  obtain g c1 where g: "h2_recv_frame n sys f c = Some (Inr (g, c1))" "awaits sid a fd st c1" "io (h2_env c1) = (rest, w)"
    "frame_bytes g c1 = p" "payload_length g = int (length p)" "payload g = Some ReadBuf" "frame_type g = FSW_HTTP2_TYPE_DATA"
    "frame_flags g = ?fl" "frame_stream g = At a"
    using recv_frame_stream [OF assms(1-4), of FSW_HTTP2_TYPE_DATA ?fl rest w f] assms(6) by (auto simp: data_frame_def)
  have fin: "frame_flags g AND FSW_HTTP2_FLAG_END_STREAM = 0 \<longleftrightarrow> \<not> fin"
    using g(8) by (simp add: FSW_HTTP2_FLAG_END_STREAM_def)
  have "data_ready g a st c1"
    using g assms(4) by (simp add: data_ready_def awaits_def)
  then obtain c2 st' where c2: "parse_frame k n sys ng g c1 = Some (Inr (if \<not> fin then FSW_CONTINUE else FSW_READY, c2))"
    "store c2 = (store c1)[a := Some st']" "same_session c1 c2" "data_taken g p st st'"
    using data_frame_collected [of g a st c1 k n sys ng] assms(5) unfolding g(4) fin by auto
  have "awaits sid a fd st' c2" using awaits_same [OF g(2) c2(3,2)] c2(4) by (simp add: data_taken_def)
  moreover have "io (h2_env c2) = (rest, w)" using g(3) c2(3) by (simp add: same_session_def)
  moreover have "recv_loop (Suc m) k n sys ng f c = (if fin then call_return g c2 else recv_loop m k n sys ng g c2)"
    using g(1) c2(1) by (simp add: call_bind_def)
  ultimately show ?thesis
    using c2(4) g(9) fin by (intro exI [of _ g] exI [of _ c2] exI [of _ st']) (auto simp: data_taken_def)
qed

lemma recv_body:
  fixes c :: "('e, 'd, 'i) h2_client"
  assumes "awaits sid a fd st c" and "full_reads n sys fd io" and "sid < 2 ^ 31" and "ps \<noteq> []"
    and "list_all (\<lambda>p. length p \<le> 1016) ps" and "length (collected st) + length (concat ps) \<le> READ_BUF_MAX_SIZE"
    and "io (h2_env c) = (body_frames sid ps @ rest, w)"
  shows "\<exists>g c' st'. recv_loop (length ps) k n sys ng f c = Some (Inr (g, c')) \<and> frame_stream g = At a \<and>
    awaits sid a fd st' c' \<and> io (h2_env c') = (rest, w) \<and> resp_body (str_response st') =
      (if collected st @ concat ps = [] then resp_body (str_response st) else collected st @ concat ps)"
  using assms
proof (induction ps arbitrary: st f c)
  case (Cons p ps)
  have "length p \<le> 1016" "length (collected st) + length p \<le> READ_BUF_MAX_SIZE"
    "io (h2_env c) = (data_frame sid (ps = []) p @ body_frames sid ps @ rest, w)"
    using Cons.prems by simp_all
  from recv_data_turn [OF Cons.prems(1-3) this, of "length ps" k ng f] obtain g c' st' where
    t: "recv_loop (length (p # ps)) k n sys ng f c = (if ps = [] then call_return g c' else recv_loop (length ps) k n sys ng g c')"
    "frame_stream g = At a" "awaits sid a fd st' c'" "io (h2_env c') = (body_frames sid ps @ rest, w)"
    and r: "if ps = [] then resp_body (str_response st') = (if collected st @ p = [] then resp_body (str_response st) else collected st @ p)
     else collected st' = collected st @ p \<and> str_response st' = str_response st" by auto
  show ?case
  proof (cases "ps = []")
    case True
    with t r show ?thesis by (intro exI [of _ g] exI [of _ c'] exI [of _ st']) (simp add: call_return_def)
  next
    case False
    have "list_all (\<lambda>p. length p \<le> 1016) ps" "length (collected st') + length (concat ps) \<le> READ_BUF_MAX_SIZE"
      using Cons.prems r False by simp_all
    note IH = Cons.IH [OF t(3) Cons.prems(2,3) False this t(4), of g]
    have eq: "collected st' @ concat ps = collected st @ concat (p # ps)" "str_response st' = str_response st"
      using r False by simp_all
    have "recv_loop (length (p # ps)) k n sys ng f c = recv_loop (length ps) k n sys ng g c'"
      using t(1) False by (simp only: if_False)
    then show ?thesis using IH unfolding eq by (simp only:)
  qed
qed simp

lemma recv_headers_turn:
  fixes c :: "('e, 'd, 'i) h2_client"
  assumes "awaits sid a fd st c" and "full_reads n sys fd io" and "sid < 2 ^ 31" and "length hb \<le> 1016"
    and "\<And>r i. inflate_loop k ng 0 hb r i \<noteq> None" and "io (h2_env c) = (headers_reply sid hb @ rest, w)"
  shows "\<exists>g c'. recv_loop (Suc m) k n sys ng f c = recv_loop m k n sys ng g c' \<and> awaits sid a fd st c' \<and> io (h2_env c') = (rest, w)"
proof -
  obtain g c1 where g: "h2_recv_frame n sys f c = Some (Inr (g, c1))" "awaits sid a fd st c1" "io (h2_env c1) = (rest, w)"
    "frame_bytes g c1 = hb" "payload_length g = int (length hb)" "payload g = Some ReadBuf" "frame_type g = FSW_HTTP2_TYPE_HEADERS"
    "frame_flags g = FSW_HTTP2_FLAG_END_HEADERS" "frame_stream g = At a"
    using recv_frame_stream [OF assms(1-4), of FSW_HTTP2_TYPE_HEADERS FSW_HTTP2_FLAG_END_HEADERS rest w f] assms(6)
    by (auto simp: headers_reply_def)
  let ?c1 = "if last_stream_id c1 < next_stream_id c1 then c1\<lparr>last_stream_id := next_stream_id c1\<rparr> else c1"
  obtain so where so: "h2_sock ?c1 = Some so" "sock_fd so = fd" "length (buf_data (fst (get_read_buf so))) = 1025"
    using g(2) by (auto simp: awaits_def split: option.splits)
  obtain b where b: "get_read_buf so = (b, so\<lparr>read_buf := Some b\<rparr>)" using get_read_buf_sets by blast
  let ?c2 = "?c1\<lparr>h2_sock := Some (so\<lparr>read_buf := Some b\<rparr>)\<rparr>"
  have "frame_bytes g ?c1 = hb" using g(4) by (simp add: frame_bytes_def)
  then have "mem_read (buf_data b) FSW_HTTP2_FRAME_HEADER_SIZE (nat (payload_length g)) = Inr hb"
    using so b g(5) assms(4) by (auto simp: mem_read_def frame_bytes_def get_read_buf_def FSW_HTTP2_FRAME_HEADER_SIZE_def
        split: option.splits)
  moreover have "get_block ReadBuf ?c1 = Some (Inr (buf_data b, ?c2))" using so(1) b by (simp add: get_block_def)
  moreover have "deref (At a) ?c2 = Some (Inr (st, ?c2))" using g(2) by (simp add: deref_def awaits_def)
  moreover obtain ok r i where "inflate_loop k ng 0 hb (str_response st) (inflater ?c2) = Some ((ok, r), i)"
    using assms(5) [of "str_response st" "inflater ?c2"] by auto
  ultimately have "parse_frame_header k ng g ?c1 = Some (Inr (ok, ?c2\<lparr>inflater := i\<rparr>))"
    using g(6,9) by (simp add: parse_frame_header_def of_payload_def call_bind_def call_res_def call_get_def del: if_split)
  then have "parse_frame k n sys ng g c1 = Some (Inr (FSW_CONTINUE, ?c2\<lparr>inflater := i\<rparr>))"
    using g(7,8) by (simp add: parse_frame_def call_then_def call_bind_def call_modify_def call_return_def h2_types ignored_types_def
        FSW_HTTP2_FLAG_END_STREAM_def FSW_HTTP2_FLAG_END_HEADERS_def del: if_split)
  then have "recv_loop (Suc m) k n sys ng f c = recv_loop m k n sys ng g (?c2\<lparr>inflater := i\<rparr>)"
    using g(1) by (simp add: call_bind_def del: if_split)
  moreover have "awaits sid a fd st (?c2\<lparr>inflater := i\<rparr>)" using g(2) so b by (simp add: awaits_def get_stream_def get_read_buf_def)
  ultimately show ?thesis using g(3) by (intro exI [of _ g] exI [of _ "?c2\<lparr>inflater := i\<rparr>"]) simp
qed

lemma recv_answer:
  fixes c :: "('e, 'd, 'i) h2_client"
  assumes "awaits sid a fd st c" and "full_reads n sys fd io" and "sid < 2 ^ 31" and "ps \<noteq> []"
    and "list_all (\<lambda>p. length p \<le> 1016) (hb # ps)" and "length (collected st) + length (concat ps) \<le> READ_BUF_MAX_SIZE"
    and "\<And>r i. inflate_loop k ng 0 hb r i \<noteq> None"
    and "io (h2_env c) = (headers_reply sid hb @ body_frames sid ps @ rest, w)"
  shows "\<exists>g c' st'. recv_loop (Suc (length ps)) k n sys ng f c = Some (Inr (g, c')) \<and> deref (frame_stream g) c' = Some (Inr (st', c')) \<and>
    awaits sid a fd st' c' \<and> io (h2_env c') = (rest, w) \<and> resp_body (str_response st') =
      (if collected st @ concat ps = [] then resp_body (str_response st) else collected st @ concat ps)"
proof -
  have l: "length hb \<le> 1016" "list_all (\<lambda>p. length p \<le> 1016) ps" using assms(5) by simp_all
  obtain g c1 where 1: "recv_loop (Suc (length ps)) k n sys ng f c = recv_loop (length ps) k n sys ng g c1"
    "awaits sid a fd st c1" "io (h2_env c1) = (body_frames sid ps @ rest, w)"
    using recv_headers_turn [OF assms(1-3) l(1) assms(7,8)] by blast
  obtain h c2 st' where 2: "recv_loop (length ps) k n sys ng g c1 = Some (Inr (h, c2))" "frame_stream h = At a"
    "awaits sid a fd st' c2" "io (h2_env c2) = (rest, w)" "resp_body (str_response st') =
      (if collected st @ concat ps = [] then resp_body (str_response st) else collected st @ concat ps)"
    using recv_body [OF 1(2) assms(2-4) l(2) assms(6) 1(3)] by blast
  have "deref (At a) c2 = Some (Inr (st', c2))" using 2(3) by (simp add: awaits_def deref_def)
  with 1(1) 2 show ?thesis by metis
qed

text \<open>
  The response to a request is received. When the server answers with a HEADERS frame and DATA frames on
  an open stream, each of at most 1016 bytes and the body of at most 1024, and the reads bring what they ask for,
  \<open>recv_reponse\<close> returns after reading exactly these frames, and the body of the response is what the DATA
  frames carried together with what the stream had collected before.
\<close>

theorem response_body:
  fixes c :: "('e, 'd, 'i) h2_client"
  assumes "awaits sid a fd st c" and "full_reads n sys fd io" and "sid < 2 ^ 31" and "ps \<noteq> []"
    and "list_all (\<lambda>p. length p \<le> 1016) (hb # ps)" and "length (collected st) + length (concat ps) \<le> READ_BUF_MAX_SIZE"
    and "\<And>r i. inflate_loop k ng 0 hb r i \<noteq> None"
    and "io (h2_env c) = (headers_reply sid hb @ body_frames sid ps @ rest, w)"
  shows "\<exists>r c' st'. recv_reponse (Suc (length ps)) k n sys ng c = Some (Inr (r, c')) \<and>
    resp_body r = (if collected st @ concat ps = [] then resp_body (str_response st) else collected st @ concat ps) \<and>
    io (h2_env c') = (rest, w) \<and> awaits sid a fd st' c'"
proof -
  obtain g c' st' where 1: "recv_loop (Suc (length ps)) k n sys ng Frame_new c = Some (Inr (g, c'))"
    "deref (frame_stream g) c' = Some (Inr (st', c'))" "awaits sid a fd st' c'" "io (h2_env c') = (rest, w)"
    "resp_body (str_response st') = (if collected st @ concat ps = [] then resp_body (str_response st) else collected st @ concat ps)"
    using recv_answer [OF assms] by blast
  then have "recv_reponse (Suc (length ps)) k n sys ng c = Some (Inr (str_response st', c'))"
    by (simp add: recv_reponse_def call_bind_def call_return_def del: recv_loop.simps)
  with 1 show ?thesis by blast
qed

text \<open>An answer of two DATA frames.\<close>

definition demo_answer :: "(demo, unit, unit) h2_client" where
  "demo_answer = (demo_client (headers_reply 1 [9] @ body_frames 1 [str ''he'', str ''llo'']))\<lparr>streams := [(1, 0)],
     store := [Some (Stream_new 1 False)]\<rparr>"

lemma quick_full_reads: "full_reads 1 quick_sys fd (\<lambda>e. (to_read e, written e))"
proof -
  have "to_int (int len) = int len" if "len < 2 ^ 24" for len :: nat using that by (intro to_int_small) simp_all
  then show ?thesis
    by (auto simp: full_reads_def co_recv_def Socket_recv_def quick_sys_def call_return_def)
qed

theorem response_body_witness:
  "\<exists>r c'. recv_reponse 3 5 1 quick_sys demo_ng demo_answer = Some (Inr (r, c')) \<and> resp_body r = str ''hello''"
proof -
  have aw: "awaits 1 0 4 (Stream_new 1 False) demo_answer"
    by (simp add: awaits_def demo_answer_def demo_client_def demo_socket_def get_read_buf_def get_stream_def Buffer_new_def
        READ_BUF_MAX_SIZE_def Let_def Stream_new_def stream_ok_def)
  have inp: "(to_read (h2_env demo_answer), written (h2_env demo_answer)) =
      (headers_reply 1 [9] @ body_frames 1 [str ''he'', str ''llo''] @ [], [])"
    by (simp add: demo_answer_def demo_client_def del: body_frames.simps)
  have loop: "inflate_loop 5 demo_ng 0 [9] r i \<noteq> None" for r i
    by (simp add: numeral_eq_Suc parse_header_stop_def demo_ng_def NGHTTP2_HD_INFLATE_FINAL_def Let_def)
  have c: "collected (Stream_new 1 False) = []" by (simp add: collected_def Stream_new_def)
  have sid: "(1 :: u32) < 2 ^ 31" by simp
  from response_body [OF aw quick_full_reads sid _ _ _ loop inp] show ?thesis
    by (auto simp: c READ_BUF_MAX_SIZE_def str_def eval_nat_numeral)
qed

end
