(* ===== verification/Http2_Exchange.thy ===== *)
theory Http2_Exchange
  imports Http2_Response
begin

text \<open>
  A client from \<open>connect\<close> to the response of its first request: what it sends, how it deals with the frames
  of the connection that come before the response, and what it returns.
\<close>

section \<open>Connecting\<close>

text \<open>A connection that takes all the bytes it is given and goes on to bring the same bytes.\<close>

definition full_sends :: "nat \<Rightarrow> 'e sys \<Rightarrow> int \<Rightarrow> ('e \<Rightarrow> bytes \<times> bytes) \<Rightarrow> bool" where
  "full_sends n sys fd io \<longleftrightarrow> (\<forall>s e bs x w. sock_fd s = fd \<longrightarrow> bs \<noteq> [] \<longrightarrow> io e = (x, w) \<longrightarrow>
     (\<exists>e'. co_send_all (Suc (length bs)) n sys s bs e = Some (Inr (int (length bs), e')) \<and> io e' = (x, w @ bs)))"

lemma full_sendsD:
  "full_sends n sys fd io \<Longrightarrow> sock_fd s = fd \<Longrightarrow> io e = (x, w) \<Longrightarrow> bs \<noteq> [] \<Longrightarrow>
   \<exists>e'. co_send_all (Suc (length bs)) n sys s bs e = Some (Inr (int (length bs), e')) \<and> io e' = (x, w @ bs)"
  unfolding full_sends_def by blast

lemma h2_send_full:
  assumes "full_sends n sys fd io" and "h2_sock c = Some s" and "sock_fd s = fd" and "io (h2_env c) = (x, w)" and "bs \<noteq> []"
  shows "\<exists>e. h2_send n sys bs c = Some (Inr (True, c\<lparr>h2_env := e\<rparr>)) \<and> io e = (x, w @ bs)"
  using full_sendsD [OF assms(1,3,4,5)] h2_send_eq [OF assms(2)] by fastforce

definition settings_frame :: "h2_settings \<Rightarrow> bytes" where
  "settings_frame ls = wire_header 18 FSW_HTTP2_TYPE_SETTINGS 0 0 @ entry_bytes (own_settings ls)"

lemma settings_frame_sent:
  fixes c :: "('e, 'd, 'i) h2_client"
  assumes "full_sends n sys fd io" and "h2_sock c = Some s" and "sock_fd s = fd" and "io (h2_env c) = (x, w)"
    and "27 \<le> length (buf_data (fst (get_write_buf s)))"
  shows "\<exists>e b. call_bind (build_setting_frame Frame_new) (h2_send_frame n sys) c =
      Some (Inr (True, c\<lparr>h2_env := e, h2_sock := Some (s\<lparr>write_buf := Some b\<rparr>)\<rparr>)) \<and> io e = (x, w @ settings_frame (local_settings c))"
proof -
  obtain b s' where b: "get_write_buf s = (b, s')" by force
  moreover have "27 \<le> length (buf_data b)" using b assms(5) by simp
  ultimately obtain f c1 b' rest where f: "build_setting_frame Frame_new c = Some (Inr (f, c1))"
    "get_block WriteBuf c1 = Some (Inr (settings_frame (local_settings c) @ rest, c1))"
    "c1 = c\<lparr>h2_sock := Some (s\<lparr>write_buf := Some b'\<rparr>)\<rparr>" "payload f = Some WriteBuf" "payload_length f = 18"
    using build_setting_frame_bytes [OF assms(2)] unfolding settings_frame_def append_assoc by blast
  have l: "length (settings_frame (local_settings c)) = 27"
    by (simp add: settings_frame_def entry_bytes_def own_settings_def setting_bytes_def)
  then have m: "mem_read (settings_frame (local_settings c) @ rest) 0 (FSW_HTTP2_FRAME_HEADER_SIZE + nat (payload_length f)) =
      Inr (settings_frame (local_settings c))"
    by (simp add: mem_read_def f(5) FSW_HTTP2_FRAME_HEADER_SIZE_def)
  obtain e where "h2_send n sys (settings_frame (local_settings c)) c1 = Some (Inr (True, c1\<lparr>h2_env := e\<rparr>))"
    "io e = (x, w @ settings_frame (local_settings c))"
    using h2_send_full [OF assms(1), of c1 "s\<lparr>write_buf := Some b'\<rparr>" x w "settings_frame (local_settings c)"] assms(3,4) f(3) l
    by force
  then show ?thesis
    using f(1-4) m by (intro exI [of _ e] exI [of _ b']) (simp add: call_bind_def h2_send_frame_def of_payload_def call_res_def)
qed

lemma connect_sends:
  fixes c :: "('e, 'd, 'i) h2_client"
  assumes "h2_sock c = None" and "co_socket_new sys AF_INET SOCK_STREAM 0 (h2_env c) = (s0, e0)"
    and "co_connect_host n sys s0 host port e0 = Some (Inr ((True, s), e1))"
    and "full_sends n sys (sock_fd s) io" and "io e1 = (x, w)" and "27 \<le> length (buf_data (fst (get_write_buf s)))"
  shows "\<exists>e b. h2_connect n sys host port c = Some (Inr (True, c\<lparr>h2_env := e, h2_sock := Some (s\<lparr>write_buf := Some b\<rparr>)\<rparr>)) \<and>
    io e = (x, w @ FSW_HTTP2_PRI_STRING @ settings_frame (local_settings c))"
proof -
  let ?c1 = "c\<lparr>h2_env := e1, h2_sock := Some s\<rparr>"
  obtain e2 where e2: "h2_send n sys FSW_HTTP2_PRI_STRING ?c1 = Some (Inr (True, ?c1\<lparr>h2_env := e2\<rparr>))"
    "io e2 = (x, w @ FSW_HTTP2_PRI_STRING)"
    using h2_send_full [OF assms(4), of ?c1 s x w FSW_HTTP2_PRI_STRING] assms(5) by (auto simp: FSW_HTTP2_PRI_STRING_def)
  obtain e b where "call_bind (build_setting_frame Frame_new) (h2_send_frame n sys) (?c1\<lparr>h2_env := e2\<rparr>) =
      Some (Inr (True, ?c1\<lparr>h2_env := e, h2_sock := Some (s\<lparr>write_buf := Some b\<rparr>)\<rparr>))"
    "io e = (x, (w @ FSW_HTTP2_PRI_STRING) @ settings_frame (local_settings c))"
    using settings_frame_sent [OF assms(4), of "?c1\<lparr>h2_env := e2\<rparr>" s x] e2(2) assms(6) by auto
  then show ?thesis
    using assms(1-3) e2(1) by (auto simp: h2_connect_def call_bind_def call_then_def call_get_def call_modify_def h2_on_env_def call_on_def)
qed

section \<open>Frames of the connection\<close>

text \<open>Frames that may come before a response: settings, and those that \<open>parse_frame\<close> passes over.\<close>

datatype control = Settings byte "(u16 \<times> u32) list" | Passed byte byte u32 bytes

fun control_frame :: "control \<Rightarrow> bytes" where
  "control_frame (Settings fl es) = wire_header (6 * length es) FSW_HTTP2_TYPE_SETTINGS fl 0 @ entry_bytes es"
| "control_frame (Passed ty fl fid p) = wire_header (length p) ty fl (unat fid) @ p"

fun control_ok :: "control \<Rightarrow> bool" where
  "control_ok (Settings fl es) \<longleftrightarrow> 6 * length es \<le> 1016"
| "control_ok (Passed ty fl fid p) \<longleftrightarrow> ty \<in> set ignored_types \<and> fid < 2 ^ 31 \<and> length p \<le> 1016"

text \<open>Each SETTINGS frame is answered.\<close>

fun acknowledgement :: "control \<Rightarrow> bytes" where
  "acknowledgement (Settings fl es) = wire_header 0 FSW_HTTP2_TYPE_SETTINGS FSW_HTTP2_FLAG_ACK 0"
| "acknowledgement (Passed ty fl fid p) = []"

lemma parse_setting_ok:
  assumes "fst (hd_deflate_change_table_size ng (deflater c) v) = 0" and "parse_setting ng sid v c = (ok, c')"
  shows "ok \<and> same_session c c' \<and> store c' = store c"
  using assms by (cases "hd_deflate_change_table_size ng (deflater c) v")
    (auto simp: parse_setting_def Let_def same_session_def split: if_splits)

lemma apply_settings_ok:
  assumes "\<And>d v. fst (hd_deflate_change_table_size ng d v) = 0"
  shows "\<exists>v c'. apply_settings ng es prev c = (Some v, c') \<and> same_session c c' \<and> store c' = store c"
proof (induction es arbitrary: prev c)
  case Nil
  then show ?case by (simp add: same_session_def)
next
  case (Cons x es)
  obtain sid v where x: "x = (sid, v)" by force
  obtain ok c1 where c1: "parse_setting ng sid v c = (ok, c1)" by force
  note ok = parse_setting_ok [OF assms c1]
  then show ?case using Cons.IH [of v c1] x c1 by (auto simp: same_session_def)
qed

lemma entry_bytes_length [simp]: "length (entry_bytes es) = 6 * length es"
  by (induction es) (auto simp: entry_bytes_def setting_bytes_def)

lemma setting_frame_acked:
  fixes c :: "('e, 'd, 'i) h2_client"
  assumes "awaits sid a fd st c" and "full_sends n sys fd io" and "\<And>d v. fst (hd_deflate_change_table_size ng d v) = 0"
    and "payload g = Some ReadBuf" and "frame_bytes g c = entry_bytes es" and "payload_length g = int (6 * length es)"
    and "frame_stream_id g = 0" and "6 * length es \<le> 1016" and "io (h2_env c) = (x, w)"
  shows "\<exists>r c'. parse_setting_frame n sys ng g c = Some (Inr (r, c')) \<and> awaits sid a fd st c' \<and>
    io (h2_env c') = (x, w @ wire_header 0 FSW_HTTP2_TYPE_SETTINGS FSW_HTTP2_FLAG_ACK 0)"
proof -
  let ?ack = "wire_header 0 FSW_HTTP2_TYPE_SETTINGS FSW_HTTP2_FLAG_ACK 0"
  obtain s where s: "h2_sock c = Some s" "sock_fd s = fd" "length (buf_data (fst (get_read_buf s))) = 1025"
    using assms(1) by (auto simp: awaits_def split: option.splits)
  obtain b where b: "get_read_buf s = (b, s\<lparr>read_buf := Some b\<rparr>)" using get_read_buf_sets by blast
  let ?c1 = "c\<lparr>h2_sock := Some (s\<lparr>read_buf := Some b\<rparr>)\<rparr>"
  have "take (6 * length es) (drop 9 (buf_data b)) = entry_bytes es"
    using assms(5,6) s(1) b entry_bytes_length [of es]
    by (cases "read_buf s") (auto simp: frame_bytes_def get_read_buf_def nat_mult_distrib simp del: entry_bytes_length)
  then have m: "buf_data b = take 9 (buf_data b) @ entry_bytes es @ drop (6 * length es) (drop 9 (buf_data b))"
    by (metis append_take_drop_id)
  obtain v c2 where ap: "apply_settings ng es 0 ?c1 = (Some v, c2)" and c2: "same_session ?c1 c2" "store c2 = store ?c1"
    using apply_settings_ok [OF assms(3)] by blast
  have "parse_settings_loop ng (buf_data b) FSW_HTTP2_FRAME_HEADER_SIZE (6 * length es) 0 ?c1 = Some (Inr (Some v, c2))"
    using settings_loop_entries [of ng "take 9 (buf_data b)" es _ 0 ?c1] s(3) b ap
    by (subst m) (simp add: FSW_HTTP2_FRAME_HEADER_SIZE_def)
  moreover obtain e where "h2_send n sys ?ack c2 = Some (Inr (True, c2\<lparr>h2_env := e\<rparr>))" and e: "io e = (x, w @ ?ack)"
    using h2_send_full [OF assms(2), of c2 "s\<lparr>read_buf := Some b\<rparr>" x w ?ack] s(2) assms(9) c2(1)
    by (auto simp: wire_header_def same_session_def)
  ultimately have "parse_setting_frame n sys ng g c = Some (Inr (Some v, c2\<lparr>h2_env := e\<rparr>))"
    using assms(4,6,7) s(1) b by (simp add: parse_setting_frame_def of_payload_def call_bind_def get_block_def call_res_def
        set_frame_header_wire call_return_def nat_mult_distrib FSW_HTTP2_FRAME_HEADER_SIZE_def FSW_HTTP2_FRAME_PING_PAYLOAD_SIZE_def)
  moreover have "awaits sid a fd st (c2\<lparr>h2_env := e\<rparr>)"
    using assms(1) s b c2 by (simp add: awaits_def get_stream_def get_read_buf_def same_session_def)
  ultimately show ?thesis using e by (intro exI [of _ "Some v"] exI [of _ "c2\<lparr>h2_env := e\<rparr>"]) simp
qed

lemma recv_control_turn:
  fixes c :: "('e, 'd, 'i) h2_client"
  assumes "awaits sid a fd st c" and "full_reads n sys fd io" and "full_sends n sys fd io"
    and "\<And>d v. fst (hd_deflate_change_table_size ng d v) = 0"
    and "control_ok x" and "io (h2_env c) = (control_frame x @ rest, w)"
  shows "\<exists>g c'. recv_loop (Suc m) k n sys ng f c = recv_loop m k n sys ng g c' \<and> awaits sid a fd st c' \<and>
    io (h2_env c') = (rest, w @ acknowledgement x)"
proof (cases x)
  case (Settings fl es)
  obtain g c1 where g: "h2_recv_frame n sys f c = Some (Inr (g, c1))" "awaits sid a fd st c1" "io (h2_env c1) = (rest, w)"
    "frame_bytes g c1 = entry_bytes es" "payload_length g = int (6 * length es)" "payload g = Some ReadBuf"
    "frame_type g = FSW_HTTP2_TYPE_SETTINGS" "frame_stream_id g = 0"
    using recv_frame_any [OF assms(1,2), of 0 "entry_bytes es" FSW_HTTP2_TYPE_SETTINGS fl rest w f] assms(5,6) Settings by auto
  let ?c1 = "if last_stream_id c1 < next_stream_id c1 then c1\<lparr>last_stream_id := next_stream_id c1\<rparr> else c1"
  have 1: "awaits sid a fd st ?c1" "frame_bytes g ?c1 = entry_bytes es" "io (h2_env ?c1) = (rest, w)"
    using g(2-4) by (simp_all add: awaits_def get_stream_def frame_bytes_def)
  from setting_frame_acked [OF this(1) assms(3,4) g(6) this(2) g(5,8) _ this(3)] obtain r c' where
    "parse_setting_frame n sys ng g ?c1 = Some (Inr (r, c'))" "awaits sid a fd st c'" "io (h2_env c') = (rest, w @ acknowledgement x)"
    using assms(5) Settings by auto
  moreover from this(1) have "parse_frame k n sys ng g c1 = Some (Inr (FSW_CONTINUE, c'))"
    using g(7) by (simp add: parse_frame_def call_then_def call_bind_def call_modify_def call_return_def del: if_split)
  ultimately show ?thesis using g(1) by (intro exI [of _ g] exI [of _ c']) (simp add: call_bind_def)
next
  case (Passed ty fl fid p)
  obtain g c1 where g: "h2_recv_frame n sys f c = Some (Inr (g, c1))" "awaits sid a fd st c1" "io (h2_env c1) = (rest, w)"
    "frame_type g = ty"
    using recv_frame_any [OF assms(1,2), of fid p ty fl rest w f] assms(5,6) Passed by auto
  let ?c1 = "if last_stream_id c1 < next_stream_id c1 then c1\<lparr>last_stream_id := next_stream_id c1\<rparr> else c1"
  have "ty \<noteq> FSW_HTTP2_TYPE_SETTINGS" using assms(5) Passed by (auto simp: ignored_types_def h2_types)
  then have "parse_frame k n sys ng g c1 = Some (Inr (FSW_CONTINUE, ?c1))"
    using g(4) assms(5) Passed by (simp add: parse_frame_def call_then_def call_bind_def call_modify_def call_return_def del: if_split)
  moreover have "awaits sid a fd st ?c1" "io (h2_env ?c1) = (rest, w)" using g(2,3) by (simp_all add: awaits_def get_stream_def)
  ultimately show ?thesis using g(1) Passed by (intro exI [of _ g] exI [of _ ?c1]) (simp add: call_bind_def del: if_split)
qed

lemma recv_controls:
  fixes c :: "('e, 'd, 'i) h2_client"
  assumes "full_reads n sys fd io" and "full_sends n sys fd io" and "\<And>d v. fst (hd_deflate_change_table_size ng d v) = 0"
  shows "awaits sid a fd st c \<Longrightarrow> list_all control_ok xs \<Longrightarrow> io (h2_env c) = (concat (map control_frame xs) @ rest, w) \<Longrightarrow>
    \<exists>g c'. recv_loop (length xs + m) k n sys ng f c = recv_loop m k n sys ng g c' \<and> awaits sid a fd st c' \<and>
      io (h2_env c') = (rest, w @ concat (map acknowledgement xs))"
proof (induction xs arbitrary: f c w)
  case Nil
  then show ?case by auto
next
  case (Cons x xs)
  have "control_ok x" "io (h2_env c) = (control_frame x @ concat (map control_frame xs) @ rest, w)" using Cons.prems by simp_all
  from recv_control_turn [OF Cons.prems(1) assms this, of "length xs + m" k f] obtain g c' where
    1: "recv_loop (Suc (length xs + m)) k n sys ng f c = recv_loop (length xs + m) k n sys ng g c'" "awaits sid a fd st c'"
    "io (h2_env c') = (concat (map control_frame xs) @ rest, w @ acknowledgement x)" by blast
  moreover have "list_all control_ok xs" using Cons.prems(2) by simp
  ultimately show ?case using Cons.IH [OF 1(2) _ 1(3), of g] by (simp del: recv_loop.simps)
qed

section \<open>The whole exchange\<close>

lemma connected_socket:
  assumes "co_socket_new sys domain ty protocol e = (s0, e0)" and "co_connect_host n sys s0 host port e0 = Some (Inr ((ok, s), e1))"
  shows "read_buf s = None \<and> write_buf s = None"
proof -
  have "read_buf s0 = None \<and> write_buf s0 = None"
    using assms(1) by (auto simp: co_socket_new_def co_socket_of_fd_def Let_def set_err_def split: prod.splits if_splits)
  then show ?thesis
    using assms(2) by (auto simp: co_connect_host_def co_connect_def call_bind_returns call_return_def call_fault_def set_err_def Let_def
        split: prod.splits if_splits)
qed

lemma request_sent:
  fixes c :: "('e, 'd, 'i) h2_client"
  assumes "h2_sock c = Some s" and "h2_header_list req = Inr h"
    and "hd_deflate_hd ng (deflater c) (hd_deflate_bound ng (deflater c) (nvs h)) (nvs h) = ((int (length hb), hb), d)"
    and "hb \<noteq> []" and "copy_body req = Inr (bd, length bd)"
    and "9 + length hb \<le> length (stack_buf c)" and "9 + length bd \<le> length (stack_buf c)"
    and "get_stream c (next_stream_id c) = Null" and "full_sends n sys (sock_fd s) io" and "io (h2_env c) = (x, w)"
  shows "\<exists>c'. send_request n sys ng req c = Some (Inr (next_stream_id c, c')) \<and> h2_sock c' = Some s \<and>
    streams c' = (next_stream_id c, length (store c)) # streams c \<and>
    store c' = store c @ [Some (Stream_new (next_stream_id c) (pipeline req))] \<and>
    io (h2_env c') = (x, w @ headers_frame (next_stream_id c) req hb @ data_frame (next_stream_id c) (\<not> pipeline req) bd)"
proof -
  let ?h = "headers_frame (next_stream_id c) req hb" and ?d = "data_frame (next_stream_id c) (\<not> pipeline req) bd"
  obtain e1 where e1: "co_send_all (10 + length hb) n sys s ?h (h2_env c) = Some (Inr (int (length ?h), e1))" "io e1 = (x, w @ ?h)"
    using full_sendsD [OF assms(9) refl assms(10), of ?h] by (auto simp: headers_frame_def wire_header_def)
  obtain e2 where e2: "co_send_all (10 + length bd) n sys s ?d e1 = Some (Inr (int (length ?d), e2))" "io e2 = (x, (w @ ?h) @ ?d)"
    using full_sendsD [OF assms(9) refl e1(2), of ?d] by (auto simp: data_frame_def wire_header_def)
  from send_request_sends [OF assms(1-8) e1(1) e2(1)] e2(2) show ?thesis by auto
qed

text \<open>
  C11: a client and a server, from \<open>connect\<close> to the first response. On a connection that moves what it is
  given, \<open>connect\<close> succeeds and sends the preface and the client's settings; \<open>send_request\<close> uses stream 1 and
  sends the HEADERS and the DATA frame of the request; \<open>recv_reponse\<close> acknowledges each SETTINGS frame of the server,
  passes over the other frames of the connection and returns the body of the DATA frames that answer. The frames of the
  server are of at most 1016 bytes and its body of at most 1024.
\<close>

theorem h2_exchange:
  fixes c :: "('e, 'd, 'i) h2_client"
  assumes "Client_new ng e blk = Inr c" and "co_socket_new sys AF_INET SOCK_STREAM 0 e = (s0, e0)"
    and "co_connect_host n sys s0 host port e0 = Some (Inr ((True, s), e1))"
    and "full_reads n sys (sock_fd s) io" and "full_sends n sys (sock_fd s) io"
    and "h2_header_list req = Inr h"
    and "hd_deflate_hd ng (deflater c) (hd_deflate_bound ng (deflater c) (nvs h)) (nvs h) = ((int (length hb), hb), d)"
    and "hb \<noteq> []" and "copy_body req = Inr (bd, length bd)" and "9 + length hb \<le> length blk" and "9 + length bd \<le> length blk"
    and "\<And>d v. fst (hd_deflate_change_table_size ng d v) = 0" and "\<And>r i. inflate_loop k ng 0 rb r i \<noteq> None"
    and "list_all control_ok xs" and "ps \<noteq> []" and "list_all (\<lambda>p. length p \<le> 1016) (rb # ps)"
    and "length (concat ps) \<le> READ_BUF_MAX_SIZE"
    and "io e1 = (concat (map control_frame xs) @ headers_reply 1 rb @ body_frames 1 ps @ rest, w)"
  shows "\<exists>c1 c2 c3 r. h2_connect n sys host port c = Some (Inr (True, c1)) \<and> send_request n sys ng req c1 = Some (Inr (1, c2)) \<and>
    recv_reponse (length xs + Suc (length ps)) k n sys ng c2 = Some (Inr (r, c3)) \<and> resp_body r = concat ps \<and>
    io (h2_env c3) = (rest, w @ FSW_HTTP2_PRI_STRING @ settings_frame init_settings @ headers_frame 1 req hb @
      data_frame 1 (\<not> pipeline req) bd @ concat (map acknowledgement xs))"
proof -
  let ?fd = "sock_fd s" and ?in = "concat (map control_frame xs) @ headers_reply 1 rb @ body_frames 1 ps @ rest"
  have c: "h2_env c = e" "h2_sock c = None" "local_settings c = init_settings" "next_stream_id c = 1" "streams c = []" "store c = []"
    "stack_buf c = blk"
    using assms(1) by (auto simp: Client_new_def init_settings_remote_settings_def init_settings_local_settings_def
        split: prod.splits if_splits)
  have s: "read_buf s = None" "write_buf s = None" using connected_socket [OF assms(2,3)] by auto
  obtain e2 b where 1: "h2_connect n sys host port c = Some (Inr (True, c\<lparr>h2_env := e2, h2_sock := Some (s\<lparr>write_buf := Some b\<rparr>)\<rparr>))"
    and e2: "io e2 = (?in, w @ FSW_HTTP2_PRI_STRING @ settings_frame init_settings)"
    using connect_sends [OF c(2), of sys s0 e0 n host port s e1 io, unfolded c, OF assms(2,3,5,18)] s(2)
    by (auto simp: get_write_buf_def Buffer_new_def WRITE_BUF_MAX_SIZE_def Let_def)
  let ?s = "s\<lparr>write_buf := Some b\<rparr>" and ?w = "w @ FSW_HTTP2_PRI_STRING @ settings_frame init_settings"
  let ?c1 = "c\<lparr>h2_env := e2, h2_sock := Some ?s\<rparr>" and ?sent = "headers_frame 1 req hb @ data_frame 1 (\<not> pipeline req) bd"
  obtain c2 where 2: "send_request n sys ng req ?c1 = Some (Inr (1, c2))" "h2_sock c2 = Some ?s" "streams c2 = [(1, 0)]"
    "store c2 = [Some (Stream_new 1 (pipeline req))]" "io (h2_env c2) = (?in, ?w @ ?sent)"
    using request_sent [of ?c1 ?s req h ng hb d bd n sys io ?in ?w] assms(5-11) c e2 by (auto simp: get_stream_def)
  have "awaits 1 0 ?fd (Stream_new 1 (pipeline req)) c2"
    using 2 s(1) by (simp add: awaits_def get_stream_def get_read_buf_def Buffer_new_def READ_BUF_MAX_SIZE_def Let_def Stream_new_def
        stream_ok_def)
  from recv_controls [OF assms(4,5,12) this assms(14) 2(5)] obtain g c' where
    3: "recv_loop (length xs + Suc (length ps)) k n sys ng Frame_new c2 = recv_loop (Suc (length ps)) k n sys ng g c'"
    "awaits 1 0 ?fd (Stream_new 1 (pipeline req)) c'"
    "io (h2_env c') = (headers_reply 1 rb @ body_frames 1 ps @ rest, (?w @ ?sent) @ concat (map acknowledgement xs))" by blast
  have n: "collected (Stream_new 1 (pipeline req)) = []" "resp_body (str_response (Stream_new 1 (pipeline req))) = []"
    by (simp_all add: collected_def Stream_new_def h2_response_new_def)
  obtain q c3 st where 4: "recv_loop (Suc (length ps)) k n sys ng g c' = Some (Inr (q, c3))"
    "deref (frame_stream q) c3 = Some (Inr (st, c3))" "io (h2_env c3) = (rest, (?w @ ?sent) @ concat (map acknowledgement xs))"
    "resp_body (str_response st) = concat ps"
    using recv_answer [OF 3(2) assms(4) _ assms(15,16) _ assms(13) 3(3), of g] assms(17) unfolding n by auto
  then have "recv_reponse (length xs + Suc (length ps)) k n sys ng c2 = Some (Inr (str_response st, c3))"
    using 3(1) by (simp add: recv_reponse_def call_bind_def call_return_def del: recv_loop.simps)
  with 1 2(1) 4(3,4) show ?thesis by (intro exI [of _ ?c1] exI [of _ c2] exI [of _ c3] exI [of _ "str_response st"]) simp
qed

text \<open>A server that sends its settings, a WINDOW_UPDATE frame and an answer of two DATA frames.\<close>

definition server_controls :: "control list" where
  "server_controls = [Settings 0 [(FSW_HTTP2_SETTINGS_MAX_CONCURRENT_STREAMS, 100)], Passed FSW_HTTP2_TYPE_WINDOW_UPDATE 0 0 [0, 0, 255, 0]]"

definition server_says :: demo where
  "server_says = \<lparr>blocked = 0, to_read = concat (map control_frame server_controls) @ headers_reply 1 [9] @ body_frames 1 [str ''he'', str ''llo''],
     written = []\<rparr>"

lemma quick_full_sends: "full_sends 1 quick_sys fd (\<lambda>e. (to_read e, written e))"
  using demo_send [of "Suc _"] by (simp add: full_sends_def)

theorem h2_exchange_witness:
  "\<exists>c c1 c2 c3 r. Client_new demo_ng server_says (replicate 64 0) = Inr c \<and> h2_connect 1 quick_sys (str ''127.0.0.1'') 80 c = Some (Inr (True, c1)) \<and>
     send_request 1 quick_sys demo_ng demo_request c1 = Some (Inr (1, c2)) \<and>
     recv_reponse 5 5 1 quick_sys demo_ng c2 = Some (Inr (r, c3)) \<and> resp_body r = str ''hello'' \<and>
     written (h2_env c3) = FSW_HTTP2_PRI_STRING @ settings_frame init_settings @ headers_frame 1 demo_request [9, 9] @ data_frame 1 True [] @
       wire_header 0 FSW_HTTP2_TYPE_SETTINGS FSW_HTTP2_FLAG_ACK 0"
proof -
  obtain c where c: "Client_new demo_ng server_says (replicate 64 0) = Inr c" by (simp add: Client_new_def demo_ng_def)
  let ?s = "\<lparr>sock_fd = 3, err_code = 0, err_msg = [], read_buf = None, write_buf = None\<rparr>"
  have s: "co_socket_new quick_sys AF_INET SOCK_STREAM 0 server_says = (?s, server_says)"
    by (simp add: co_socket_new_def Socket_new_def co_socket_of_fd_def Socket_set_nonblock_def quick_sys_def demo_sys_def Let_def)
  have k: "co_connect_host 1 quick_sys ?s (str ''127.0.0.1'') 80 server_says = Some (Inr ((True, ?s), server_says))"
    by (simp add: co_connect_host_def co_connect_def quick_sys_def demo_sys_def call_bind_def call_return_def)
  have d: "hd_deflate_hd demo_ng d x y = ((int (length [9 :: byte, 9]), [9, 9]), ())" for d x y by (simp add: demo_ng_def)
  have b: "copy_body demo_request = Inr ([], length ([] :: bytes))" by (simp add: copy_body_def demo_request_def)
  have t: "fst (hd_deflate_change_table_size demo_ng d v) = 0" for d v by (simp add: demo_ng_def)
  have loop: "inflate_loop 5 demo_ng 0 [9] r i \<noteq> None" for r i
    by (simp add: numeral_eq_Suc parse_header_stop_def demo_ng_def NGHTTP2_HD_INFLATE_FINAL_def Let_def)
  have x: "list_all control_ok server_controls" by (simp add: server_controls_def ignored_types_def)
  have i: "(to_read server_says, written server_says) =
      (concat (map control_frame server_controls) @ headers_reply 1 [9] @ body_frames 1 [str ''he'', str ''llo''] @ [], [])"
    by (simp add: server_says_def)
  have p: "str ''he'' @ str ''llo'' = str ''hello''" "list_all (\<lambda>p. length p \<le> 1016) [[9], str ''he'', str ''llo'']"
    "length (concat [str ''he'', str ''llo'']) \<le> READ_BUF_MAX_SIZE" by code_simp+
  from h2_exchange [OF c s k quick_full_reads quick_full_sends demo_headers d _ b _ _ t loop x _ p(2,3) i] c p(1)
  show ?thesis by (auto simp: server_controls_def demo_request_def eval_nat_numeral)
qed

end
