(* ===== verification/Process.thy ===== *)
theory Process
  imports Co_Socket
begin

text \<open>
  \<open>src/unix_socket.cc\<close> and \<open>src/process.cc\<close>: a pair of connected sockets and a child process
  that talks to its parent through it. The calls of the system beyond sockets are parameters.
\<close>

record 'e psys =
  net :: "'e sys"
  sys_socketpair :: "'e \<Rightarrow> (int \<times> int \<times> int) \<times> 'e"
  sys_fork :: "'e \<Rightarrow> int \<times> 'e"
  sys_getpid :: "'e \<Rightarrow> int \<times> 'e"
  sys_waitpid :: "'e \<Rightarrow> int \<times> 'e"

section \<open>The socket pair\<close>

text \<open>\<open>current_sock\<close> has no initial value; it points to one of the other two once it is set.\<close>

datatype unix_end = WORKER | MASTER

record unix_socket =
  worker_fd :: int
  master_fd :: int
  current_sock :: "unix_end option"
  u_read_buf :: "buffer option"
  u_write_buf :: "buffer option"
  u_err_code :: int
  u_err_msg :: cstring

definition u_set_err :: "'e psys \<Rightarrow> 'e \<Rightarrow> unix_socket \<Rightarrow> unix_socket" where
  "u_set_err sys e u =
     (let code = sys_errno (net sys) e
      in u\<lparr>u_err_code := code, u_err_msg := if code \<noteq> 0 then sys_strerror (net sys) code else []\<rparr>)"

definition UnixSocket_new :: "'e psys \<Rightarrow> 'e \<Rightarrow> unix_socket \<times> 'e" where
  "UnixSocket_new sys e =
     (case sys_socketpair sys e of ((ret, s0, s1), e) \<Rightarrow>
        let u = \<lparr>worker_fd = s0, master_fd = s1, current_sock = None, u_read_buf = None,
                 u_write_buf = None, u_err_code = 0, u_err_msg = []\<rparr>
        in (if ret < 0 then u_set_err sys e u else u, e))"

definition get_socket :: "unix_socket \<Rightarrow> unix_end \<Rightarrow> int" where
  "get_socket u t = (if t = WORKER then worker_fd u else master_fd u)"

definition with_current :: "unix_socket \<Rightarrow> (int \<Rightarrow> ('e, 'a) call) \<Rightarrow> ('e, 'a) call" where
  "with_current u f =
     (case current_sock u of None \<Rightarrow> call_fault Uninitialised | Some t \<Rightarrow> f (get_socket u t))"

definition unix_recv :: "'e psys \<Rightarrow> unix_socket \<Rightarrow> nat \<Rightarrow> ('e, (int \<times> bytes) \<times> unix_socket) call" where
  "unix_recv sys u len = with_current u (\<lambda>fd e.
     case Socket_recv (net sys) fd len e of ((r, bs), e) \<Rightarrow>
       let ret = to_int r in call_return ((ret, bs), if ret < 0 then u_set_err sys e u else u) e)"

definition unix_send :: "'e psys \<Rightarrow> unix_socket \<Rightarrow> bytes \<Rightarrow> ('e, int \<times> unix_socket) call" where
  "unix_send sys u buf = with_current u (\<lambda>fd e.
     case Socket_send (net sys) fd buf e of (r, e) \<Rightarrow>
       let ret = to_int r in call_return (ret, if ret < 0 then u_set_err sys e u else u) e)"

definition unix_get_read_buf :: "unix_socket \<Rightarrow> buffer \<times> unix_socket" where
  "unix_get_read_buf u =
     (case u_read_buf u of
        Some b \<Rightarrow> (b, u)
      | None \<Rightarrow> let b = Buffer_new 0 (of_nat READ_BUF_MAX_SIZE) in (b, u\<lparr>u_read_buf := Some b\<rparr>))"

definition unix_get_write_buf :: "unix_socket \<Rightarrow> buffer \<times> unix_socket" where
  "unix_get_write_buf u =
     (case u_write_buf u of
        Some b \<Rightarrow> (b, u)
      | None \<Rightarrow> let b = Buffer_new 0 (of_nat WRITE_BUF_MAX_SIZE) in (b, u\<lparr>u_write_buf := Some b\<rparr>))"

definition unix_close :: "'e psys \<Rightarrow> unix_socket \<Rightarrow> ('e, bool \<times> unix_socket) call" where
  "unix_close sys u = with_current u (\<lambda>fd e.
     case Socket_close (net sys) fd e of (ok, e) \<Rightarrow>
       call_return (ok, if ok then u else u_set_err sys e u) e)"

text \<open>
  The destructor deletes both sockets, which closes their descriptors, and then calls
  \<open>close()\<close>, which follows \<open>current_sock\<close>: to one of the sockets just deleted.
\<close>

definition UnixSocket_delete :: "'e psys \<Rightarrow> unix_socket \<Rightarrow> ('e, unit) call" where
  "UnixSocket_delete sys u e =
     (let e1 = snd (Socket_close (net sys) (master_fd u) e);
          e2 = snd (Socket_close (net sys) (worker_fd u) e1)
      in case current_sock u of
        None \<Rightarrow> call_fault Uninitialised e2
      | Some t \<Rightarrow> call_fault UseAfterFree e2)"

section \<open>Processes\<close>

record process =
  enable_coroutine :: bool
  pid :: "int option"
  child_pid :: "int option"
  p_socket :: unix_socket

text \<open>The ids have no value before \<open>start\<close>.\<close>

definition Process_new :: "'e psys \<Rightarrow> bool \<Rightarrow> 'e \<Rightarrow> process \<times> 'e" where
  "Process_new sys en e =
     (case UnixSocket_new sys e of (u, e) \<Rightarrow> (\<lparr>enable_coroutine = en, pid = None, child_pid = None, p_socket = u\<rparr>, e))"

datatype outcome = Returned bool | Exited int

text \<open>
  \<open>start\<close>, in the process where \<open>fork\<close> returned what \<open>sys_fork\<close> says. \<open>handler\<close> is the
  function of the user, called directly or in a new coroutine.
\<close>

definition process_start ::
    "'e psys \<Rightarrow> (bool \<Rightarrow> process \<Rightarrow> ('e, unit) call) \<Rightarrow> process \<Rightarrow> ('e, outcome \<times> process) call" where
  "process_start sys handler p e =
     (case sys_fork sys e of (forked, e) \<Rightarrow>
        case sys_getpid sys e of (self, e) \<Rightarrow>
          let p = p\<lparr>pid := Some self, child_pid := Some forked\<rparr>
          in if forked > 0
             then call_return (Returned True, p\<lparr>p_socket := (p_socket p)\<lparr>current_sock := Some MASTER\<rparr>\<rparr>) e
             else let p = p\<lparr>p_socket := (p_socket p)\<lparr>current_sock := Some WORKER\<rparr>\<rparr>
               in call_then (handler (enable_coroutine p) p) (call_return (Exited 0, p)) e)"

definition process_wait :: "'e psys \<Rightarrow> 'e \<Rightarrow> int \<times> 'e" where
  "process_wait sys = sys_waitpid sys"

definition process_read :: "'e psys \<Rightarrow> process \<Rightarrow> nat \<Rightarrow> ('e, (int \<times> bytes) \<times> unix_socket) call" where
  "process_read sys p len = unix_recv sys (p_socket p) len"

definition process_write :: "'e psys \<Rightarrow> process \<Rightarrow> bytes \<Rightarrow> ('e, int \<times> unix_socket) call" where
  "process_write sys p buf = unix_send sys (p_socket p) buf"

definition process_delete :: "'e psys \<Rightarrow> process \<Rightarrow> ('e, unit) call" where
  "process_delete sys p = UnixSocket_delete sys (p_socket p)"

section \<open>Properties\<close>

definition demo_psys :: "int \<Rightarrow> demo psys" where
  "demo_psys f = \<lparr>net = demo_sys, sys_socketpair = (\<lambda>e. ((0, 5, 6), e)), sys_fork = (\<lambda>e. (f, e)),
     sys_getpid = (\<lambda>e. (100, e)), sys_waitpid = (\<lambda>e. (f, e))\<rparr>"

definition demo_process :: process where
  "demo_process = \<lparr>enable_coroutine = False, pid = None, child_pid = None,
     p_socket = \<lparr>worker_fd = 5, master_fd = 6, current_sock = None, u_read_buf = None, u_write_buf = None, u_err_code = 0, u_err_msg = []\<rparr>\<rparr>"

text \<open>
  C39: after \<open>start\<close> each process uses its own end of the pair: \<open>read\<close> and \<open>write\<close> of the
  parent, where \<open>fork\<close> returned the id of the child, are \<open>recv\<close> and \<open>send\<close> on the master's
  descriptor, those of the child on the worker's.
\<close>

theorem process_uses_its_end:
  assumes "sys_fork sys e = (f, e1)" and "process_start sys handler p e = Some (Inr ((res, p'), e2))"
    and "fd = (if 0 < f then master_fd (p_socket p) else worker_fd (p_socket p))"
  shows "res = (if 0 < f then Returned True else Exited 0) \<and>
    (\<exists>u. process_write sys p' buf e3 =
       Some (Inr ((to_int (fst (sys_send (net sys) fd buf e3)), u), snd (sys_send (net sys) fd buf e3)))) \<and>
    (\<exists>u. process_read sys p' n e3 =
       Some (Inr (((to_int (fst (fst (sys_recv (net sys) fd n e3))), snd (fst (sys_recv (net sys) fd n e3))), u),
         snd (sys_recv (net sys) fd n e3))))"
proof -
  have "get_socket (p_socket p') (the (current_sock (p_socket p'))) = fd \<and> current_sock (p_socket p') \<noteq> None \<and>
      res = (if 0 < f then Returned True else Exited 0)"
    using assms by (auto simp: process_start_def Let_def get_socket_def call_then_def call_bind_returns call_return_def split: prod.splits if_splits)
  then show ?thesis
    by (auto simp: process_read_def process_write_def unix_recv_def unix_send_def with_current_def
        Socket_recv_def Socket_send_def Let_def call_return_def split_beta)
qed

theorem process_uses_its_end_witness:
  "\<exists>u. process_write (demo_psys 77)
      (demo_process\<lparr>pid := Some 100, child_pid := Some 77, p_socket := (p_socket demo_process)\<lparr>current_sock := Some MASTER\<rparr>\<rparr>)
      [1] \<lparr>blocked = 0, to_read = [], written = []\<rparr> =
    Some (Inr ((to_int (fst (sys_send demo_sys 6 [1] \<lparr>blocked = 0, to_read = [], written = []\<rparr>)), u),
      snd (sys_send demo_sys 6 [1] \<lparr>blocked = 0, to_read = [], written = []\<rparr>)))"
proof -
  let ?e = "\<lparr>blocked = 0, to_read = [], written = []\<rparr> :: demo"
  have "sys_fork (demo_psys 77) ?e = (77, ?e)" by (simp add: demo_psys_def)
  moreover have "process_start (demo_psys 77) (\<lambda>_ _. call_return ()) demo_process ?e =
      Some (Inr ((Returned True, demo_process\<lparr>pid := Some 100, child_pid := Some 77,
          p_socket := (p_socket demo_process)\<lparr>current_sock := Some MASTER\<rparr>\<rparr>), ?e))"
    by (simp add: process_start_def demo_psys_def Let_def call_return_def)
  moreover have "6 = (if (0 :: int) < 77 then master_fd (p_socket demo_process) else worker_fd (p_socket demo_process))"
    by (simp add: demo_process_def)
  ultimately show ?thesis
    using process_uses_its_end [of "demo_psys 77" ?e 77 ?e "\<lambda>_ _. call_return ()" demo_process] by (simp add: demo_psys_def)
qed

text \<open>
  A \<open>fork\<close> that fails is taken for the child: the parent runs the handler itself and the
  whole process ends.
\<close>

theorem fork_failure_runs_handler:
  assumes "sys_fork sys e = (-1, e1)" and "sys_getpid sys e1 = (self, e2)"
  shows "\<exists>p'. process_start sys handler p e = call_then (handler (enable_coroutine p) p') (call_return (Exited 0, p')) e2"
  using assms by (auto simp: process_start_def Let_def)

theorem fork_failure_runs_handler_witness:
  "\<exists>p'. process_start (demo_psys (-1)) (\<lambda>_ _. call_modify (written_update (\<lambda>_. [1]))) demo_process \<lparr>blocked = 0, to_read = [], written = []\<rparr> =
     Some (Inr ((Exited 0, p'), \<lparr>blocked = 0, to_read = [], written = [1]\<rparr>))"
  using fork_failure_runs_handler [of "demo_psys (-1)" "\<lparr>blocked = 0, to_read = [], written = []\<rparr>"
      "\<lparr>blocked = 0, to_read = [], written = []\<rparr>" 100 "\<lparr>blocked = 0, to_read = [], written = []\<rparr>"
      "\<lambda>_ _. call_modify (written_update (\<lambda>_. [1]))" demo_process]
  by (simp add: demo_psys_def call_then_def call_bind_def call_modify_def call_return_def)

text \<open>
  Destroying a process object is undefined behaviour in every case: the destructor of the
  socket pair uses \<open>current_sock\<close> after deleting what it points to, or before it was set.
\<close>

theorem process_delete_faults:
  "process_delete sys p e = Some (Inl UseAfterFree) \<or> process_delete sys p e = Some (Inl Uninitialised)"
  by (cases "current_sock (p_socket p)") (simp_all add: process_delete_def UnixSocket_delete_def Let_def call_fault_def)

end
