(* ===== verification/Event_Loop.thy ===== *)
theory Event_Loop
  imports Scheduler
begin

text \<open>
  \<open>src/core/event.cc\<close>: the loop that waits for timers and descriptors and resumes the
  coroutines that wait for them, and \<open>coroutine::run\<close> of \<open>include/coroutine.h\<close>, which runs
  a program from its first coroutine until the loop ends.
\<close>

section \<open>Handling what is ready\<close>

text \<open>The loop from entry \<open>i\<close> on with \<open>k\<close> entries to go.\<close>

primrec handle_io_loop :: "runner \<Rightarrow> nat \<Rightarrow> nat \<Rightarrow> world action" where
  "handle_io_loop run 0 i = act_skip"
| "handle_io_loop run (Suc k) i = (\<lambda>w.
     case event_poll w of
       None \<Rightarrow> act_fault NullPointer w
     | Some p \<Rightarrow>
         if i < length (events p)
         then case fromuint64 (snd (events p ! i)) of
           (fd, cid) \<Rightarrow> act_then (resume_cid run (sint cid)) (handle_io_loop run k (Suc i)) w
         else act_fault OutOfBounds w)"

definition default_handle_io :: "runner \<Rightarrow> world action" where
  "default_handle_io run w = handle_io_loop run (nat (num w)) 0 w"

definition default_handle_timer :: "nat \<Rightarrow> runner \<Rightarrow> world action" where
  "default_handle_timer n run = run_timers n (sleep_timeout run)"

section \<open>The loop\<close>

text \<open>
  \<open>epoll_wait\<close> fills at most \<open>ncap\<close> entries of the array. Its timeout is an \<open>int\<close>: the
  64-bit wait of the timers is cut to 32 bits.
\<close>

definition epoll_wait :: "poll \<Rightarrow> int \<Rightarrow> world \<Rightarrow> world" where
  "epoll_wait p t w =
     (let answer = epoll_wait_answer (system w) (os_calls w) (sint (word_of_int t :: u32));
          w = w\<lparr>os_calls := Suc (os_calls w)\<rparr>
      in case answer of
        None \<Rightarrow> w\<lparr>num := -1\<rparr>
      | Some es \<Rightarrow>
          let ready = take (ncap p) es
          in w\<lparr>num := int (length ready),
               event_poll := Some (p\<lparr>events := ready @ drop (length ready) (events p)\<rparr>)\<rparr>)"

text \<open>
  \<open>Event::wait\<close>: \<open>l\<close> bounds the turns of the loop, which has no end of its own, and \<open>n\<close> the
  depth of the code that each turn runs.
\<close>

primrec event_wait :: "nat \<Rightarrow> nat \<Rightarrow> world action" where
  "event_wait 0 n = (\<lambda>w. None)"
| "event_wait (Suc l) n = (\<lambda>w.
     if running w > 0 then
       (case get_next_timeout w of (t, w) \<Rightarrow>
          case event_poll w of
            None \<Rightarrow> act_fault NullPointer w
          | Some p \<Rightarrow>
              if t < 0 \<and> event_num p = 0 then act_skip (w\<lparr>running := 0\<rparr>)
              else act_then (default_handle_io (exec n))
                (act_then (default_handle_timer n (exec n)) (event_wait l n)) (epoll_wait p t w))
     else act_skip w)"

definition Event_new :: "world \<Rightarrow> world" where
  "Event_new w = (init_Poll w)\<lparr>timers := [], running := 1\<rparr>"

definition Event_delete :: "world action" where
  "Event_delete w = free_Poll (w\<lparr>running := 0\<rparr>)"

definition coroutine_run :: "nat \<Rightarrow> nat \<Rightarrow> prog \<Rightarrow> world action" where
  "coroutine_run l n fn w =
     act_then (create (exec n) fn) (act_then (event_wait l n) Event_delete) (Event_new w)"

text \<open>The process before anything runs.\<close>

definition world0 :: "(nat \<Rightarrow> int \<times> int) \<Rightarrow> os \<Rightarrow> world" where
  "world0 clk s =
     \<lparr>timers = [], clock = clk, clock_reads = 0, current = None, last_cid = 0,
      coroutines = Map.empty, channels = [], event_poll = None, running = 0, num = 0,
      interest = Map.empty, system = s, os_calls = 0, trace = []\<rparr>"

section \<open>The invariant of the loop\<close>

definition world_ok :: "int \<Rightarrow> world \<Rightarrow> bool" where
  "world_ok r w \<longleftrightarrow>
     stack_ok {} w [] \<and> channels_ok w \<and> poll_ok w \<and> timers_wf w \<and> running w = r"

lemma world_ok_stack: "world_ok r w \<Longrightarrow> stack_ok {} w []"
  by (simp add: world_ok_def)

lemma returns_world_ok:
  assumes "returns_to [] w w'" and "world_ok r w"
  shows "world_ok r w'"
proof -
  have s: "sched_steps w w'" using assms(1) by (simp add: returns_to_def)
  then have "channels_ok w'" "poll_ok w'" "timers_wf w'" "running w' = r"
    using assms(2) sched_steps_invariant [OF s, of channels_ok] sched_steps_invariant [OF s, of poll_ok]
      sched_steps_invariant [OF s, of timers_wf] sched_step_channels_ok sched_step_poll_ok
      sched_step_timers_wf sched_steps_loop_frame [OF s]
    by (simp_all add: world_ok_def loop_frame_def)
  then show ?thesis using assms(1) by (simp add: world_ok_def returns_to_def)
qed

lemma resume_cid_world_ok:
  "resume_cid (exec n) i w = Some (Inr w') \<Longrightarrow> world_ok r w \<Longrightarrow> world_ok r w'"
  using sched.resume_cid_returns returns_world_ok world_ok_stack by blast

lemma resume_ptr_world_ok:
  "resume_ptr (exec n) c w = Some (Inr w') \<Longrightarrow> world_ok r w \<Longrightarrow> world_ok r w'"
  using sched.resume_ptr_returns returns_world_ok world_ok_stack by blast

lemma create_world_ok:
  "create (exec n) fn w = Some (Inr w') \<Longrightarrow> world_ok r w \<Longrightarrow> world_ok r w'"
  using sched.create_returns returns_world_ok world_ok_stack by blast

lemma handle_io_world_ok:
  "handle_io_loop (exec n) k i w = Some (Inr w') \<Longrightarrow> world_ok r w \<Longrightarrow> world_ok r w'"
proof (induction k arbitrary: i w)
  case (Suc k)
  then obtain c w1 where "resume_cid (exec n) c w = Some (Inr w1)"
    and "handle_io_loop (exec n) k (Suc i) w1 = Some (Inr w')"
    by (auto simp: act_then_returns split: option.splits if_splits prod.splits)
  with Suc show ?case using resume_cid_world_ok by blast
qed simp

lemma world_ok_same:
  assumes "world_ok r w" and "current w' = current w" and "coroutines w' = coroutines w"
    and "last_cid w' = last_cid w" and "channels w' = channels w" and "trace w' = trace w"
    and "map_option event_num (event_poll w') = map_option event_num (event_poll w)"
    and "interest w' = interest w" and "timers_wf w'" and "running w' = r'"
  shows "world_ok r' w'"
proof -
  have "poll_ok w'"
    using assms(1,7,8) by (cases "event_poll w"; cases "event_poll w'") (auto simp: world_ok_def poll_ok_def)
  then show ?thesis
    using assms stack_ok_cong [of w' w "{}" "[]"] by (simp add: world_ok_def channels_ok_def)
qed

lemma world_ok_pop:
  "world_ok r w \<Longrightarrow> timers w \<noteq> [] \<Longrightarrow> world_ok r (w\<lparr>timers := heap_pop exec_msec (timers w)\<rparr>)"
  by (rule world_ok_same [of r w]) (auto simp: world_ok_def pop_wf)

lemma sleep_timeout_eq: "sleep_timeout run f c = resume_ptr run c"
  by (cases f) simp

lemma run_timers_loop_returns:
  assumes "run_timers_loop (Suc m) call now w = Some (Inr w')"
  obtains "w' = w"
  | w1 where "timers w \<noteq> []"
      "call (callback (heap_top (timers w))) (private_data (heap_top (timers w)))
        (w\<lparr>timers := heap_pop exec_msec (timers w)\<rparr>) = Some (Inr w1)"
      "run_timers_loop m call now w1 = Some (Inr w')"
  using assms by (auto simp: Let_def split: if_splits option.splits sum.splits)

lemma run_timers_loop_world_ok:
  "run_timers_loop m (sleep_timeout (exec n)) now w = Some (Inr w') \<Longrightarrow> world_ok r w \<Longrightarrow> world_ok r w'"
proof (induction m arbitrary: w)
  case (Suc m)
  from Suc.prems(1) show ?case
  proof (cases rule: run_timers_loop_returns)
    case 1
    then show ?thesis using Suc.prems(2) by simp
  next
    case (2 w1)
    have "world_ok r w1"
      using 2(2) world_ok_pop [OF Suc.prems(2) 2(1)] resume_ptr_world_ok unfolding sleep_timeout_eq by blast
    with Suc.IH [OF 2(3)] show ?thesis .
  qed
qed simp

lemma get_current_ms_world_ok: "world_ok r w \<Longrightarrow> get_current_ms w = (now, w') \<Longrightarrow> world_ok r w'"
  by (rule world_ok_same [of r w]) (auto simp: get_current_ms_def world_ok_def timers_wf_def split: prod.splits)

lemma get_next_timeout_world_ok: "world_ok r w \<Longrightarrow> get_next_timeout w = (t, w') \<Longrightarrow> world_ok r w'"
  by (auto simp: get_next_timeout_def Let_def split: if_splits prod.splits intro: get_current_ms_world_ok)

lemma default_handle_timer_world_ok:
  "default_handle_timer m (exec n) w = Some (Inr w') \<Longrightarrow> world_ok r w \<Longrightarrow> world_ok r w'"
  by (auto simp: default_handle_timer_def run_timers_def split: prod.splits
      intro: run_timers_loop_world_ok get_current_ms_world_ok)

lemma epoll_wait_world_ok: "world_ok r w \<Longrightarrow> event_poll w = Some p \<Longrightarrow> world_ok r (epoll_wait p t w)"
  by (rule world_ok_same [of r w])
    (auto simp: epoll_wait_def Let_def world_ok_def timers_wf_def split: option.splits)

lemma get_next_timeout_neg: "get_next_timeout w = (t, w') \<Longrightarrow> t < 0 \<longleftrightarrow> timers w = []"
  by (auto simp: get_next_timeout_def Let_def split: if_splits prod.splits)

lemma get_next_timeout_same: "get_next_timeout w = (t, w') \<Longrightarrow> timers w' = timers w \<and> interest w' = interest w"
  by (auto simp: get_next_timeout_def Let_def get_current_ms_def split: if_splits prod.splits)

text \<open>What is true when the loop ends by itself.\<close>

definition quiescent :: "world \<Rightarrow> bool" where
  "quiescent w \<longleftrightarrow> timers w = [] \<and> interest w = Map.empty"

lemma event_wait_quiescent:
  "event_wait l n w = Some (Inr w') \<Longrightarrow> world_ok r w \<Longrightarrow> 0 < r \<Longrightarrow> world_ok 0 w' \<and> quiescent w'"
proof (induction l arbitrary: w)
  case (Suc l)
  have run: "running w > 0" using Suc.prems(2,3) by (simp add: world_ok_def)
  obtain t w1 where g: "get_next_timeout w = (t, w1)" by force
  have ok: "world_ok r w1" using get_next_timeout_world_ok [OF Suc.prems(2) g] .
  obtain p where p: "event_poll w1 = Some p"
    using Suc.prems(1) run g by (auto split: option.splits)
  show ?case
  proof (cases "t < 0 \<and> event_num p = 0")
    case True
    then have w': "w' = w1\<lparr>running := 0\<rparr>" using Suc.prems(1) run g p by simp
    have "dom (interest w1) = {}" using ok p True by (auto simp: world_ok_def poll_ok_def)
    then have "quiescent w1"
      using True get_next_timeout_neg [OF g] get_next_timeout_same [OF g] by (simp add: quiescent_def)
    moreover have "world_ok 0 w'"
      using ok unfolding w' by (rule world_ok_same) (use ok in \<open>simp_all add: world_ok_def timers_wf_def\<close>)
    ultimately show ?thesis by (simp add: w' quiescent_def)
  next
    case False
    then obtain w2 w3 where w2: "default_handle_io (exec n) (epoll_wait p t w1) = Some (Inr w2)"
      and w3: "default_handle_timer n (exec n) w2 = Some (Inr w3)"
      and r: "event_wait l n w3 = Some (Inr w')"
      using Suc.prems(1) run g p by (auto simp: act_then_returns)
    have "world_ok r w3"
      using epoll_wait_world_ok [OF ok p] handle_io_world_ok w2 w3 default_handle_timer_world_ok
      by (auto simp: default_handle_io_def)
    then show ?thesis using Suc.IH [OF r] Suc.prems(3) by blast
  qed
qed simp

lemma world0_ok: "world_ok 1 (Event_new (world0 clk s))"
  by (auto simp: world_ok_def Event_new_def world0_def init_Poll_def Let_def stack_ok_def channels_ok_def
      poll_ok_def timers_wf_def is_heap_def)

text \<open>
  A concrete system: every call succeeds, no descriptor is ever ready, and the clock advances
  one second at each reading. A program on it: a consumer waits on a channel, the first
  coroutine pushes a value.
\<close>

definition idle_os :: os where
  "idle_os = \<lparr>epoll_create_answer = (\<lambda>i. 3), epoll_ctl_ok = (\<lambda>i. True),
     epoll_wait_answer = (\<lambda>i t. Some [])\<rparr>"

definition idle_world :: world where
  "idle_world = world0 (\<lambda>i. (int i, 0)) idle_os"

definition push_pop_prog :: "rat \<Rightarrow> prog" where
  "push_pop_prog t = ChannelNew 1 (\<lambda>ch.
     Create (Pop ch t (\<lambda>v. Emit v Done)) (\<lambda>_. Push ch 7 (- 1) (\<lambda>b. Done)))"

lemma push_pop_returns:
  "returned (\<lambda>w. length (channels w) = 1 \<and> trace w = [Pushed 0 7, Popped 0 7, Out 7])
     (coroutine_run 1 10 (push_pop_prog (- 1)) idle_world)"
  by code_simp

text \<open>
  C3: when a program ends, that is when \<open>coroutine::run\<close> returns, no timer is pending and no
  descriptor is left in the interest list, the main program is on the processor, and every
  coroutine that is left is one that yielded and was not resumed: none has ended without being
  deleted, none is stale.
\<close>

theorem coroutine_run_quiescent:
  assumes "coroutine_run l n fn (world0 clk s) = Some (Inr w')"
  shows "timers w' = [] \<and> interest w' = Map.empty \<and> event_poll w' = None \<and> current w' = None \<and>
    (\<forall>c co. coroutines w' c = Some co \<longrightarrow> saved (ctx co) \<noteq> None \<and> \<not> is_end (ctx co))"
proof -
  obtain w1 w2 where w1: "create (exec n) fn (Event_new (world0 clk s)) = Some (Inr w1)"
    and w2: "event_wait l n w1 = Some (Inr w2)" and w': "Event_delete w2 = Some (Inr w')"
    using assms by (auto simp: coroutine_run_def act_then_returns)
  have "world_ok 1 w1" using create_world_ok [OF w1 world0_ok] .
  then have "world_ok 0 w2 \<and> quiescent w2" using event_wait_quiescent [OF w2] by simp
  then show ?thesis
    using w' by (auto simp: Event_delete_def free_Poll_def world_ok_def quiescent_def stack_ok_def
        split: option.splits)
qed

theorem coroutine_run_quiescent_witness:
  "\<exists>w'. coroutine_run 1 10 (push_pop_prog (- 1)) idle_world = Some (Inr w') \<and> timers w' = [] \<and>
     interest w' = Map.empty"
  using push_pop_returns coroutine_run_quiescent [of 1 10 "push_pop_prog (- 1)"]
  unfolding returned_iff idle_world_def by blast



section \<open>Which coroutines the loop resumes\<close>

text \<open>The entries of a list resumed one after the other.\<close>

primrec resume_entries :: "runner \<Rightarrow> (u32 \<times> u64) list \<Rightarrow> world action" where
  "resume_entries run [] = act_skip"
| "resume_entries run (e # es) =
     act_then (resume_cid run (sint (snd (fromuint64 (snd e))))) (resume_entries run es)"

lemma act_then_cong:
  "(\<And>t. m s = Some (Inr t) \<Longrightarrow> f t = g t) \<Longrightarrow> act_then m f s = act_then m g s"
  by (simp add: act_then_def split: option.splits sum.splits)

lemma handle_io_loop_entries:
  assumes "stack_ok {} w []" and "event_poll w = Some p" and "i + k \<le> length (events p)"
  shows "handle_io_loop (exec n) k i w = resume_entries (exec n) (take k (drop i (events p))) w"
  using assms
proof (induction k arbitrary: i w p)
  case (Suc k)
  let ?r = "resume_cid (exec n) (sint (snd (fromuint64 (snd (events p ! i)))))"
  have "handle_io_loop (exec n) (Suc k) i w = act_then ?r (handle_io_loop (exec n) k (Suc i)) w"
    using Suc.prems(2,3) by (simp add: split_beta)
  also have "\<dots> = act_then ?r (resume_entries (exec n) (take k (drop (Suc i) (events p)))) w"
  proof (rule act_then_cong)
    fix w1 assume "?r w = Some (Inr w1)"
    then have r: "returns_to [] w w1" by (rule sched.resume_cid_returns [OF _ Suc.prems(1)])
    then obtain p1 where p1: "event_poll w1 = Some p1" "length (events p1) = length (events p)"
      "tl (events p1) = tl (events p)"
      using sched_steps_loop_frame [of w w1] Suc.prems(2)
      by (cases "event_poll w1") (auto simp: returns_to_def loop_frame_def)
    then have "drop (Suc i) (events p1) = drop (Suc i) (events p)" by (simp add: drop_Suc)
    then show "handle_io_loop (exec n) k (Suc i) w1 = resume_entries (exec n) (take k (drop (Suc i) (events p))) w1"
      using Suc.IH [of w1 p1 "Suc i"] p1 Suc.prems(3) r by (simp add: returns_to_def)
  qed
  also have "\<dots> = resume_entries (exec n) (take (Suc k) (drop i (events p))) w"
    using Suc.prems(3) by (simp flip: Cons_nth_drop_Suc)
  finally show ?case .
qed simp

text \<open>
  C5: one turn of the loop resumes exactly the coroutines of the entries that \<open>epoll_wait\<close>
  reported, in that order, although the resumed code writes into the very array the loop reads
  (\<open>wait_event\<close> builds its entry in \<open>events[0]\<close>).
\<close>

theorem handle_io_resumes_reported:
  assumes "stack_ok {} w []" and "event_poll w = Some p" and "length (events p) = ncap p"
    and "epoll_wait_answer (system w) (os_calls w) (sint (word_of_int t :: u32)) = Some es"
  shows "default_handle_io (exec n) (epoll_wait p t w) =
    resume_entries (exec n) (take (ncap p) es) (epoll_wait p t w)"
proof -
  let ?w = "epoll_wait p t w" and ?es = "take (ncap p) es"
  let ?p = "p\<lparr>events := ?es @ drop (length ?es) (events p)\<rparr>"
  have w: "event_poll ?w = Some ?p" "num ?w = int (length ?es)" "stack_ok {} ?w []"
    using assms(1,4) stack_ok_cong [of ?w w "{}" "[]"] by (simp_all add: epoll_wait_def)
  show ?thesis
    using handle_io_loop_entries [OF w(3,1), of 0 "length ?es" n] w(2) assms(3)
    by (simp add: default_handle_io_def min_def split: if_splits)
qed

theorem handle_io_resumes_reported_witness:
  "default_handle_io (exec 3) (epoll_wait (the (event_poll (Event_new idle_world))) (-1) (Event_new idle_world)) =
   resume_entries (exec 3) (take 16 []) (epoll_wait (the (event_poll (Event_new idle_world))) (-1) (Event_new idle_world))"
proof -
  let ?w = "Event_new idle_world"
  let ?p = "\<lparr>epollfd = 3, ncap = 16, event_num = 0, events = replicate 16 (0, 0)\<rparr>"
  have p: "event_poll ?w = Some ?p"
    by (simp add: Event_new_def idle_world_def world0_def init_Poll_def idle_os_def FSW_EPOLL_CAP_def)
  have "stack_ok {} ?w []" using world0_ok world_ok_stack unfolding idle_world_def by blast
  moreover have "epoll_wait_answer (system ?w) (os_calls ?w) (sint (word_of_int (-1) :: u32)) = Some []"
    by (simp add: Event_new_def idle_world_def world0_def init_Poll_def idle_os_def Let_def)
  ultimately show ?thesis
    using handle_io_resumes_reported [of ?w ?p "-1" "[]" 3] p by simp
qed

section \<open>Timed waits on channels\<close>

definition late_push_prog :: prog where
  "late_push_prog = ChannelNew 1 (\<lambda>ch.
     Create (Pop ch 1 (\<lambda>v. Emit v Done)) (\<lambda>_. Sleep 5 (Push ch 7 (- 1) (\<lambda>b. Done))))"

definition faulted :: "fault \<Rightarrow> 's res option \<Rightarrow> bool" where
  "faulted e r = (case r of Some (Inl e') \<Rightarrow> e' = e | _ \<Rightarrow> False)"

lemma faulted_iff: "faulted e r \<longleftrightarrow> r = Some (Inl e)"
  by (auto simp: faulted_def split: option.splits sum.splits)

lemma push_pop_faults: "faulted UseAfterFree (coroutine_run 10 10 (push_pop_prog 1) idle_world)"
  by code_simp

lemma late_push_faults: "faulted UseAfterFree (coroutine_run 10 10 late_push_prog idle_world)"
  by code_simp


end
