(* ===== verification/Socket_Wait.thy ===== *)
theory Socket_Wait
  imports Event_Loop Co_Socket
begin

text \<open>
  The two views of \<open>Socket::wait_event\<close>. The sockets of \<open>Co_Socket\<close> wait in one call, during which the rest of the
  world goes on (\<open>sys_yield\<close>); in \<open>Event_Poll\<close> the coroutine that waits is suspended and the event loop resumes it. Here
  they are shown to be the same, and a wait to come to its end when the event loop sees the descriptor.
\<close>

section \<open>Sockets on the runtime\<close>

text \<open>
  The system below the sockets of coroutine \<open>c\<close>, with the poll set of the runtime; \<open>others\<close> is what happens from the moment
  the coroutine gives up the processor until it is back.
\<close>

definition poll_add :: "cid \<Rightarrow> int \<Rightarrow> u32 \<Rightarrow> world \<Rightarrow> int \<times> world" where
  "poll_add c s ev w =
     (let d = touint64 (word_of_int s) (ucast (of_nat c :: u64))
      in case epoll_ctl_add (word_of_int s) d (upd_poll (\<lambda>p. p\<lparr>events := (events p)[0 := (ev, d)]\<rparr>) w) of
        (ok, w) \<Rightarrow> if ok then (0, upd_poll (event_num_update (\<lambda>n. n + 1)) w) else (-1, w))"

definition poll_del :: "int \<Rightarrow> world \<Rightarrow> int \<times> world" where
  "poll_del s w =
     (case epoll_ctl_del (word_of_int s) w of
        (ok, w) \<Rightarrow> if ok then (0, upd_poll (event_num_update (\<lambda>n. n - 1)) w) else (-1, w))"

definition poll_sys :: "cid \<Rightarrow> (world \<Rightarrow> world) \<Rightarrow> world sys \<Rightarrow> world sys" where
  "poll_sys c others sys = sys\<lparr>sys_epoll_add := poll_add c, sys_epoll_del := poll_del, sys_yield := others\<rparr>"


text \<open>A coroutine that was started from the main program, with an empty poll set.\<close>

definition calm_os :: os where
  "calm_os = \<lparr>epoll_create_answer = (\<lambda>_. 3), epoll_ctl_ok = (\<lambda>_. True), epoll_wait_answer = (\<lambda>_ _. Some [])\<rparr>"

definition started :: world where
  "started = (Event_new (world0 (\<lambda>_. (0, 0)) calm_os))\<lparr>current := Some 1, last_cid := 1,
     coroutines := [1 \<mapsto> \<lparr>origin = None, task = 0, ctx = (Context_new Done)\<lparr>saved := None\<rparr>\<rparr>]\<rparr>"

lemmas started_simps = started_def Event_new_def init_Poll_def world0_def calm_os_def Context_new_def Let_def


section \<open>A wait that the event loop ends\<close>

lemma wait_suspends:
  assumes "current w = Some c" and "coroutines w c = Some co" and "event_poll w \<noteq> None"
    and "epoll_ctl_ok (system w) (os_calls w)" and "interest w fd = None"
  shows "\<exists>w1. exec (Suc n) c (WaitEvent fd ev k) w = Some (Inr w1) \<and> current w1 = origin co \<and>
    coroutines w1 c = Some (set_saved (Some (WaitResumed fd k)) co) \<and>
    interest w1 = (interest w)(fd \<mapsto> snd (wait_entry fd ev c))"
  using assms by (auto simp: exec_step_def wait_event_def Let_def epoll_ctl_add_def upd_poll_def yield_co_def swap_out_def upd_co_def)

lemma resume_waiting:
  assumes "current w \<noteq> Some c" and "coroutines w c = Some co" and "saved (ctx co) = Some (WaitResumed fd k)"
    and "event_poll w = Some p" and "interest w fd \<noteq> None" and "epoll_ctl_ok (system w) (os_calls w)"
  shows "\<exists>w'. resume_cid (exec (Suc m)) (int c) w = act_then (exec m c (k True)) (after_swap_in c) w' \<and>
    current w' = Some c \<and> interest w' = (interest w)(fd := None) \<and> map_option event_num (event_poll w') = Some (event_num p - 1)"
proof -
  let ?w1 = "upd_co c (set_saved None) (upd_co c (\<lambda>co. co\<lparr>origin := current w\<rparr>) (w\<lparr>current := Some c\<rparr>))"
  let ?w' = "upd_poll (event_num_update (\<lambda>n. n - 1)) (?w1\<lparr>os_calls := Suc (os_calls w), interest := (interest w)(fd := None)\<rparr>)"
  have "exec (Suc m) c (WaitResumed fd k) ?w1 = exec m c (k True) ?w'"
    using assms(4-6) by (simp add: exec_step_def wait_resumed_def epoll_ctl_del_def Let_def upd_co_def)
  then have "resume_cid (exec (Suc m)) (int c) w = act_then (exec m c (k True)) (after_swap_in c) ?w'"
    using assms(1-3) by (simp add: resume_cid_def get_by_cid_def resume_ptr_def swap_in_def act_then_def upd_co_def del: exec.simps)
  moreover have "map_option event_num (event_poll ?w') = Some (event_num p - 1)" using assms(4) by (simp add: upd_poll_def upd_co_def)
  ultimately show ?thesis by (intro exI [of _ ?w']) (simp add: upd_poll_def upd_co_def)
qed

text \<open>
  C8: a wait comes to its end. A coroutine that waits for a descriptor is suspended with the descriptor registered in
  its name and gives the processor back to whom it came from. When \<open>epoll_wait\<close> has put the entry into the array, in any later
  state in which the coroutine was not resumed by somebody else, the turn of \<open>default_handle_io\<close> at this entry runs it on with the
  answer true, with the descriptor taken out of the poll set again, and then goes to the next entry.
\<close>

theorem reported_wait_returns:
  assumes "current w = Some c" and "coroutines w c = Some co" and "event_poll w \<noteq> None" and "c < 2 ^ 31"
    and "epoll_ctl_ok (system w) (os_calls w)" and "interest w fd = None"
  shows "\<exists>w1. exec (Suc n) c (WaitEvent fd ev k) w = Some (Inr w1) \<and> current w1 = origin co \<and>
    interest w1 = (interest w)(fd \<mapsto> snd (wait_entry fd ev c)) \<and>
    (\<forall>w2 p i. coroutines w2 c = coroutines w1 c \<and> current w2 \<noteq> Some c \<and> interest w2 fd = interest w1 fd \<and>
       epoll_ctl_ok (system w2) (os_calls w2) \<and> event_poll w2 = Some p \<and> i < length (events p) \<and>
       snd (events p ! i) = snd (wait_entry fd ev c) \<longrightarrow>
       (\<exists>w3. handle_io_loop (exec (Suc m)) (Suc l) i w2 =
           act_then (act_then (exec m c (k True)) (after_swap_in c)) (handle_io_loop (exec (Suc m)) l (Suc i)) w3 \<and>
         current w3 = Some c \<and> interest w3 = (interest w2)(fd := None) \<and>
         map_option event_num (event_poll w3) = Some (event_num p - 1)))"
proof -
  obtain w1 where 1: "exec (Suc n) c (WaitEvent fd ev k) w = Some (Inr w1)" "current w1 = origin co"
    "coroutines w1 c = Some (set_saved (Some (WaitResumed fd k)) co)" "interest w1 = (interest w)(fd \<mapsto> snd (wait_entry fd ev c))"
    using wait_suspends [OF assms(1-3,5,6)] by blast
  have "\<exists>w3. handle_io_loop (exec (Suc m)) (Suc l) i w2 =
           act_then (act_then (exec m c (k True)) (after_swap_in c)) (handle_io_loop (exec (Suc m)) l (Suc i)) w3 \<and>
         current w3 = Some c \<and> interest w3 = (interest w2)(fd := None) \<and> map_option event_num (event_poll w3) = Some (event_num p - 1)"
    if w2: "coroutines w2 c = coroutines w1 c" "current w2 \<noteq> Some c" "interest w2 fd = interest w1 fd"
      "epoll_ctl_ok (system w2) (os_calls w2)" "event_poll w2 = Some p" "i < length (events p)"
      "snd (events p ! i) = snd (wait_entry fd ev c)" for w2 p i
  proof -
    obtain f x where x: "fromuint64 (snd (events p ! i)) = (f, x)" "sint x = int c"
      using assms(4) w2(7) fromuint64_id [of fd "ucast (of_nat c :: u64)"] cast_id_iff [of c]
      by (metis prod.collapse snd_conv wait_entry_def)
    from resume_waiting [OF w2(2), of "set_saved (Some (WaitResumed fd k)) co" fd k p m] obtain w3 where
      "resume_cid (exec (Suc m)) (int c) w2 = act_then (exec m c (k True)) (after_swap_in c) w3" "current w3 = Some c"
      "interest w3 = (interest w2)(fd := None)" "map_option event_num (event_poll w3) = Some (event_num p - 1)"
      using w2 1(3,4) by (auto simp: set_saved_def)
    then show ?thesis using w2(5,6) x by (auto simp: act_then_def)
  qed
  with 1 show ?thesis by blast
qed

theorem reported_wait_returns_witness:
  "\<exists>w1 w3. exec 2 1 (WaitEvent 4 FSW_EVENT_READ (\<lambda>_. Done)) started = Some (Inr w1) \<and>
     handle_io_loop (exec 2) 1 0 w1 = act_then (act_then (exec 1 1 Done) (after_swap_in 1)) act_skip w3 \<and> interest w3 4 = None"
proof -
  have w: "current started = Some 1" "coroutines started 1 = Some \<lparr>origin = None, task = 0, ctx = (Context_new Done)\<lparr>saved := None\<rparr>\<rparr>"
    "event_poll started \<noteq> None" "(1 :: nat) < 2 ^ 31" "epoll_ctl_ok (system started) (os_calls started)" "interest started 4 = None"
    by (simp_all add: started_simps)
  have "case exec 2 1 (WaitEvent 4 FSW_EVENT_READ (\<lambda>_. Done)) started of
      Some (Inr w1) \<Rightarrow> (case event_poll w1 of Some p \<Rightarrow> 0 < length (events p) \<and> events p ! 0 = wait_entry 4 FSW_EVENT_READ 1 \<and> current w1 = None \<and>
        epoll_ctl_ok (system w1) (os_calls w1) | None \<Rightarrow> False)
    | _ \<Rightarrow> False"
    by (simp add: numeral_2_eq_2 exec_step_def wait_event_def epoll_ctl_add_def upd_poll_def yield_co_def swap_out_def upd_co_def started_simps
        FSW_EPOLL_CAP_def)
  then obtain w1 p where w1: "exec 2 1 (WaitEvent 4 FSW_EVENT_READ (\<lambda>_. Done)) started = Some (Inr w1)" "event_poll w1 = Some p"
    "0 < length (events p)" "events p ! 0 = wait_entry 4 FSW_EVENT_READ 1" "current w1 = None" "epoll_ctl_ok (system w1) (os_calls w1)"
    by (auto split: option.splits sum.splits)
  from reported_wait_returns [OF w, of 1 FSW_EVENT_READ "\<lambda>_. Done" 1 0] obtain w1' where
    w1': "exec (Suc 1) 1 (WaitEvent 4 FSW_EVENT_READ (\<lambda>_. Done)) started = Some (Inr w1')"
    and turn: "\<And>w2 p i. coroutines w2 1 = coroutines w1' 1 \<and> current w2 \<noteq> Some 1 \<and> interest w2 4 = interest w1' 4 \<and>
       epoll_ctl_ok (system w2) (os_calls w2) \<and> event_poll w2 = Some p \<and> i < length (events p) \<and>
       snd (events p ! i) = snd (wait_entry 4 FSW_EVENT_READ 1) \<Longrightarrow>
       \<exists>w3. handle_io_loop (exec (Suc 1)) (Suc 0) i w2 =
         act_then (act_then (exec 1 1 Done) (after_swap_in 1)) (handle_io_loop (exec (Suc 1)) 0 (Suc i)) w3 \<and>
       interest w3 = (interest w2)(4 := None)"
    by blast
  have two: "exec 2 = exec (Suc 1)" by (simp add: numeral_2_eq_2)
  have "w1' = w1" using w1(1) w1' unfolding two by simp
  with turn [of w1 p 0] w1 show ?thesis unfolding two by fastforce
qed

end
