(* ===== verification/Examples.thy ===== *)
theory Examples
  imports Http_Connection Http2_Exchange Process Tcp_Server Socket_Wait
begin

text \<open>
  The programs of \<open>examples/\<close> that are written for the present interface, as clients of the models: what they print and
  send, and where they go wrong. (The four programs of \<open>examples/coroutine/socket/server/\<close> call functions that the library
  does not have any more.)
\<close>

section \<open>Creating coroutines\<close>

text \<open>\<open>create.cc\<close>: what is printed is an observation; \<open>printed_hello\<close> stands for the text.\<close>

definition printed_hello :: nat where "printed_hello = 2"

definition task1 :: "nat \<Rightarrow> prog" where
  "task1 p1 = Emit p1 Done"

definition task2 :: "nat \<Rightarrow> nat \<Rightarrow> prog" where
  "task2 p1 p2 = Emit p1 (Emit p2 Done)"

definition create_main :: prog where
  "create_main = Create (task1 1) (\<lambda>_. Create (task2 1 printed_hello) (\<lambda>_. Done))"

text \<open>Both coroutines run to their end where they are created, and then the event loop ends at once.\<close>

theorem create_example:
  assumes "0 \<le> epoll_create_answer s 0"
  shows "\<exists>w. coroutine_run (Suc l) (n + 8) create_main (world0 clk s) = Some (Inr w) \<and>
    trace w = [Out 1, Out 1, Out printed_hello] \<and> coroutines w = Map.empty"
  using assms
  by (simp add: coroutine_run_def create_main_def task1_def task2_def Event_new_def init_Poll_def world0_def Let_def
      create_def Coroutine_run_def Coroutine_new_def Context_new_def swap_in_def upd_co_def set_saved_def set_is_end_def
      act_then_def eval_nat_numeral exec_step_def observe_def context_return_def after_swap_in_def
      get_next_timeout_def Event_delete_def free_Poll_def fun_eq_iff)

section \<open>A child process\<close>

text \<open>
  \<open>process.cc\<close>: the child reads five bytes into an array of six (\<open>buf\<close> is what the array held) and sets
  \<open>buf[6]\<close>. What it would print is its result.
\<close>

definition child_handler :: "'e psys \<Rightarrow> bytes \<Rightarrow> process \<Rightarrow> ('e, cstring) call" where
  "child_handler sys buf p =
     call_bind (process_read sys p 5) (\<lambda>((ret, bs), u).
     call_bind (call_res (mem_write buf 0 bs)) (\<lambda>buf.
     call_bind (call_res (mem_write buf 6 [0])) (\<lambda>buf.
     call_return (from_c_str buf))))"

definition process_main :: "'e psys \<Rightarrow> bytes \<Rightarrow> ('e, int) call" where
  "process_main sys buf e =
     (case Process_new sys False e of (proc, e) \<Rightarrow>
        call_bind (process_start sys (\<lambda>_ p. call_then (child_handler sys buf p) (call_return ())) proc) (\<lambda>(out, proc).
          case out of
            Exited code \<Rightarrow> call_return code
          | Returned _ \<Rightarrow>
              call_then (process_write sys proc (str ''hello''))
             (call_then (\<lambda>e. Some (Inr (process_wait sys e)))
             (call_then (process_delete sys proc) (call_return 0)))) e)"

text \<open>The child writes behind its array whenever its \<open>read\<close> returns, and nothing is printed.\<close>

theorem child_overruns:
  assumes "length buf = 6" and "current_sock (p_socket p) \<noteq> None"
    and "\<And>fd r bs e'. sys_recv (net sys) fd 5 e = ((r, bs), e') \<Longrightarrow> length bs \<le> 5"
  shows "child_handler sys buf p e = Some (Inl OutOfBounds)"
proof -
  obtain t where t: "current_sock (p_socket p) = Some t" using assms(2) by blast
  obtain r bs e' where r: "sys_recv (net sys) (get_socket (p_socket p) t) 5 e = ((r, bs), e')" by (metis prod.exhaust)
  then have "length bs \<le> 5" using assms(3) by blast
  then show ?thesis
    using assms(1) t r by (simp add: child_handler_def process_read_def unix_recv_def with_current_def Socket_recv_def Let_def
        call_bind_def call_return_def call_res_def mem_write_def)
qed

theorem child_overruns_witness:
  "child_handler (demo_psys 0) [0, 0, 0, 0, 0, 0] (demo_process\<lparr>p_socket := (p_socket demo_process)\<lparr>current_sock := Some WORKER\<rparr>\<rparr>)
     \<lparr>blocked = 0, to_read = str ''hello'', written = []\<rparr> = Some (Inl OutOfBounds)"
  by (rule child_overruns) (auto simp: demo_psys_def demo_sys_def Let_def)

section \<open>A plain server\<close>

text \<open>
  The handler of \<open>server/server.cc\<close>. \<open>buf[ret] = 0\<close> uses the result of \<open>recv\<close> also when it failed.
\<close>

definition response_str :: bytes where
  "response_str = str ''HTTP/1.1 200 OK'' @ crlf @ str ''Content-Type: text/html'' @ crlf @ str ''Connection: close'' @ crlf @
     str ''Content-Length: 11'' @ crlf @ crlf @ str ''hello world'' @ crlf"

definition tcp_handler :: "nat \<Rightarrow> 'e sys \<Rightarrow> co_socket \<Rightarrow> ('e, unit) call" where
  "tcp_handler n sys s =
     call_bind (co_recv n sys s 1023) (\<lambda>(ret, bs).
     call_bind (call_res (mem_write (replicate 1024 0) 0 bs)) (\<lambda>buf.
     call_then (call_res (if 0 \<le> ret then mem_write buf (nat ret) [0] else Inl OutOfBounds))
    (call_then (co_send n sys s response_str)
    (call_modify (co_socket_delete sys s)))))"

definition server_main :: "nat \<Rightarrow> nat \<Rightarrow> 'e sys \<Rightarrow> (('e, unit) call \<Rightarrow> ('e, co_socket \<Rightarrow> ('e, unit) call) tcp_server \<Rightarrow> ('e, co_socket \<Rightarrow> ('e, unit) call) tcp_server) \<Rightarrow>
    'e \<Rightarrow> (bool \<times> ('e, co_socket \<Rightarrow> ('e, unit) call) tcp_server) res option" where
  "server_main m n sys create_co e =
     (case Server_new sys (str ''127.0.0.1'') 80 e of (s, e) \<Rightarrow>
        server_start m n sys (\<lambda>fn conn. create_co (fn conn))
          (server_set_handler (tcp_handler n sys) \<lparr>srv_env = e, srv_socket = s, srv_running = False, srv_handler = None\<rparr>))"

text \<open>A request of any kind gets the fixed response and the connection is closed; after a \<open>recv\<close> that failed the handler writes before its array.\<close>

theorem tcp_handler_outcomes:
  assumes "co_recv n sys s 1023 e = Some (Inr ((ret, bs), e1))" and "length bs = nat ret" and "ret \<le> 1023"
    and "co_send n sys s response_str e1 = Some (Inr (r, e2))"
  shows "tcp_handler n sys s e = (if ret < 0 then Some (Inl OutOfBounds) else Some (Inr ((), co_socket_delete sys s e2)))"
  using assms by (auto simp: tcp_handler_def call_bind_def call_then_def call_res_def call_modify_def mem_write_def)

theorem tcp_handler_outcomes_witness:
  "tcp_handler 1 quick_sys demo_socket \<lparr>blocked = 0, to_read = str ''GET'', written = []\<rparr> =
     Some (Inr ((), \<lparr>blocked = 0, to_read = [], written = response_str\<rparr>))"
proof -
  let ?e = "\<lparr>blocked = 0, to_read = [], written = []\<rparr> :: demo"
  have l: "length (str ''GET'') = 3" "length response_str = 96" by code_simp+
  have 1: "co_recv 1 quick_sys demo_socket 1023 \<lparr>blocked = 0, to_read = str ''GET'', written = []\<rparr> = Some (Inr ((3, str ''GET''), ?e))"
    using quick_recv [of "str ''GET''" 1023 demo_socket "[]"] l(1) by (simp add: to_int_small)
  have 2: "co_send 1 quick_sys demo_socket response_str ?e = Some (Inr (96, ?e\<lparr>written := written ?e @ response_str\<rparr>))"
    using quick_send [of response_str demo_socket ?e] l(2) by (simp add: to_int_small)
  from tcp_handler_outcomes [OF 1 _ _ 2] l(1) show ?thesis
    by (simp add: co_socket_delete_def Socket_close_def ok_call_def quick_sys_def demo_sys_def)
qed

section \<open>An HTTP/2 client\<close>

text \<open>\<open>http2/client/client.cc\<close>; \<open>fswError\<close> ends the process when \<open>connect\<close> fails. The result is what it prints.\<close>

definition client_request :: h2_request where
  "client_request = \<lparr>h2_method = str ''GET'', h2_path = str ''/'', h2_body = Some (str ''http2 client''), h2_body_length = Some 12,
     pipeline = True, h2_header = map_put (str ''content-type'') (str ''text/html'') (map_put (str ''user-agent'') (str ''Chrome/49.0.2587.3'')
       (map_put (str ''host'') (str ''127.0.0.1'') []))\<rparr>"

definition client_main :: "nat \<Rightarrow> nat \<Rightarrow> nat \<Rightarrow> 'e sys \<Rightarrow> ('d, 'i) nghttp2 \<Rightarrow> (('e, 'd, 'i) h2_client, u32 list \<times> cstring) call" where
  "client_main m k n sys ng =
     call_bind (h2_connect n sys (str ''127.0.0.1'') 80) (\<lambda>ret.
     if \<not> ret then call_fault ExitError
     else
       call_bind (send_request n sys ng client_request) (\<lambda>sid1.
       call_bind (write_data n sys sid1 (str ''http2 client'') False) (\<lambda>sid2.
       call_bind (write_data n sys sid2 (str ''http2 client'') True) (\<lambda>sid3.
       call_bind (recv_reponse m k n sys ng) (\<lambda>rep.
       call_return ([sid1, sid2, sid3], resp_body rep))))))"

text \<open>
  The client never sends its request: \<open>build_http_header\<close> copies seven bytes from the name \<open>host\<close>, which has
  four and a NUL.
\<close>

theorem client_overreads:
  assumes "h2_connect n sys (str ''127.0.0.1'') 80 c = Some (Inr (True, c1))"
  shows "client_main m k n sys ng c = Some (Inl OutOfBounds)"
proof -
  have "\<not> list_all (\<lambda>(k, v). 6 \<le> length k \<and> 6 \<le> length v) (h2_header client_request)" by code_simp
  then have "h2_header_list client_request = Inl OutOfBounds" by (simp add: header_list_eq)
  then have "send_request n sys ng client_request c1 = Some (Inl OutOfBounds)"
    by (simp add: send_request_def send_http_header_frame_def h2_build_http_header_def of_payload_def Let_def call_bind_def call_then_def
        call_get_def call_modify_def call_res_def)
  then show ?thesis using assms by (simp add: client_main_def call_bind_def)
qed

theorem client_overreads_witness:
  "client_main 5 5 1 quick_sys demo_ng (demo_client []) = Some (Inl OutOfBounds)"
  by (rule client_overreads [of 1 quick_sys "demo_client []" "demo_client []"]) (simp add: h2_connect_def demo_client_def call_bind_def call_get_def call_return_def)

section \<open>An HTTP and WebSocket server\<close>

text \<open>The handlers of \<open>http/server/server.cc\<close>.\<close>

definition http_handler :: "nat \<Rightarrow> 'e sys \<Rightarrow> ('e, 'p) handler" where
  "http_handler n sys =
     call_bind (call_res (append_chars (Buffer_new 0 1024) (str ''hello world'') 11)) (\<lambda>b.
     call_then (call_modify (set_resp_header (str ''Content-Type'') (str ''text/html'')))
    (Response_end n sys (Some b) 0))"

text \<open>
  The loop of \<open>websocket_handler\<close>, at most \<open>k\<close> turns. \<open>nap\<close> is \<open>Coroutine::sleep(1)\<close>: what happens in the second that
  the coroutine sleeps. A \<open>Frame\<close> has no initial value (\<open>frame0\<close>); the messages it prints are gathered in \<open>out\<close>.
\<close>

primrec websocket_handler ::
    "nat \<Rightarrow> nat \<Rightarrow> 'e sys \<Rightarrow> ('e, unit) call \<Rightarrow> ws_frame \<Rightarrow> cstring list \<Rightarrow> (('e, 'p) ctx, cstring list) call" where
  "websocket_handler 0 n sys nap frame0 out c = None"
| "websocket_handler (Suc k) n sys nap frame0 out c =
     call_bind (recv_frame n sys frame0) (\<lambda>f.
     call_bind (call_get (\<lambda>c. buf_data (fst (get_read_buf (conn c))))) (\<lambda>m.
     call_bind (call_res (mem_read m (ws_payload f) (unat (ws_frame.payload_length f)))) (\<lambda>recv_data.
     call_bind (call_res (append_string (Buffer_new 0 15) (str ''hello websocket''))) (\<lambda>send_data.
     call_then (send_frame n sys send_data 1 1)
    (call_then (in_env nap) (websocket_handler k n sys nap frame0 (out @ [recv_data]))))))) c"

definition web_server ::
    "nat \<Rightarrow> nat \<Rightarrow> 'e sys \<Rightarrow> ('e, unit) call \<Rightarrow> ws_frame \<Rightarrow> ('e, 'p) http_server \<Rightarrow> ('e, 'p) http_server" where
  "web_server k n sys nap frame0 srv =
     set_websocket_handler (str ''/websocket'') (Some (call_then (websocket_handler k n sys nap frame0 []) (call_return ())))
    (set_http_handler (str ''/index'') (Some (http_handler n sys))
    (srv\<lparr>settings := map_put (str ''document_root'') (str ''/var/www/html'') (settings srv)\<rparr>))"

definition web_main ::
    "nat \<Rightarrow> (bytes \<Rightarrow> bytes) \<Rightarrow> nat \<Rightarrow> 'e sys \<Rightarrow> 'e files \<Rightarrow> 'p http_parser \<Rightarrow> (('e, unit) call \<Rightarrow> 'e server \<Rightarrow> 'e server) \<Rightarrow>
     ('e, unit) call \<Rightarrow> ws_frame \<Rightarrow> 'e \<Rightarrow> (bool \<times> 'e server) res option" where
  "web_main k sha1 n sys fs hp mk nap frame0 e =
     (case Http_Server_new sys (str ''127.0.0.1'') 80 e of (srv, s, e) \<Rightarrow>
        http_server_start k sha1 n sys fs hp mk (web_server k n sys nap frame0 srv)
          \<lparr>srv_env = e, srv_socket = s, srv_running = False\<rparr>)"

definition fresh_server :: "('e, 'p) http_server" where
  "fresh_server = \<lparr>settings = [], http_handlers = [], websocket_handlers = []\<rparr>"

lemma web_server_index:
  "get_http_handler (str ''/index'') (web_server k n sys nap frame0 fresh_server) = Some (http_handler n sys)"
  "map_find (str ''document_root'') (settings (web_server k n sys nap frame0 fresh_server)) = Some (str ''/var/www/html'')"
proof -
  have "strncasecmp_eq (str ''/index'') (str ''/index'') (length (str ''/index''))" by code_simp
  then show "get_http_handler (str ''/index'') (web_server k n sys nap frame0 fresh_server) = Some (http_handler n sys)"
    by (simp add: web_server_def fresh_server_def set_http_handler_def set_websocket_handler_def set_handler_def get_http_handler_def)
qed (simp add: web_server_def fresh_server_def set_http_handler_def set_websocket_handler_def)

lemma hello_world: "\<exists>b. append_chars (Buffer_new 0 1024) (str ''hello world'') 11 = Inr b \<and> buf_wf b \<and> buf_contents b = str ''hello world''"
proof -
  have "case append_chars (Buffer_new 0 1024) (str ''hello world'') 11 of Inl _ \<Rightarrow> False
    | Inr b \<Rightarrow> buf_wf b \<and> buf_contents b = str ''hello world''" by code_simp
  then show ?thesis by (auto split: sum.splits)
qed

definition index_page :: "bool \<Rightarrow> bytes" where
  "index_page ka = http_text 200 ka [(str ''Content-Type'', str ''text/html'')] 11 (Some (str ''hello world''))"

lemma http_handler_answers:
  assumes "ctx_ok c" and "keep_alive c = Some ka" and "status (response c) = 200" and "resp_header (response c) = []"
    and "co_send n sys (conn c) (index_page ka) (env c) = Some (Inr (r, e))"
  shows "\<exists>c'. http_handler n sys c = Some (Inr ((), c')) \<and> env c' = e \<and> ctx_ok c' \<and> keep_alive c' = Some ka"
proof -
  let ?c = "set_resp_header (str ''Content-Type'') (str ''text/html'') c"
  obtain b where b: "append_chars (Buffer_new 0 1024) (str ''hello world'') 11 = Inr b" "buf_wf b" "buf_contents b = str ''hello world''"
    using hello_world by blast
  have c: "ctx_ok ?c" "keep_alive ?c = Some ka" "env ?c = env c" "conn ?c = conn c"
    using assms(1,2) by (simp_all add: set_resp_header_def ctx_ok_def)
  have "length (str ''hello world'') = 11" by code_simp
  then have "index_page ka = http_text (status (response ?c)) ka (resp_header (response ?c))
      (case Some b of None \<Rightarrow> 0 | Some d \<Rightarrow> int (length (buf_contents d))) (map_option buf_contents (Some b))"
    using assms(3,4) b(3) by (simp add: index_page_def set_resp_header_def)
  moreover have "length (index_page ka) \<le> WRITE_BUF_MAX_SIZE" by (cases ka; simp; code_simp)
  ultimately obtain d where r: "Response_end n sys (Some b) 0 ?c = Some (Inr ((), ?c\<lparr>env := e, conn := (conn ?c)\<lparr>write_buf := Some d\<rparr>\<rparr>))"
    using response_sent [OF c(1,2), of "Some b" "index_page ka" n sys r e] b(2) assms(5) c(3,4) by auto
  moreover have "ctx_ok (?c\<lparr>env := e, conn := (conn ?c)\<lparr>write_buf := Some d\<rparr>\<rparr>)" using call_keepsD [OF ok_Response_end c(1) r] .
  ultimately show ?thesis
    using b(1) c(2) by (auto simp: http_handler_def call_bind_def call_then_def call_res_def call_modify_def)
qed

lemma serve_index:
  assumes "fs_stat fs (str ''/var/www/html'' @ str ''/index'') (env c) = (ret, e)" and "ret < 0"
    and "map_find (str ''sec-websocket-key'') (req_header (request c)) = None"
  shows "serve_request sha1 n sys fs (web_server k n sys nap frame0 fresh_server) (str ''/index'') c =
    call_then (http_handler n sys) (call_return True) (c\<lparr>env := e\<rparr>)"
  using assms by (simp add: serve_request_def get_document_absolute_path_def lift_env_def in_env_def call_on_def call_bind_def
      web_server_index call_http_handler_def call_get_def has_sec_websocket_key_def has_header_def)

text \<open>
  C28: the HTTP server of the examples answers a request for \<open>/index\<close>. It looks for the file below its document root first; when there
  is none, the handler's page is sent: status 200, the content type, the length 11 and \<open>hello world\<close>. Then the connection
  ends or waits for the next request as the client asked.
\<close>

theorem example_server_answers:
  assumes "ctx_ok c" and "msg \<noteq> []" and "length msg \<le> READ_BUF_MAX_SIZE"
    and "co_recv n sys (conn c) READ_BUF_MAX_SIZE (env c) = Some (Inr ((int (length msg), msg), e))"
    and "http_parser_execute hp (parser c) msg = (p, request_events q l ls major minor m ka)"
    and "q + l \<le> length msg" and "lines_in msg ls" and "req_header (request c) = []" and "str ''/index'' = take l (drop q msg)"
    and "map_of (rev (header_pairs msg ls)) (str ''sec-websocket-key'') = None"
    and "status (response c) = 200" and "resp_header (response c) = []"
    and "fs_stat fs (str ''/var/www/html'' @ str ''/index'') e = (ret, e1)" and "ret < 0"
    and "co_send n sys (conn c) (index_page ka) e1 = Some (Inr (r, e2))"
    and "srv = web_server j n sys nap frame0 fresh_server"
  shows "\<exists>c2. accept_loop (Suc k) sha1 n sys fs hp srv c =
      (if ka then accept_loop k sha1 n sys fs hp srv (Ctx_clear c2) else Some (Inr ((), c2))) \<and> env c2 = e2 \<and> ctx_ok c2"
proof -
  have "0 \<notin> set (str ''/index'')" by code_simp
  then obtain c1 where 1: "accept_loop (Suc k) sha1 n sys fs hp srv c = call_bind (serve_request sha1 n sys fs srv (str ''/index''))
      (\<lambda>more. if \<not> more then call_return () else next_request k sha1 n sys fs hp srv) c1"
    and f: "env c1 = e" "ctx_ok c1" "response c1 = response c" "sock_fd (conn c1) = sock_fd (conn c)" "keep_alive c1 = Some ka"
    "\<forall>x. map_find x (req_header (request c1)) = map_of (rev (header_pairs msg ls)) x"
    using request_read [OF assms(1-9)] by blast
  let ?c1 = "c1\<lparr>env := e1\<rparr>"
  have c1: "ctx_ok ?c1" "keep_alive ?c1 = Some ka" "status (response ?c1) = 200" "resp_header (response ?c1) = []"
    using f assms(11,12) by (simp_all add: ctx_ok_def)
  moreover have "co_send n sys (conn ?c1) (index_page ka) (env ?c1) = Some (Inr (r, e2))"
    using assms(15) f(4) by (simp add: co_send_fd [of "conn c1" "conn c"])
  ultimately obtain c2 where h: "http_handler n sys ?c1 = Some (Inr ((), c2))" "env c2 = e2" "ctx_ok c2" "keep_alive c2 = Some ka"
    using http_handler_answers [of ?c1 ka n sys r e2] by blast
  have "fs_stat fs (str ''/var/www/html'' @ str ''/index'') (env c1) = (ret, e1)" using assms(13) f(1) by simp
  then have "serve_request sha1 n sys fs srv (str ''/index'') c1 = call_then (http_handler n sys) (call_return True) ?c1"
    using serve_index assms(10,14,16) f(6) by metis
  then have "accept_loop (Suc k) sha1 n sys fs hp srv c =
      (if ka then accept_loop k sha1 n sys fs hp srv (Ctx_clear c2) else Some (Inr ((), c2)))"
    using 1 h(1,4) by (simp add: next_request_def call_then_def call_bind_def call_get_def call_modify_def call_return_def)
  with h(2,3) show ?thesis by blast
qed

definition index_parser :: "unit http_parser" where
  "index_parser = \<lparr>http_parser_init = (), http_parser_execute = (\<lambda>p bs. (p, request_events 4 6 [] 1 1 1 False))\<rparr>"

definition index_client :: demo where
  "index_client = \<lparr>blocked = 0, to_read = str ''GET /index'', written = []\<rparr>"

theorem example_server_answers_witness:
  "\<forall>frame0. \<exists>c2. accept_loop 2 (\<lambda>_. []) 1 quick_sys demo_files index_parser (web_server 1 1 quick_sys (call_return ()) frame0 fresh_server)
     (Ctx_new index_client demo_socket ()) = Some (Inr ((), c2)) \<and> written (env c2) = index_page False"
proof (intro allI)
  fix frame0
  let ?m = "str ''GET /index''" and ?c = "Ctx_new index_client demo_socket ()" and ?e = "\<lparr>blocked = 0, to_read = [], written = []\<rparr> :: demo"
  have m: "length ?m = 10" "?m \<noteq> []" "length ?m \<le> READ_BUF_MAX_SIZE" "4 + 6 \<le> length ?m" "lines_in ?m []" "str ''/index'' = take 6 (drop 4 ?m)"
    "map_of (rev (header_pairs ?m [])) (str ''sec-websocket-key'') = None" by code_simp+
  have c: "ctx_ok ?c" "req_header (request ?c) = []" "status (response ?c) = 200" "resp_header (response ?c) = []"
    by (simp_all add: ctx_ok_def conn_ok_def reading_ok_def Ctx_new_def demo_socket_def Request_new_def Response_new_def)
  have r: "co_recv 1 quick_sys (conn ?c) READ_BUF_MAX_SIZE (env ?c) = Some (Inr ((int (length ?m), ?m), ?e))"
    using quick_recv [of ?m READ_BUF_MAX_SIZE] m(1) by (simp add: index_client_def Ctx_new_def to_int_small READ_BUF_MAX_SIZE_def)
  have p: "http_parser_execute index_parser (parser ?c) ?m = ((), request_events 4 6 [] 1 1 1 False)" by (simp add: index_parser_def)
  have f: "fs_stat demo_files (str ''/var/www/html'' @ str ''/index'') ?e = (-1, ?e)" "(-1 :: int) < 0" by (simp_all add: demo_files_def)
  have "length (index_page False) \<le> 1024" by code_simp
  then have send: "co_send 1 quick_sys (conn ?c) (index_page False) ?e =
      Some (Inr (int (length (index_page False)), ?e\<lparr>written := written ?e @ index_page False\<rparr>))"
    by (intro quick_send) (simp add: to_int_small)
  from example_server_answers [OF c(1) m(2,3) r p m(4,5) c(2) m(6,7) c(3,4) f send refl, of 1 "\<lambda>_. []" 1 "call_return ()" frame0]
  show "\<exists>c2. accept_loop 2 (\<lambda>_. []) 1 quick_sys demo_files index_parser (web_server 1 1 quick_sys (call_return ()) frame0 fresh_server) ?c =
      Some (Inr ((), c2)) \<and> written (env c2) = index_page False"
    by (auto simp: numeral_2_eq_2 simp del: accept_loop.simps)
qed

text \<open>
  A turn of the WebSocket handler: the message that arrives is printed, the answer is sent as one frame, and after its nap the handler
  waits for the next message.
\<close>

theorem websocket_handler_turn:
  assumes "ctx_ok c" and "length key = 4" and "ask = rfc_frame final op (Some key) msg" and "length ask \<le> READ_BUF_MAX_SIZE"
    and "co_recv n sys (conn c) READ_BUF_MAX_SIZE (env c) = Some (Inr ((int (length ask), ask), e))"
    and "co_send n sys (conn c) (rfc_frame True 1 None (str ''hello websocket'')) e = Some (Inr (r, e1))"
    and "nap e1 = Some (Inr ((), e2))"
  shows "\<exists>c'. websocket_handler (Suc k) n sys nap frame0 out c = websocket_handler k n sys nap frame0 (out @ [msg]) c' \<and>
    env c' = e2 \<and> ctx_ok c'"
proof -
  let ?fr = "rfc_frame True 1 None (str ''hello websocket'')"
  obtain f rb where 1: "recv_frame n sys frame0 c = Some (Inr (f, c\<lparr>env := e, conn := (conn c)\<lparr>read_buf := Some rb\<rparr>\<rparr>))"
    "ws_frame.payload_length f = of_nat (length msg)" "mem_read (buf_data rb) (ws_payload f) (length msg) = Inr msg"
    using recv_frame_decodes [of c key final op msg n sys e frame0] assms(1-5) by (auto simp: ctx_ok_def)
  let ?c1 = "c\<lparr>env := e, conn := (conn c)\<lparr>read_buf := Some rb\<rparr>\<rparr>"
  have ok: "ctx_ok ?c1" using call_keepsD [OF ok_recv_frame assms(1) 1(1)] .
  have "length msg \<le> length ask" by (auto simp: assms(3) rfc_frame_def split: prod.splits)
  then have l: "unat (ws_frame.payload_length f) = length msg"
    using 1(2) assms(4) by (simp add: READ_BUF_MAX_SIZE_def unat_of_nat take_bit_nat_eq_self)
  have "case append_string (Buffer_new 0 15) (str ''hello websocket'') of Inl _ \<Rightarrow> False
    | Inr b \<Rightarrow> buf_wf b \<and> buf_contents b = str ''hello websocket''" by code_simp
  then obtain d where d: "append_string (Buffer_new 0 15) (str ''hello websocket'') = Inr d" "buf_wf d" "buf_contents d = str ''hello websocket''"
    by (auto split: sum.splits)
  have s: "length ?fr \<le> WRITE_BUF_MAX_SIZE" "length (str ''hello websocket'') = 15" by code_simp+
  have "co_send n sys (conn ?c1) ?fr (env ?c1) = Some (Inr (r, e1))"
    using assms(6) by (simp add: co_send_fd [of "(conn c)\<lparr>read_buf := Some rb\<rparr>" "conn c"])
  moreover have "conn_ok (conn ?c1)" using ok by (simp add: ctx_ok_def)
  ultimately obtain b where 2: "send_frame n sys d 1 1 ?c1 = Some (Inr ((), ?c1\<lparr>env := e1, conn := (conn ?c1)\<lparr>write_buf := Some b\<rparr>\<rparr>))"
    using send_frame_sends [of ?c1 d ?fr 1 1 n sys] d(2,3) s by auto
  let ?c2 = "?c1\<lparr>env := e1, conn := (conn ?c1)\<lparr>write_buf := Some b\<rparr>\<rparr>"
  have "ctx_ok ?c2" using call_keepsD [OF ok_send_frame ok 2] .
  moreover have "websocket_handler (Suc k) n sys nap frame0 out c = websocket_handler k n sys nap frame0 (out @ [msg]) (?c2\<lparr>env := e2\<rparr>)"
    using 1(1,3) l d(1) 2 assms(7) by (simp add: call_bind_def call_then_def call_get_def call_res_def get_read_buf_def in_env_def call_on_def)
  ultimately show ?thesis by (intro exI [of _ "?c2\<lparr>env := e2\<rparr>"]) (simp add: ctx_ok_def)
qed

end
