(* ===== verification/Spec2Isabelle.thy ===== *)
theory Spec2Isabelle
  imports Base64 Scheduler_Termination Log Examples
begin

text \<open>
  A verification development for fsw, a C++ library of coroutines and networking (\<open>src/\<close> and
  \<open>include/\<close> of the repository).

  \<^bold>\<open>The program.\<close> Code runs in coroutines, each with a stack of its own
  (\<open>src/coroutine/context.cc\<close>, \<open>coroutine.cc\<close>). A coroutine gives up the processor by yielding:
  in a channel (\<open>channel.cc\<close>), in a timed sleep (\<open>src/timer.cc\<close>) or in a socket operation that
  would block (\<open>src/coroutine/socket.cc\<close>). The event loop (\<open>src/core/event.cc\<close>) resumes those whose
  timer is due or whose descriptor \<open>epoll_wait\<close> reports. On top are a TCP server
  (\<open>src/coroutine/server.cc\<close>), an HTTP server with WebSocket support (\<open>src/coroutine/http/\<close>,
  \<open>src/websocket_frame.cc\<close>, \<open>src/base64.cc\<close>), an HTTP/2 client (\<open>src/coroutine/http2/\<close>) and child
  processes that talk over a socket pair (\<open>src/process.cc\<close>, \<open>src/unix_socket.cc\<close>). Byte buffers
  (\<open>src/buffer.cc\<close>) and the log (\<open>src/log.cc\<close>) serve all of them.

  \<^bold>\<open>Conventions.\<close> \<open>Prelude\<close> has the machine types (\<open>byte\<close>, \<open>u16\<close>, \<open>u32\<close>, \<open>u64\<close> are words and
  wrap), blocks of memory as lists that are read and written with bounds, the ways to go wrong
  (\<open>fault\<close>: out of bounds, null, freed or uninitialised memory, and \<open>ExitError\<close> for
  \<open>fswError\<close>, which ends the process), results \<open>'a res\<close>, and calls
  \<open>('s, 'a) call\<close>, functions from a state to an optional result: \<open>None\<close> is a run that has not ended
  within its bound. \<open>CString\<close>, \<open>Std_Heap\<close> and \<open>Std_Map\<close> model what is used of the standard
  library: strings, \<open>std::priority_queue\<close> as a binary heap (locale \<open>min_queue\<close>) and \<open>std::map\<close>
  as a sorted list (locale \<open>ordered_map\<close>).

  \<^bold>\<open>The runtime.\<close>
  \<^item> \<open>Timer\<close>: \<open>Timer\<close> and \<open>TimerManager\<close>. The due timers fire in order, none is left, the next wait
    is that of the earliest.
  \<^item> \<open>Help\<close>, \<open>World\<close>, \<open>Coroutine\<close>, \<open>Channel\<close>, \<open>Event_Poll\<close>: one record \<open>world\<close> holds
    the coroutines, the timers, the channels and the poll set; each method is a function on it. The code of a
    coroutine is a \<open>prog\<close>, a tree of its calls with a continuation for each result. Switching stacks is
    calling the runner.
  \<^item> \<open>Scheduler_Steps\<close> is the specification: the state changes that running code can make, as a step
    relation, and the locale \<open>runner\<close> of executions that make only such changes and come back to their
    caller. \<open>Scheduler\<close> runs programs (\<open>exec\<close>) and shows that it is a \<open>runner\<close>; what holds of
    every step then holds of every run. \<open>Scheduler_Termination\<close> shows that resuming always ends.
  \<^item> \<open>Event_Loop\<close>: the loop and \<open>coroutine::run\<close>. When a program ends, no timer is pending and no
    descriptor registered; channels deliver in order and stay within their capacity; one turn resumes what was
    reported; a timed wait leaves half of itself behind.

  \<^bold>\<open>Sockets, servers, processes.\<close>
  \<^item> \<open>Net\<close> and \<open>Co_Socket\<close>: \<open>src/socket.cc\<close> and \<open>src/coroutine/socket.cc\<close> over a record
    \<open>'e sys\<close> of the system calls. \<open>sys_yield\<close> is what happens while the coroutine is suspended.
    \<open>recv_all\<close> and \<open>send_all\<close> lose and repeat nothing.
  \<^item> \<open>Socket_Wait\<close> ties the sockets to the runtime: a wait as one call with a \<open>sys_yield\<close> and a wait as a
    suspension that the event loop ends make the same registrations and give the same answer, and a wait that
    \<open>epoll_wait\<close> reports returns.
  \<^item> \<open>Tcp_Server\<close>, \<open>Process\<close>, \<open>Log\<close>: accept loop, \<open>fork\<close> and the two ends of the pair, the
    log line in its fixed arrays.

  \<^bold>\<open>Protocols.\<close>
  \<^item> \<open>Buffer\<close>: appending within the capacity, or the end of the process (locale \<open>byte_sink\<close>).
    \<open>Base64\<close>: RFC 4648 and its round trip. \<open>Websocket_Frame\<close>: RFC 6455 in both directions.
  \<^item> \<open>Http\<close>: requests as the callbacks of the parser build them, responses as text, the handshake.
    \<open>Http_Handshake\<close>: header names, the answers of \<open>upgrade\<close>. \<open>Websocket_Exchange\<close>: frames on a
    connection. \<open>Http_Server\<close>: handlers, static files, the serving loop; \<open>Http_Server_Termination\<close>:
    that it ends with its client; \<open>Http_Connection\<close>: that its buffers stay well-formed whatever is
    received, that a request reaches the handler of its path, and the bytes that answer it.
  \<^item> \<open>Http2_Frame\<close>, \<open>Http2_Client\<close>: frames, settings, header lists, streams and every operation of the
    client. \<open>Http2_Streams\<close> and \<open>Http2_Session\<close>, the sending side: numbering of streams, the bytes of a
    request, settings from one side to the other. \<open>Http2_Response\<close>, the receiving side: the response of a
    stream collected from its frames, frames too large for the buffer, lost headers. \<open>Http2_Exchange\<close>: a client
    from \<open>connect\<close> to its first response, with every byte it sends.

  \<^bold>\<open>Examples.\<close> \<open>Examples\<close> has five programs of \<open>examples/\<close> as clients of the models above: creating
  coroutines, a child process, a TCP server, an HTTP/2 client and the HTTP server, which is shown to answer a request for its
  page. Three of them write or read outside their arrays.

  This theory holds what spans components: an exchange on a WebSocket connection.

  \<^bold>\<open>Bounds.\<close> A loop that need not end takes a bound on its turns, and \<open>None\<close> says that it was not
  enough. \<open>exec n\<close> bounds the depth of calls; \<open>Scheduler_Termination\<close> shows that some bound is always
  enough and that the result does not change beyond it. Retried calls take one bound for the attempts and
  transfers one for the turns: \<open>Suc (bud e)\<close> attempts and \<open>Suc len\<close> turns are shown to be enough when the
  system lets a call block at most \<open>bud e\<close> times (\<open>patience\<close>). Serving a connection needs a turn per byte.
  The turns of the accept loop, of the event loop and of receiving a response depend on the outside: their theorems hold for
  every bound, or say how many turns the frames that arrive need.

  \<^bold>\<open>Parameters.\<close> The system calls (\<open>'e sys\<close>, \<open>files\<close>), the parser of \<open>thirdparty/http\<close>
  (\<open>http_parser\<close>, which gives the callbacks in order), the header compression of \<open>thirdparty/nghttp2\<close>
  (\<open>nghttp2\<close>), SHA-1 of OpenSSL and the user's handlers. What a theorem needs of them is a hypothesis of it,
  and its witness instantiates them.

  \<^bold>\<open>Not modelled.\<close> The assembly of the stack switch and the allocation of stacks; the code of
  \<open>thirdparty/\<close>; failing allocations; leaks, except that a deleted object must not be used; debug and trace output, and the
  text of warnings, which change no state. Sockets, servers and the HTTP/2 client run one coroutine against a
  world that changes while it waits (\<open>Socket_Wait\<close> relates the two views for one wait), so that another coroutine that writes into the shared \<open>FswG.buffer_stack\<close>
  in the middle of a \<open>send_all\<close> is outside the model. \<open>Headers::reserve_one\<close>, the second constructor of
  \<open>http2::Frame\<close> and \<open>Frame::debug\<close> have no caller that changes state. The four programs of
  \<open>examples/coroutine/socket/server/\<close> call functions (\<open>fswSocket_create\<close>, \<open>fsw_event_init\<close>, \<open>fsw_event_wait\<close>)
  that the library does not have any more, so that there is nothing to run them against; the programs of \<open>test/\<close> only call
  the library.
\<close>

section \<open>A WebSocket exchange\<close>

text \<open>
  C9: one exchange on a WebSocket connection, through sockets, buffers and frames. When \<open>recv\<close> brings
  the bytes of a masked RFC 6455 frame, \<open>recv_frame\<close> returns its header and length and leaves the
  message, unmasked, where the frame points to. When the handler then answers with \<open>send_frame\<close>, the
  bytes that reach \<open>send\<close> are those of the RFC 6455 frame of the answer, and request and response
  are untouched.
\<close>

theorem websocket_exchange:
  assumes "reading_ok (conn c)" and "conn_ok (conn c)" and "length key = 4" and "buf_wf d"
    and "ask = rfc_frame final op (Some key) msg" and "length ask \<le> READ_BUF_MAX_SIZE"
    and "answer = rfc_frame (odd (unat finish)) (unat op') None (buf_contents d)" and "length answer \<le> WRITE_BUF_MAX_SIZE"
    and "co_recv n sys (conn c) READ_BUF_MAX_SIZE (env c) = Some (Inr ((int (length ask), ask), e))"
    and "co_send n sys (conn c) answer e = Some (Inr (r, e'))"
  shows "\<exists>f' rb c1 c2. recv_frame n sys f c = Some (Inr (f', c1)) \<and> read_buf (conn c1) = Some rb \<and>
    ws_header f' = rfc_header final op True (length msg) \<and> ws_frame.payload_length f' = of_nat (length msg) \<and>
    mem_read (buf_data rb) (ws_payload f') (length msg) = Inr msg \<and>
    send_frame n sys d op' finish c1 = Some (Inr ((), c2)) \<and> env c2 = e' \<and> request c2 = request c \<and> response c2 = response c"
proof -
  have "length (buf_contents d) \<le> length answer"
    by (auto simp: assms(7) rfc_frame_def split: prod.splits)
  then have small: "length (buf_contents d) + 10 < 2 ^ 64" using assms(8) by (simp add: WRITE_BUF_MAX_SIZE_def)
  obtain f' rb where 1: "recv_frame n sys f c = Some (Inr (f', c\<lparr>env := e, conn := (conn c)\<lparr>read_buf := Some rb\<rparr>\<rparr>))"
    "ws_header f' = rfc_header final op True (length msg)" "ws_frame.payload_length f' = of_nat (length msg)"
    "mem_read (buf_data rb) (ws_payload f') (length msg) = Inr msg"
    using recv_frame_decodes [OF assms(1,3), of final op msg n sys e f] assms(5,6,9) by auto
  let ?c1 = "c\<lparr>env := e, conn := (conn c)\<lparr>read_buf := Some rb\<rparr>\<rparr>"
  have "conn_ok (conn ?c1)" using assms(2) by (simp add: conn_ok_def)
  moreover have "co_send n sys (conn ?c1) answer (env ?c1) = Some (Inr (r, e'))"
    using assms(10) by (simp add: co_send_fd [of "(conn c)\<lparr>read_buf := Some rb\<rparr>" "conn c"])
  ultimately obtain b where "send_frame n sys d op' finish ?c1 =
      Some (Inr ((), ?c1\<lparr>env := e', conn := (conn ?c1)\<lparr>write_buf := Some b\<rparr>\<rparr>))"
    using send_frame_sends [of ?c1 d answer finish op' n sys] assms(4,7,8) small by auto
  then show ?thesis
    using 1 by (intro exI [of _ f'] exI [of _ rb] exI [of _ ?c1] exI [of _ "?c1\<lparr>env := e', conn := (conn ?c1)\<lparr>write_buf := Some b\<rparr>\<rparr>"]) simp
qed

text \<open>A client asks \<open>hi\<close> and gets \<open>hi\<close> back.\<close>

definition chat :: "bytes \<Rightarrow> (demo, unit) ctx" where
  "chat inp = Ctx_new \<lparr>blocked = 0, to_read = inp, written = []\<rparr> demo_socket ()"


definition chat_frame :: ws_frame where
  "chat_frame = \<lparr>ws_header = header_of_bytes 0 0, mask_key = [0, 0, 0, 0], header_length = 0, payload_length = 0, ws_payload = 0\<rparr>"

theorem websocket_exchange_witness:
  "\<exists>f' rb c1 c2. recv_frame 1 quick_sys chat_frame (chat (rfc_frame True 1 (Some [1, 2, 3, 4]) (str ''hi''))) = Some (Inr (f', c1)) \<and>
     read_buf (conn c1) = Some rb \<and> mem_read (buf_data rb) (ws_payload f') 2 = Inr (str ''hi'') \<and>
     send_frame 1 quick_sys demo_body 1 1 c1 = Some (Inr ((), c2)) \<and> written (env c2) = rfc_frame True 1 None (str ''hi'')"
proof -
  let ?ask = "rfc_frame True 1 (Some [1, 2, 3, 4]) (str ''hi'')" and ?answer = "rfc_frame True 1 None (str ''hi'')"
  let ?c = "chat ?ask" and ?e = "\<lparr>blocked = 0, to_read = [], written = []\<rparr>"
  have c: "conn ?c = demo_socket" "env ?c = \<lparr>blocked = 0, to_read = ?ask, written = []\<rparr>"
    by (simp_all add: chat_def Ctx_new_def)
  have ok: "reading_ok (conn ?c)" "conn_ok (conn ?c)" unfolding c by (simp_all add: reading_ok_def conn_ok_def demo_socket_def)
  have d: "buf_wf demo_body" "buf_contents demo_body = str ''hi''" by code_simp+
  have l: "length ?ask = 8" "length ?answer = 4" "length (str ''hi'') = 2" by code_simp+
  have i: "to_int 8 = 8" "to_int 4 = 4" by (simp_all add: to_int_def)
  have recv: "co_recv 1 quick_sys (conn ?c) READ_BUF_MAX_SIZE (env ?c) = Some (Inr ((int (length ?ask), ?ask), ?e))"
    unfolding c by (rule quick_recv; unfold l(1)) (simp_all add: i READ_BUF_MAX_SIZE_def)
  have send: "co_send 1 quick_sys (conn ?c) ?answer ?e = Some (Inr (int (length ?answer), ?e\<lparr>written := written ?e @ ?answer\<rparr>))"
    by (rule quick_send) (simp only: l of_nat_numeral i)
  have a: "?answer = rfc_frame (odd (unat (1 :: byte))) (unat (1 :: byte)) None (buf_contents demo_body)" by (simp add: d)
  have "length ?ask \<le> READ_BUF_MAX_SIZE" "length ?answer \<le> WRITE_BUF_MAX_SIZE" "length [1, 2, 3, 4 :: byte] = 4"
    using l by (simp_all add: READ_BUF_MAX_SIZE_def WRITE_BUF_MAX_SIZE_def)
  from websocket_exchange [OF ok this(3) d(1) refl this(1) a this(2) recv send, of chat_frame] l(3) show ?thesis by fastforce
qed

end
